theory Spec2Isabelle
  imports Main "HOL-Library.Sublist"
begin

section \<open>Strings of the script engine\<close>

text \<open>
  A JavaScript string is a sequence of UTF-16 code units; a code unit is modelled as a
  natural number. \<open>asc\<close> turns an ASCII literal into such a string, \<open>arrow\<close> is the code
  unit U+2192 that starts a reference token.
\<close>

type_synonym ustring = "nat list"

definition asc :: "string \<Rightarrow> ustring" where
  "asc s = map of_char s"

definition arrow :: nat where
  "arrow = 8594"

text \<open>The white space and line terminators of the language: what \<open>\s\<close> and \<open>trim\<close> see.\<close>

definition isSpace :: "nat \<Rightarrow> bool" where
  "isSpace c = (c \<in> {9, 10, 11, 12, 13, 32, 160, 5760, 8232, 8233, 8239, 8287, 12288, 65279}
                \<or> (8192 \<le> c \<and> c \<le> 8202))"

definition isDigit :: "nat \<Rightarrow> bool" where
  "isDigit c = (48 \<le> c \<and> c \<le> 57)"

definition isLetter :: "nat \<Rightarrow> bool" where
  "isLetter c = ((97 \<le> c \<and> c \<le> 122) \<or> (65 \<le> c \<and> c \<le> 90))"

text \<open>The class \<open>[a-z0-9-]\<close> under the flag \<open>i\<close>.\<close>

definition isIdChar :: "nat \<Rightarrow> bool" where
  "isIdChar c = (isLetter c \<or> isDigit c \<or> c = 45)"

definition asciiLower :: "ustring \<Rightarrow> ustring" where
  "asciiLower s = map (\<lambda>c. if 65 \<le> c \<and> c \<le> 90 then c + 32 else c) s"

definition trim :: "ustring \<Rightarrow> ustring" where
  "trim s = rev (dropWhile isSpace (rev (dropWhile isSpace s)))"

definition startsWith :: "ustring \<Rightarrow> ustring \<Rightarrow> bool" where
  "startsWith p s = (take (length p) s = p)"

text \<open>\<open>s.split(/\s+/)\<close>: the pieces between maximal runs of white space, empty pieces at
  the two ends included.\<close>

fun split_ws :: "ustring \<Rightarrow> ustring list" where
  "split_ws [] = [[]]"
| "split_ws (c # cs) =
     (if isSpace c then
        (case cs of
           d # _ \<Rightarrow> if isSpace d then split_ws cs else [] # split_ws cs
         | [] \<Rightarrow> [] # split_ws cs)
      else (case split_ws cs of [] \<Rightarrow> [[c]] | w # ws \<Rightarrow> (c # w) # ws))"

text \<open>The decimal digits of a counter, as a template literal prints a number.\<close>

fun show_nat :: "nat \<Rightarrow> ustring" where
  "show_nat n = (if n < 10 then [48 + n] else show_nat (n div 10) @ [48 + n mod 10])"

declare show_nat.simps [simp del]

section \<open>The document tree\<close>

text \<open>
  A node is a text node or an element with its tag (the lower-case local name, so that
  \<open>tagName === 'DIV'\<close> reads \<open>tagOf n = asc ''div''\<close>), its attributes in the order they were
  set, and its child nodes. Comments and the other node kinds are left out.
\<close>

datatype node = Text ustring | Elem ustring "(ustring \<times> ustring) list" "node list"

fun isElem :: "node \<Rightarrow> bool" where
  "isElem (Elem _ _ _) = True"
| "isElem (Text _) = False"

fun tagOf :: "node \<Rightarrow> ustring" where
  "tagOf (Elem t _ _) = t"
| "tagOf (Text _) = []"

fun attrsOf :: "node \<Rightarrow> (ustring \<times> ustring) list" where
  "attrsOf (Elem _ as _) = as"
| "attrsOf (Text _) = []"

fun childNodes :: "node \<Rightarrow> node list" where
  "childNodes (Elem _ _ cs) = cs"
| "childNodes (Text _) = []"

definition children :: "node \<Rightarrow> node list" where
  "children n = filter isElem (childNodes n)"

definition getAttribute :: "node \<Rightarrow> ustring \<Rightarrow> ustring option" where
  "getAttribute n k = map_of (attrsOf n) k"

definition className :: "node \<Rightarrow> ustring" where
  "className n = (case getAttribute n (asc ''class'') of Some v \<Rightarrow> v | None \<Rightarrow> [])"

fun textContent :: "node \<Rightarrow> ustring" where
  "textContent (Text s) = s"
| "textContent (Elem t as cs) = concat (map textContent cs)"

text \<open>A key of an insertion-ordered table (the attributes of an element, the own string
  keys of an object): a new key goes last, a known key keeps its place.\<close>

fun setKey :: "ustring \<Rightarrow> ustring \<Rightarrow> (ustring \<times> ustring) list \<Rightarrow> (ustring \<times> ustring) list" where
  "setKey k v [] = [(k, v)]"
| "setKey k v ((k', v') # kvs) = (if k' = k then (k, v) # kvs else (k', v') # setKey k v kvs)"

text \<open>\<open>setAttribute\<close> with a name that is a literal of the source (\<open>slot\<close>, \<open>style\<close>).\<close>

fun setAttr :: "ustring \<Rightarrow> ustring \<Rightarrow> node \<Rightarrow> node" where
  "setAttr k v (Elem t as cs) = Elem t (setKey k v as) cs"
| "setAttr k v (Text s) = Text s"

fun appendAll :: "node \<Rightarrow> node list \<Rightarrow> node" where
  "appendAll (Elem t as cs) ns = Elem t as (cs @ ns)"
| "appendAll (Text s) ns = Text s"

text \<open>
  The element descendants of a node in document order, each with the flag "some proper
  ancestor is a \<open>tr\<close>"; the first argument says so of the node itself or of one of its
  ancestors. The flag decides the selector \<open>tr td\<close>, which looks at ancestors outside the
  element it is run on.
\<close>

fun desc :: "bool \<Rightarrow> node \<Rightarrow> (bool \<times> node) list" where
  "desc anc (Text s) = []"
| "desc anc (Elem t as cs) =
     concat (map (\<lambda>c. if isElem c then (anc, c) # desc (anc \<or> tagOf c = asc ''tr'') c else []) cs)"

definition descendants :: "node \<Rightarrow> node list" where
  "descendants n = map snd (desc False n)"

text \<open>\<open>n.querySelectorAll(tag)\<close> and \<open>n.querySelector(tag)\<close> for a type selector.\<close>

definition queryAll :: "ustring \<Rightarrow> node \<Rightarrow> node list" where
  "queryAll tag n = filter (\<lambda>d. tagOf d = tag) (descendants n)"

definition querySelector :: "ustring \<Rightarrow> node \<Rightarrow> node option" where
  "querySelector tag n = find (\<lambda>d. tagOf d = tag) (descendants n)"

text \<open>\<open>n.querySelector('[slot]')\<close> is not null.\<close>

definition hasSlotted :: "node \<Rightarrow> bool" where
  "hasSlotted n = (\<exists>d \<in> set (descendants n). getAttribute d (asc ''slot'') \<noteq> None)"

section \<open>The platform\<close>

text \<open>
  What the script asks of its host and is not part of the repository: the markup parser
  (\<open>DOMParser\<close>, the \<open>innerHTML\<close> setter), the serializer (the \<open>innerHTML\<close> and \<open>outerHTML\<close>
  getters), the name checks of \<open>createElement\<close> and \<open>setAttribute\<close>, and the case mapping of
  \<open>String.prototype.toLowerCase\<close>. They are parameters of the model.
  \<^item> \<open>parseTag t\<close>: the first element child of the body parsed from \<open><t></t>\<close>, as its tag,
    attributes and child nodes; \<open>None\<close> when the body has no element child.
  \<^item> \<open>innerHTML ns\<close>: what the \<open>innerHTML\<close> getter returns for a cell (a \<open>div\<close> or a \<open>td\<close>, the
    only elements the script reads it from) whose child nodes are \<open>ns\<close>.
  \<^item> \<open>parseFragment s\<close>: the child nodes a \<open>span\<close> gets when its \<open>innerHTML\<close> is set to \<open>s\<close>.
  \<^item> \<open>parseDocument html\<close>: the \<open>body\<close> element of the document parsed from \<open>html\<close>.
\<close>

datatype error = RangeError | InvalidCharacterError | TypeError

record platform =
  parseTag :: "ustring \<Rightarrow> (ustring \<times> (ustring \<times> ustring) list \<times> node list) option"
  parseFragment :: "ustring \<Rightarrow> node list"
  innerHTML :: "node list \<Rightarrow> ustring"
  outerHTML :: "node \<Rightarrow> ustring"
  validTagName :: "ustring \<Rightarrow> bool"
  validAttrName :: "ustring \<Rightarrow> bool"
  toLowerCase :: "ustring \<Rightarrow> ustring"
  parseDocument :: "ustring \<Rightarrow> node"

definition createElement :: "platform \<Rightarrow> ustring \<Rightarrow> error + node" where
  "createElement P t =
     (if validTagName P t then Inr (Elem (asciiLower t) [] []) else Inl InvalidCharacterError)"

text \<open>\<open>setAttribute\<close> with a name taken from the document: it throws on a name the host
  refuses and lower-cases the others.\<close>

definition setAttribute :: "platform \<Rightarrow> ustring \<Rightarrow> ustring \<Rightarrow> node \<Rightarrow> error + node" where
  "setAttribute P k v n =
     (if validAttrName P k then Inr (setAttr (asciiLower k) v n) else Inl InvalidCharacterError)"

section \<open>Reference tokens\<close>

text \<open>
  The expression \<open>/\<rightarrow>\s*([a-z][a-z0-9-]*-\d+)/gi\<close>. \<open>lastDashDigit run\<close> is where the greedy
  \<open>[a-z0-9-]*\<close> stops after backtracking: the last position of \<open>run\<close> holding a hyphen with a
  digit after it. \<open>matchRef cs\<close> matches the text after an arrow: the captured group,
  lower-cased, and the number of code units matched after the arrow.
\<close>

fun lastDashDigit :: "ustring \<Rightarrow> nat option" where
  "lastDashDigit [] = None"
| "lastDashDigit (c # cs) =
     (case lastDashDigit cs of
        Some k \<Rightarrow> Some (Suc k)
      | None \<Rightarrow> (case cs of d # _ \<Rightarrow> if c = 45 \<and> isDigit d then Some 0 else None | [] \<Rightarrow> None))"

definition matchRef :: "ustring \<Rightarrow> (ustring \<times> nat) option" where
  "matchRef cs =
     (let ws = takeWhile isSpace cs in
      case dropWhile isSpace cs of
        [] \<Rightarrow> None
      | c # r \<Rightarrow>
          if \<not> isLetter c then None
          else (let run = takeWhile isIdChar r in
                case lastDashDigit run of
                  None \<Rightarrow> None
                | Some k \<Rightarrow>
                    (let len = Suc k + length (takeWhile isDigit (drop (Suc k) run))
                     in Some (asciiLower (c # take len run), length ws + Suc len))))"

text \<open>\<open>matchAll\<close>: the first argument counts the code units of the current match still to
  be passed over.\<close>

fun scanRefs :: "nat \<Rightarrow> ustring \<Rightarrow> ustring list" where
  "scanRefs skip [] = []"
| "scanRefs skip (c # cs) =
     (if 0 < skip then scanRefs (skip - 1) cs
      else if c = arrow then
        (case matchRef cs of Some (ref, n) \<Rightarrow> ref # scanRefs n cs | None \<Rightarrow> scanRefs 0 cs)
      else scanRefs 0 cs)"

definition parseReferences :: "ustring \<Rightarrow> ustring list" where
  "parseReferences text = scanRefs 0 text"

text \<open>\<open>text.replace(/\<rightarrow>\s*[a-z][a-z0-9-]*-\d+/gi, '')\<close>.\<close>

fun stripRefs :: "nat \<Rightarrow> ustring \<Rightarrow> ustring" where
  "stripRefs skip [] = []"
| "stripRefs skip (c # cs) =
     (if 0 < skip then stripRefs (skip - 1) cs
      else if c = arrow then
        (case matchRef cs of Some (ref, n) \<Rightarrow> stripRefs n cs | None \<Rightarrow> c # stripRefs 0 cs)
      else c # stripRefs 0 cs)"

definition isReferenceOnly :: "ustring \<Rightarrow> bool" where
  "isReferenceOnly text = (trim (filter (\<lambda>c. c \<noteq> 44) (stripRefs 0 text)) = [])"

section \<open>The block pipeline\<close>

definition VANILLA_TAGS :: "ustring list" where
  "VANILLA_TAGS = map asc [''p'', ''h1'', ''h2'', ''h3'', ''h4'', ''h5'', ''h6'', ''span'', ''a'',
     ''strong'', ''em'', ''b'', ''i'', ''u'', ''br'']"

definition isCustomElementClass :: "ustring \<Rightarrow> bool" where
  "isCustomElementClass c =
     (c = asc ''experience-element'' \<or> (c \<noteq> [] \<and> 45 \<in> set c \<and> c \<notin> set VANILLA_TAGS))"

text \<open>\<open>Array.from(n.children).filter((c) => c.tagName === 'DIV')\<close>.\<close>

definition divChildren :: "node \<Rightarrow> node list" where
  "divChildren n = filter (\<lambda>c. tagOf c = asc ''div'') (children n)"

text \<open>The loop over the rows that both \<open>getElementName\<close> and \<open>getElementNameFromTable\<close>
  run, on the list of the cells of each row: the first row of exactly two cells whose
  first cell reads \<open>element-name\<close> gives the name.\<close>

fun firstElementName :: "node list list \<Rightarrow> ustring option" where
  "firstElementName [] = None"
| "firstElementName (cells # rows) =
     (case cells of
        [c0, c1] \<Rightarrow>
          if trim (textContent c0) = asc ''element-name'' then Some (trim (textContent c1))
          else firstElementName rows
      | _ \<Rightarrow> firstElementName rows)"

text \<open>\<open>None\<close> is \<open>null\<close>; the name of an \<open>element-name\<close> row may be the empty string.\<close>

definition getElementName :: "node \<Rightarrow> ustring option" where
  "getElementName blockDiv =
     (case firstElementName (map divChildren (divChildren blockDiv)) of
        Some name \<Rightarrow> Some name
      | None \<Rightarrow>
          find (\<lambda>c. 45 \<in> set c \<and> c \<notin> set VANILLA_TAGS \<and> c \<noteq> asc ''experience-element'')
            (filter (\<lambda>c. c \<noteq> []) (split_ws (className blockDiv))))"

text \<open>The test \<open>if (elementName)\<close>: neither \<open>null\<close> nor the empty string.\<close>

definition truthy :: "ustring option \<Rightarrow> bool" where
  "truthy s = (s \<noteq> None \<and> s \<noteq> Some [])"

text \<open>
  The numbering loop of \<open>buildBlockMap\<close>, \<open>buildTableMap\<close>, \<open>findRootBlock\<close> and
  \<open>findRootTable\<close>: \<open>counts\<close> is the map of the running counters (a missing key reads 0).
  \<open>assignIds\<close> gives the identifier of each component by position (\<open>None\<close> for a component
  without a name), as the map \<open>blockIds\<close> keyed by the component objects does;
  \<open>buildMap\<close> fills the index from identifiers to components.
\<close>

definition makeId :: "ustring \<Rightarrow> nat \<Rightarrow> ustring" where
  "makeId nameLower count = nameLower @ asc ''-'' @ show_nat count"

fun assignIds :: "platform \<Rightarrow> (node \<Rightarrow> ustring option) \<Rightarrow> (ustring \<Rightarrow> nat) \<Rightarrow> node list
    \<Rightarrow> ustring option list" where
  "assignIds P getName counts [] = []"
| "assignIds P getName counts (block # blocks) =
     (case getName block of
        None \<Rightarrow> None # assignIds P getName counts blocks
      | Some elementName \<Rightarrow>
          if elementName = [] then None # assignIds P getName counts blocks
          else (let nameLower = toLowerCase P elementName;
                    count = counts nameLower + 1
                in Some (makeId nameLower count)
                   # assignIds P getName (counts(nameLower := count)) blocks))"

fun buildMap :: "platform \<Rightarrow> (node \<Rightarrow> ustring option) \<Rightarrow> (ustring \<Rightarrow> nat)
    \<Rightarrow> (ustring \<rightharpoonup> node) \<Rightarrow> node list \<Rightarrow> (ustring \<rightharpoonup> node)" where
  "buildMap P getName counts m [] = m"
| "buildMap P getName counts m (block # blocks) =
     (case getName block of
        None \<Rightarrow> buildMap P getName counts m blocks
      | Some elementName \<Rightarrow>
          if elementName = [] then buildMap P getName counts m blocks
          else (let nameLower = toLowerCase P elementName;
                    count = counts nameLower + 1
                in buildMap P getName (counts(nameLower := count))
                     (m(makeId nameLower count \<mapsto> block)) blocks))"

definition buildBlockMap :: "platform \<Rightarrow> node list \<Rightarrow> (ustring \<rightharpoonup> node)" where
  "buildBlockMap P blocks = buildMap P getElementName (\<lambda>_. 0) Map.empty blocks"

record parsedRow =
  slotName :: "ustring option"
  content :: node
  isSlot :: bool

definition parseBlockRow :: "node \<Rightarrow> parsedRow option" where
  "parseBlockRow rowDiv =
     (case divChildren rowDiv of
        [] \<Rightarrow> None
      | [c] \<Rightarrow> Some \<lparr>slotName = None, content = c, isSlot = False\<rparr>
      | c0 # c1 # _ \<Rightarrow>
          (case querySelector (asc ''strong'') c0 of
             Some strongEl \<Rightarrow>
               Some \<lparr>slotName = Some (trim (textContent strongEl)), content = c1, isSlot = True\<rparr>
           | None \<Rightarrow>
               Some \<lparr>slotName = Some (trim (textContent c0)), content = c1, isSlot = False\<rparr>))"

text \<open>The test that \<open>findNestedBlock\<close> and \<open>findBlocks\<close> make of a node: a \<open>div\<close> with a
  class attribute one of whose tokens marks a component.\<close>

definition isBlockDiv :: "node \<Rightarrow> bool" where
  "isBlockDiv n = (tagOf n = asc ''div'' \<and> className n \<noteq> []
                   \<and> (\<exists>c \<in> set (split_ws (className n)). isCustomElementClass c))"

definition findNestedBlock :: "node \<Rightarrow> node option" where
  "findNestedBlock contentDiv = find isBlockDiv (children contentDiv)"

definition isSimplePWrapper :: "node \<Rightarrow> bool" where
  "isSimplePWrapper contentDiv =
     (case children contentDiv of
        [child] \<Rightarrow> tagOf child = asc ''p'' \<and> children child = []
      | _ \<Rightarrow> False)"

text \<open>The test \<open>/<(p|h[1-6]|div|ul|ol|table)/i\<close> on serialized markup.\<close>

definition blockTagAhead :: "ustring \<Rightarrow> bool" where
  "blockTagAhead s =
     (startsWith (asc ''p'') s
      \<or> (case s of h # d # _ \<Rightarrow> h = 104 \<and> 49 \<le> d \<and> d \<le> 54 | _ \<Rightarrow> False)
      \<or> startsWith (asc ''div'') s \<or> startsWith (asc ''ul'') s \<or> startsWith (asc ''ol'') s
      \<or> startsWith (asc ''table'') s)"

fun hasBlockElements :: "ustring \<Rightarrow> bool" where
  "hasBlockElements [] = False"
| "hasBlockElements (c # cs) = ((c = 60 \<and> blockTagAhead (asciiLower cs)) \<or> hasBlockElements cs)"

text \<open>
  The loop over the reference tokens of a row: each token found in the index is
  converted by \<open>rec\<close> (the recursive call), annotated by \<open>annot\<close> and collected, in the
  order of the tokens; a token that is not in the index is passed over; the first call
  that throws ends the loop.
\<close>

fun resolveRefs :: "(node \<Rightarrow> error + node) \<Rightarrow> (ustring \<rightharpoonup> node) \<Rightarrow> (node \<Rightarrow> node)
    \<Rightarrow> ustring list \<Rightarrow> error + node list" where
  "resolveRefs rec m annot [] = Inr []"
| "resolveRefs rec m annot (refId # refs) =
     (case m refId of
        None \<Rightarrow> resolveRefs rec m annot refs
      | Some refBlock \<Rightarrow>
          (case rec refBlock of
             Inl e \<Rightarrow> Inl e
           | Inr converted \<Rightarrow>
               (case resolveRefs rec m annot refs of
                  Inl e \<Rightarrow> Inl e
                | Inr nodes \<Rightarrow> Inr (annot converted # nodes))))"

text \<open>\<open>if (slotName) converted.setAttribute('slot', slotName)\<close>.\<close>

definition slotIfNamed :: "ustring option \<Rightarrow> node \<Rightarrow> node" where
  "slotIfNamed slot n =
     (case slot of
        Some s \<Rightarrow> if s \<noteq> [] then setAttr (asc ''slot'') s n else n
      | None \<Rightarrow> n)"

text \<open>\<open>if (slotName && slotName !== 'children') converted.setAttribute('slot', slotName)\<close>.\<close>

definition slotUnlessChildren :: "ustring option \<Rightarrow> node \<Rightarrow> node" where
  "slotUnlessChildren slot n =
     (case slot of
        Some s \<Rightarrow> if s \<noteq> [] \<and> s \<noteq> asc ''children'' then setAttr (asc ''slot'') s n else n
      | None \<Rightarrow> n)"

text \<open>The \<open>span\<close> made by \<open>document.createElement('span')\<close> with its \<open>innerHTML\<close> set.\<close>

definition spanWrapper :: "platform \<Rightarrow> ustring \<Rightarrow> node" where
  "spanWrapper P html = Elem (asc ''span'') [] (parseFragment P html)"

text \<open>\<open>convertContent\<close> returns an element or a fragment; both are appended to the element,
  so the result is the list of the nodes appended.\<close>

definition convertContent :: "platform \<Rightarrow> (node \<Rightarrow> error + node) \<Rightarrow> (ustring \<rightharpoonup> node) \<Rightarrow> node
    \<Rightarrow> ustring option \<Rightarrow> error + node list" where
  "convertContent P rec m contentDiv slot =
     (case findNestedBlock contentDiv of
        Some nested \<Rightarrow>
          (case rec nested of
             Inl e \<Rightarrow> Inl e
           | Inr converted \<Rightarrow> Inr [slotIfNamed slot converted])
      | None \<Rightarrow>
          (let html = trim (innerHTML P (childNodes contentDiv));
               text = trim (textContent contentDiv);
               refs = parseReferences text
           in if refs \<noteq> [] \<and> isReferenceOnly text then
                resolveRefs rec m (slotIfNamed slot) refs
              else if hasBlockElements html then
                Inr (map (\<lambda>n. if isElem n then slotIfNamed slot n else n) (childNodes contentDiv))
              else Inr [slotIfNamed slot (spanWrapper P html)]))"

text \<open>The nodes a single-cell row appends: the child nodes of the only element child
  when it is a \<open>p\<close>, the child nodes of the cell otherwise.\<close>

definition unwrapSingleP :: "node \<Rightarrow> node list" where
  "unwrapSingleP cell =
     (case children cell of
        [child] \<Rightarrow> if tagOf child = asc ''p'' then childNodes child else childNodes cell
      | _ \<Rightarrow> childNodes cell)"

text \<open>One round of the loop over the rows of \<open>convertBlock\<close>, on the pair of the element
  under construction and the style variables collected so far.\<close>

definition convertRow :: "platform \<Rightarrow> (node \<Rightarrow> error + node) \<Rightarrow> (ustring \<rightharpoonup> node) \<Rightarrow> node
    \<Rightarrow> node \<times> (ustring \<times> ustring) list \<Rightarrow> error + node \<times> (ustring \<times> ustring) list" where
  "convertRow P rec m row st =
     (case parseBlockRow row of
        None \<Rightarrow> Inr st
      | Some parsed \<Rightarrow>
          (let element = fst st; styleVars = snd st;
               text = trim (textContent (content parsed));
               html = trim (innerHTML P (childNodes (content parsed)));
               refs = parseReferences text
           in if slotName parsed = Some (asc ''element-name'') then Inr st
              else if (case slotName parsed of Some s \<Rightarrow> startsWith (asc ''style-'') s | None \<Rightarrow> False)
              then (case slotName parsed of
                      Some s \<Rightarrow> Inr (element, setKey (asc ''--'' @ drop 6 s) text styleVars)
                    | None \<Rightarrow> Inr st)
              else if refs \<noteq> [] \<and> isReferenceOnly text then
                (case resolveRefs rec m (slotUnlessChildren (slotName parsed)) refs of
                   Inl e \<Rightarrow> Inl e
                 | Inr nodes \<Rightarrow> Inr (appendAll element nodes, styleVars))
              else if hasSlotted (content parsed) then
                Inr (appendAll element (childNodes (content parsed)), styleVars)
              else (case slotName parsed of
                 None \<Rightarrow> Inr (appendAll element (unwrapSingleP (content parsed)), styleVars)
               | Some s \<Rightarrow>
                   if isSlot parsed then
                     Inr (appendAll element [setAttr (asc ''slot'') s (spanWrapper P html)], styleVars)
                   else if html \<noteq> text \<and> \<not> isSimplePWrapper (content parsed) then
                     (case convertContent P rec m (content parsed) (Some s) of
                        Inl e \<Rightarrow> Inl e
                      | Inr nodes \<Rightarrow> Inr (appendAll element nodes, styleVars))
                   else if s \<noteq> [] then
                     (case setAttribute P (if s = asc ''attr-type'' then asc ''type'' else s) text element of
                        Inl e \<Rightarrow> Inl e
                      | Inr element' \<Rightarrow> Inr (element', styleVars))
                   else Inr st)))"

fun convertRows :: "('r \<Rightarrow> 's \<Rightarrow> error + 's) \<Rightarrow> 'r list \<Rightarrow> 's \<Rightarrow> error + 's" where
  "convertRows step [] st = Inr st"
| "convertRows step (row # rows) st =
     (case step row st of Inl e \<Rightarrow> Inl e | Inr st' \<Rightarrow> convertRows step rows st')"

text \<open>\<open>otherClasses.forEach((cls) => element.setAttribute(cls, ''))\<close>.\<close>

fun setVariants :: "platform \<Rightarrow> ustring list \<Rightarrow> node \<Rightarrow> error + node" where
  "setVariants P [] element = Inr element"
| "setVariants P (cls # rest) element =
     (case setAttribute P cls [] element of
        Inl e \<Rightarrow> Inl e
      | Inr element' \<Rightarrow> setVariants P rest element')"

text \<open>\<open>Object.entries(styleVars).map(([k, v]) => `${k}: ${v}`).join('; ')\<close>.\<close>

fun joinWith :: "ustring \<Rightarrow> ustring list \<Rightarrow> ustring" where
  "joinWith sep [] = []"
| "joinWith sep [x] = x"
| "joinWith sep (x # y # ys) = x @ sep @ joinWith sep (y # ys)"

definition styleStr :: "(ustring \<times> ustring) list \<Rightarrow> ustring" where
  "styleStr styleVars = joinWith (asc ''; '') (map (\<lambda>(k, v). k @ asc '': '' @ v) styleVars)"

definition applyStyle :: "(ustring \<times> ustring) list \<Rightarrow> node \<Rightarrow> node" where
  "applyStyle styleVars element =
     (if styleVars \<noteq> [] then setAttr (asc ''style'') (styleStr styleVars) element else element)"

text \<open>
  \<open>convertBlock\<close>. The first argument bounds the depth of the nested calls: the source has
  no guard against a cycle of references, and a conversion that nests deeper than the
  stack allows ends in a \<open>RangeError\<close>.
\<close>

primrec convertBlock :: "nat \<Rightarrow> platform \<Rightarrow> (ustring \<rightharpoonup> node) \<Rightarrow> node \<Rightarrow> error + node" where
  "convertBlock 0 = (\<lambda>P m blockDiv. Inl RangeError)"
| "convertBlock (Suc fuel) = (\<lambda>P m blockDiv.
     (let classes = filter (\<lambda>c. c \<noteq> []) (split_ws (className blockDiv))
      in case find isCustomElementClass classes of
           None \<Rightarrow> Inr blockDiv
         | Some blockClass \<Rightarrow>
             (case getElementName blockDiv of
                None \<Rightarrow> Inr blockDiv
              | Some elementName \<Rightarrow>
                  if elementName = [] then Inr blockDiv
                  else (let tagName = toLowerCase P elementName
                        in case parseTag P tagName of
                             None \<Rightarrow> createElement P tagName
                           | Some (t, as, cs) \<Rightarrow>
                               (case setVariants P
                                       (filter (\<lambda>c. c \<noteq> blockClass \<and> c \<noteq> asc ''experience-element''
                                                   \<and> c \<noteq> elementName) classes)
                                       (Elem t as cs) of
                                  Inl e \<Rightarrow> Inl e
                                | Inr element \<Rightarrow>
                                    (case convertRows (convertRow P (convertBlock fuel P m) m)
                                            (divChildren blockDiv) (element, []) of
                                       Inl e \<Rightarrow> Inl e
                                     | Inr (element', styleVars) \<Rightarrow>
                                         Inr (applyStyle styleVars element')))))))"

text \<open>\<open>findBlocks\<close>: the walk does not go into a block it has found.\<close>

fun walk :: "node \<Rightarrow> node list" where
  "walk (Text s) = []"
| "walk (Elem t as cs) =
     (if isBlockDiv (Elem t as cs) then [Elem t as cs]
      else concat (map walk (filter isElem cs)))"

definition findBlocks :: "node \<Rightarrow> node list" where
  "findBlocks root = walk root"

text \<open>The identifiers that the text of some component refers to (the set
  \<open>referencedIds\<close>, as a list).\<close>

definition referencedIds :: "node list \<Rightarrow> ustring list" where
  "referencedIds blocks = concat (map (\<lambda>block. parseReferences (textContent block)) blocks)"

text \<open>The components with an identifier that is not referenced, in document order.\<close>

definition unreferenced :: "platform \<Rightarrow> (node \<Rightarrow> ustring option) \<Rightarrow> node list \<Rightarrow> node list" where
  "unreferenced P getName blocks =
     map fst (filter (\<lambda>(block, blockId).
                         case blockId of
                           Some i \<Rightarrow> i \<notin> set (referencedIds blocks)
                         | None \<Rightarrow> False)
                (zip blocks (assignIds P getName (\<lambda>_. 0) blocks)))"

text \<open>The body that \<open>findRootBlock\<close> and \<open>findRootTable\<close> share.\<close>

definition findRoot :: "platform \<Rightarrow> (node \<Rightarrow> ustring option) \<Rightarrow> node list \<Rightarrow> node option" where
  "findRoot P getName blocks =
     (case blocks of
        [] \<Rightarrow> None
      | [block] \<Rightarrow> Some block
      | _ \<Rightarrow>
          (let unreferencedBlocks = unreferenced P getName blocks
           in if length unreferencedBlocks = 1 then Some (hd unreferencedBlocks)
              else if length unreferencedBlocks > 1 then Some (last unreferencedBlocks)
              else Some (last blocks)))"

definition findRootBlock :: "platform \<Rightarrow> node list \<Rightarrow> node option" where
  "findRootBlock P blocks = findRoot P getElementName blocks"

section \<open>The table pipeline\<close>

text \<open>\<open>table.querySelector('tr td')\<close>: the first \<open>td\<close> below the table that has a \<open>tr\<close> among
  its ancestors.\<close>

definition firstTrTd :: "bool \<Rightarrow> node \<Rightarrow> node option" where
  "firstTrTd anc table =
     map_option snd (find (\<lambda>(inTr, d). inTr \<and> tagOf d = asc ''td'') (desc anc table))"

definition findTables :: "bool \<Rightarrow> node \<Rightarrow> node list" where
  "findTables anc root =
     map snd (filter (\<lambda>(inTr, t). tagOf t = asc ''table''
                        \<and> (case firstTrTd inTr t of
                             Some firstCell \<Rightarrow> trim (textContent firstCell) = asc ''experience-element''
                           | None \<Rightarrow> False))
               (desc anc root))"

definition getElementNameFromTable :: "node \<Rightarrow> ustring option" where
  "getElementNameFromTable table =
     firstElementName (map (queryAll (asc ''td'')) (queryAll (asc ''tr'') table))"

definition buildTableMap :: "platform \<Rightarrow> node list \<Rightarrow> (ustring \<rightharpoonup> node)" where
  "buildTableMap P tables = buildMap P getElementNameFromTable (\<lambda>_. 0) Map.empty tables"

text \<open>The loop over the reference tokens of a table row; \<open>convertTable\<close> may return
  \<open>null\<close>, which is passed over.\<close>

fun resolveTableRefs :: "(node \<Rightarrow> error + node option) \<Rightarrow> (ustring \<rightharpoonup> node) \<Rightarrow> (node \<Rightarrow> node)
    \<Rightarrow> ustring list \<Rightarrow> error + node list" where
  "resolveTableRefs rec m annot [] = Inr []"
| "resolveTableRefs rec m annot (refId # refs) =
     (case m refId of
        None \<Rightarrow> resolveTableRefs rec m annot refs
      | Some refTable \<Rightarrow>
          (case rec refTable of
             Inl e \<Rightarrow> Inl e
           | Inr None \<Rightarrow> resolveTableRefs rec m annot refs
           | Inr (Some converted) \<Rightarrow>
               (case resolveTableRefs rec m annot refs of
                  Inl e \<Rightarrow> Inl e
                | Inr nodes \<Rightarrow> Inr (annot converted # nodes))))"

text \<open>One round of the loop over the rows of \<open>convertTable\<close>.\<close>

definition convertTableRow :: "platform \<Rightarrow> (node \<Rightarrow> error + node option) \<Rightarrow> (ustring \<rightharpoonup> node)
    \<Rightarrow> node \<Rightarrow> node \<times> (ustring \<times> ustring) list \<Rightarrow> error + node \<times> (ustring \<times> ustring) list" where
  "convertTableRow P rec m row st =
     (let element = fst st; styleVars = snd st
      in case queryAll (asc ''td'') row of
           [cell] \<Rightarrow>
             if getAttribute cell (asc ''colspan'') = Some (asc ''2'') then
               (if trim (textContent cell) = asc ''experience-element'' then Inr st
                else Inr (appendAll element (unwrapSingleP cell), styleVars))
             else Inr st
         | [c0, valueCell] \<Rightarrow>
             (let key = trim (textContent c0);
                  text = trim (textContent valueCell);
                  html = trim (innerHTML P (childNodes valueCell));
                  refs = parseReferences text
              in if key = asc ''element-name'' then Inr st
                 else if startsWith (asc ''style-'') key then
                   Inr (element, setKey (asc ''--'' @ drop 6 key) text styleVars)
                 else if refs \<noteq> [] \<and> isReferenceOnly text then
                   (case resolveTableRefs rec m (slotUnlessChildren (Some key)) refs of
                      Inl e \<Rightarrow> Inl e
                    | Inr nodes \<Rightarrow> Inr (appendAll element nodes, styleVars))
                 else if html \<noteq> text then
                   (if hasSlotted valueCell then
                      Inr (appendAll element (childNodes valueCell), styleVars)
                    else Inr (appendAll element [slotIfNamed (Some key) (spanWrapper P html)],
                              styleVars))
                 else if key \<noteq> [] then
                   (case setAttribute P (if key = asc ''attr-type'' then asc ''type'' else key)
                           text element of
                      Inl e \<Rightarrow> Inl e
                    | Inr element' \<Rightarrow> Inr (element', styleVars))
                 else Inr st)
         | _ \<Rightarrow> Inr st)"

text \<open>\<open>convertTable\<close>; \<open>Inr None\<close> is the result \<open>null\<close> of a table without a name.\<close>

primrec convertTable :: "nat \<Rightarrow> platform \<Rightarrow> (ustring \<rightharpoonup> node) \<Rightarrow> node \<Rightarrow> error + node option" where
  "convertTable 0 = (\<lambda>P m table. Inl RangeError)"
| "convertTable (Suc fuel) = (\<lambda>P m table.
     (case getElementNameFromTable table of
        None \<Rightarrow> Inr None
      | Some elementName \<Rightarrow>
          if elementName = [] then Inr None
          else (let tagName = toLowerCase P elementName
                in case parseTag P tagName of
                     None \<Rightarrow>
                       (case createElement P tagName of
                          Inl e \<Rightarrow> Inl e
                        | Inr element \<Rightarrow> Inr (Some element))
                   | Some (t, as, cs) \<Rightarrow>
                       (case convertRows (convertTableRow P (convertTable fuel P m) m)
                               (queryAll (asc ''tr'') table) (Elem t as cs, []) of
                          Inl e \<Rightarrow> Inl e
                        | Inr (element', styleVars) \<Rightarrow>
                            Inr (Some (applyStyle styleVars element'))))))"

definition findRootTable :: "platform \<Rightarrow> node list \<Rightarrow> node option" where
  "findRootTable P tables = findRoot P getElementNameFromTable tables"

section \<open>The two entry points\<close>

text \<open>\<open>doc.body.querySelector('main') || doc.body\<close>, with the flag of \<open>desc\<close> for it.\<close>

definition rootOf :: "node \<Rightarrow> bool \<times> node" where
  "rootOf body =
     (case find (\<lambda>(inTr, d). tagOf d = asc ''main'') (desc False body) of
        Some r \<Rightarrow> r
      | None \<Rightarrow> (False, body))"

text \<open>\<open>fromEDS\<close>: the markup of the converted root component, or the input markup.
  A \<open>null\<close> root cannot occur (the list is not empty); it would end in a \<open>TypeError\<close>.\<close>

definition fromEDS :: "platform \<Rightarrow> nat \<Rightarrow> ustring \<Rightarrow> error + ustring" where
  "fromEDS P fuel html =
     (let r = rootOf (parseDocument P html);
          root = snd r;
          tables = findTables (fst r) root
      in if tables \<noteq> [] then
           (case findRootTable P tables of
              None \<Rightarrow> Inl TypeError
            | Some rootTable \<Rightarrow>
                (case convertTable fuel P (buildTableMap P tables) rootTable of
                   Inl e \<Rightarrow> Inl e
                 | Inr None \<Rightarrow> Inr html
                 | Inr (Some converted) \<Rightarrow> Inr (outerHTML P converted)))
         else (let blocks = findBlocks root
               in if blocks = [] then Inr html
                  else (case findRootBlock P blocks of
                          None \<Rightarrow> Inl TypeError
                        | Some rootBlock \<Rightarrow>
                            (case convertBlock fuel P (buildBlockMap P blocks) rootBlock of
                               Inl e \<Rightarrow> Inl e
                             | Inr converted \<Rightarrow> Inr (outerHTML P converted)))))"

text \<open>\<open>toElement\<close>: the converted element; \<open>Inr None\<close> is \<open>null\<close>.\<close>

definition toElement :: "platform \<Rightarrow> nat \<Rightarrow> ustring \<Rightarrow> error + node option" where
  "toElement P fuel html =
     (let r = rootOf (parseDocument P html);
          root = snd r;
          tables = findTables (fst r) root
      in case tables of
           table0 # _ \<Rightarrow> convertTable fuel P (buildTableMap P tables) table0
         | [] \<Rightarrow>
             (let blocks = findBlocks root
              in case blocks of
                   [] \<Rightarrow> Inr (case children root of [] \<Rightarrow> None | c # _ \<Rightarrow> Some c)
                 | block0 # _ \<Rightarrow>
                     (case convertBlock fuel P (buildBlockMap P blocks) block0 of
                        Inl e \<Rightarrow> Inl e
                      | Inr converted \<Rightarrow> Inr (Some converted))))"

datatype converted = Markup ustring | Element "node option"

text \<open>\<open>fromEds(input, options)\<close>; the flag is \<open>options.asElement\<close>.\<close>

definition fromEds :: "platform \<Rightarrow> nat \<Rightarrow> ustring \<Rightarrow> bool \<Rightarrow> error + converted" where
  "fromEds P fuel input asElement =
     (if asElement then
        (case toElement P fuel input of Inl e \<Rightarrow> Inl e | Inr el \<Rightarrow> Inr (Element el))
      else (case fromEDS P fuel input of Inl e \<Rightarrow> Inl e | Inr s \<Rightarrow> Inr (Markup s)))"

section \<open>A host for the examples\<close>

text \<open>
  One instance of the platform, used to run the model on concrete documents. It is exact
  on what the examples give it: names of custom elements (a letter, then letters, digits
  and hyphens, with a hyphen), text without markup set as \<open>innerHTML\<close>, and the
  serialization of elements and text. The parser of whole documents is set by each
  example to the tree that its markup denotes.
\<close>

definition customName :: "ustring \<Rightarrow> bool" where
  "customName t = (case t of [] \<Rightarrow> False
                   | c # cs \<Rightarrow> 97 \<le> c \<and> c \<le> 122 \<and> 45 \<in> set cs
                       \<and> list_all (\<lambda>d. (97 \<le> d \<and> d \<le> 122) \<or> isDigit d \<or> d = 45) cs)"

definition escapeText :: "ustring \<Rightarrow> ustring" where
  "escapeText s = concat (map (\<lambda>c. if c = 38 then asc ''&amp;'' else if c = 60 then asc ''&lt;''
                                    else if c = 62 then asc ''&gt;'' else if c = 160 then asc ''&nbsp;''
                                    else [c]) s)"

definition escapeAttr :: "ustring \<Rightarrow> ustring" where
  "escapeAttr s = concat (map (\<lambda>c. if c = 38 then asc ''&amp;'' else if c = 34 then asc ''&quot;''
                                    else if c = 160 then asc ''&nbsp;'' else [c]) s)"

definition voidTags :: "ustring list" where
  "voidTags = map asc [''area'', ''base'', ''br'', ''col'', ''embed'', ''hr'', ''img'', ''input'',
     ''link'', ''meta'', ''source'', ''track'', ''wbr'']"

fun serialize :: "node \<Rightarrow> ustring" where
  "serialize (Text s) = escapeText s"
| "serialize (Elem t as cs) =
     [60] @ t @ concat (map (\<lambda>(k, v). [32] @ k @ [61, 34] @ escapeAttr v @ [34]) as) @ [62]
     @ (if t \<in> set voidTags then [] else concat (map serialize cs) @ [60, 47] @ t @ [62])"

definition host :: "node \<Rightarrow> platform" where
  "host body =
     \<lparr>parseTag = (\<lambda>t. if customName t then Some (t, [], []) else None),
      parseFragment = (\<lambda>s. if s = [] then [] else [Text s]),
      innerHTML = (\<lambda>ns. concat (map serialize ns)),
      outerHTML = serialize,
      validTagName = (\<lambda>t. t \<noteq> [] \<and> isLetter (hd t) \<and> list_all isIdChar t),
      validAttrName = (\<lambda>k. k \<noteq> [] \<and> list_all (\<lambda>c. \<not> isSpace c \<and> c \<notin> {0, 47, 61, 62}) k),
      toLowerCase = asciiLower,
      parseDocument = (\<lambda>html. body)\<rparr>"

section \<open>The two encodings of a component with text rows\<close>

text \<open>
  A component whose rows are pairs of a label and a value, both plain text, written as a
  block (a \<open>div.experience-element\<close> of rows of two cells) and as a table (a header row,
  then rows of two cells).
\<close>

definition textNodes :: "ustring \<Rightarrow> node list" where
  "textNodes s = (if s = [] then [] else [Text s])"

definition blockRow :: "ustring \<times> ustring \<Rightarrow> node" where
  "blockRow r = Elem (asc ''div'') []
     [Elem (asc ''div'') [] (textNodes (fst r)), Elem (asc ''div'') [] (textNodes (snd r))]"

definition blockOf :: "(ustring \<times> ustring) list \<Rightarrow> node" where
  "blockOf rows = Elem (asc ''div'') [(asc ''class'', asc ''experience-element'')] (map blockRow rows)"

definition tableRow :: "ustring \<times> ustring \<Rightarrow> node" where
  "tableRow r = Elem (asc ''tr'') []
     [Elem (asc ''td'') [] (textNodes (fst r)), Elem (asc ''td'') [] (textNodes (snd r))]"

definition headerRow :: node where
  "headerRow = Elem (asc ''tr'') []
     [Elem (asc ''td'') [(asc ''colspan'', asc ''2'')] [Text (asc ''experience-element'')]]"

definition tableOf :: "(ustring \<times> ustring) list \<Rightarrow> node" where
  "tableOf rows = Elem (asc ''table'') [] [Elem (asc ''tbody'') [] (headerRow # map tableRow rows)]"

section \<open>The two encodings of a component\<close>

text \<open>
  A row of a component: a label cell and a value cell, or a single cell; a cell is given
  by its child nodes. A component is the list of its rows. Its block encoding is a \<open>div\<close>
  with the class \<open>experience-element\<close>, a row \<open>div\<close> for each row and a cell \<open>div\<close> for each
  cell; its table encoding is a table with the header row and a \<open>tr\<close> for each row, with a
  \<open>td\<close> for each cell, a single cell spanning the two columns.
\<close>

datatype lrow = Labelled "node list" "node list" | Unlabelled "node list"

fun blockRowOf :: "lrow \<Rightarrow> node" where
  "blockRowOf (Labelled l c) =
     Elem (asc ''div'') [] [Elem (asc ''div'') [] l, Elem (asc ''div'') [] c]"
| "blockRowOf (Unlabelled c) = Elem (asc ''div'') [] [Elem (asc ''div'') [] c]"

definition blockEncoding :: "lrow list \<Rightarrow> node" where
  "blockEncoding rows =
     Elem (asc ''div'') [(asc ''class'', asc ''experience-element'')] (map blockRowOf rows)"

fun tableRowOf :: "lrow \<Rightarrow> node" where
  "tableRowOf (Labelled l c) =
     Elem (asc ''tr'') [] [Elem (asc ''td'') [] l, Elem (asc ''td'') [] c]"
| "tableRowOf (Unlabelled c) =
     Elem (asc ''tr'') [] [Elem (asc ''td'') [(asc ''colspan'', asc ''2'')] c]"

definition tableEncoding :: "lrow list \<Rightarrow> node" where
  "tableEncoding rows =
     Elem (asc ''table'') [] [Elem (asc ''tbody'') [] (headerRow # map tableRowOf rows)]"

section \<open>Notions of the specification\<close>

text \<open>The number of the components of a list whose lower-cased element name is \<open>n\<close>: the
  value of the running counter of \<open>n\<close> after the list.\<close>

definition occurrences :: "platform \<Rightarrow> (node \<Rightarrow> ustring option) \<Rightarrow> ustring \<Rightarrow> node list \<Rightarrow> nat" where
  "occurrences P getName n blocks =
     length (filter (\<lambda>b. case getName b of
                            Some e \<Rightarrow> e \<noteq> [] \<and> toLowerCase P e = n
                          | None \<Rightarrow> False) blocks)"

text \<open>The element name that a component with text rows declares: the value of its
  first row labelled \<open>element-name\<close>.\<close>

definition firstName :: "(ustring \<times> ustring) list \<Rightarrow> ustring option" where
  "firstName rows =
     map_option (\<lambda>r. trim (snd r)) (find (\<lambda>r. trim (fst r) = asc ''element-name'') rows)"

text \<open>
  The row of the abstract document model for a component with text rows: a label and a
  value, classified in the order of the specification (element name, style variable,
  reference-only, markup in the serialized value, plain attribute). \<open>resolve\<close> stands for
  the reference resolver of the pipeline. The rows of both encodings are compared with it.
\<close>

definition convertTextRow :: "platform \<Rightarrow> ((node \<Rightarrow> node) \<Rightarrow> ustring list \<Rightarrow> error + node list)
    \<Rightarrow> ustring \<times> ustring \<Rightarrow> node \<times> (ustring \<times> ustring) list
    \<Rightarrow> error + node \<times> (ustring \<times> ustring) list" where
  "convertTextRow P resolve r st =
     (let label = trim (fst r);
          text = trim (snd r);
          html = trim (innerHTML P (textNodes (snd r)));
          refs = parseReferences text
      in if label = asc ''element-name'' then Inr st
         else if startsWith (asc ''style-'') label then
           Inr (fst st, setKey (asc ''--'' @ drop 6 label) text (snd st))
         else if refs \<noteq> [] \<and> isReferenceOnly text then
           (case resolve (slotUnlessChildren (Some label)) refs of
              Inl e \<Rightarrow> Inl e
            | Inr nodes \<Rightarrow> Inr (appendAll (fst st) nodes, snd st))
         else if html \<noteq> text then
           Inr (appendAll (fst st) [slotIfNamed (Some label) (spanWrapper P html)], snd st)
         else if label \<noteq> [] then
           (case setAttribute P (if label = asc ''attr-type'' then asc ''type'' else label)
                   text (fst st) of
              Inl e \<Rightarrow> Inl e
            | Inr element' \<Rightarrow> Inr (element', snd st))
         else Inr st)"

text \<open>A serializer escapes the text of a text node: its output holds no \<open><\<close>.\<close>

definition escapes :: "platform \<Rightarrow> bool" where
  "escapes P = (\<forall>s. 60 \<notin> set (innerHTML P (textNodes s)))"

text \<open>The conversion of a component of the abstract document model, given by its text
  rows; \<open>Inr None\<close> when it declares no element name.\<close>

definition convertComponent :: "platform \<Rightarrow> ((node \<Rightarrow> node) \<Rightarrow> ustring list \<Rightarrow> error + node list)
    \<Rightarrow> (ustring \<times> ustring) list \<Rightarrow> error + node option" where
  "convertComponent P resolve rows =
     (case firstName rows of
        None \<Rightarrow> Inr None
      | Some elementName \<Rightarrow>
          if elementName = [] then Inr None
          else (let tagName = toLowerCase P elementName
                in case parseTag P tagName of
                     None \<Rightarrow>
                       (case createElement P tagName of
                          Inl e \<Rightarrow> Inl e
                        | Inr element \<Rightarrow> Inr (Some element))
                   | Some (t, as, cs) \<Rightarrow>
                       (case convertRows (convertTextRow P resolve) rows (Elem t as cs, []) of
                          Inl e \<Rightarrow> Inl e
                        | Inr (element', styleVars) \<Rightarrow>
                            Inr (Some (applyStyle styleVars element')))))"

text \<open>The element name that a component declares: the value of its first row labelled
  \<open>element-name\<close>.\<close>

fun declaredName :: "lrow list \<Rightarrow> ustring option" where
  "declaredName [] = None"
| "declaredName (Labelled l c # rows) =
     (if trim (concat (map textContent l)) = asc ''element-name''
      then Some (trim (concat (map textContent c))) else declaredName rows)"
| "declaredName (Unlabelled c # rows) = declaredName rows"

text \<open>A cell that holds no table row and no table cell, at any depth.\<close>

definition plainCell :: "node list \<Rightarrow> bool" where
  "plainCell ns = list_all (\<lambda>d. tagOf d \<noteq> asc ''tr'' \<and> tagOf d \<noteq> asc ''td'')
                    (descendants (Elem (asc ''div'') [] ns))"

fun plainRow :: "lrow \<Rightarrow> bool" where
  "plainRow (Labelled l c) = (plainCell l \<and> plainCell c)"
| "plainRow (Unlabelled c) = plainCell c"

text \<open>
  The rows on which the two pipelines are compared. No cell holds a table row or cell.
  A row with a label has no \<open>strong\<close> element in the label, and it is an \<open>element-name\<close>
  row, a style row, a reference-only row, or a row whose value
  \<^item> holds a slotted element and does not serialize to its own text, or
  \<^item> holds no slotted element and either serializes to its own text, or is no wrapper of
    a plain paragraph, holds no nested block and shows no block-level tag in its
    serialization.
  A row of a single cell does not read \<open>experience-element\<close>, is not reference-only and,
  when it holds a slotted element, has no paragraph as its only element child.
\<close>

fun agreeingRow :: "platform \<Rightarrow> lrow \<Rightarrow> bool" where
  "agreeingRow P (Labelled l c) =
     (let key = trim (concat (map textContent l));
          text = trim (concat (map textContent c));
          html = trim (innerHTML P c);
          cell = Elem (asc ''div'') [] c
      in plainCell l \<and> plainCell c
         \<and> querySelector (asc ''strong'') (Elem (asc ''div'') [] l) = None
         \<and> (key = asc ''element-name'' \<or> startsWith (asc ''style-'') key
            \<or> (parseReferences text \<noteq> [] \<and> isReferenceOnly text)
            \<or> (if hasSlotted cell then html \<noteq> text
                else html = text
                     \<or> (\<not> isSimplePWrapper cell \<and> findNestedBlock cell = None
                         \<and> \<not> hasBlockElements html))))"
| "agreeingRow P (Unlabelled c) =
     (let text = trim (concat (map textContent c));
          cell = Elem (asc ''div'') [] c
      in plainCell c
         \<and> text \<noteq> asc ''experience-element''
         \<and> \<not> (parseReferences text \<noteq> [] \<and> isReferenceOnly text)
         \<and> (hasSlotted cell \<longrightarrow> unwrapSingleP cell = c))"

text \<open>Two indexes that hold the same named components, with rows as above, under the same
  identifiers, one as blocks and one as tables.\<close>

definition sameIndex :: "platform \<Rightarrow> (ustring \<rightharpoonup> node) \<Rightarrow> (ustring \<rightharpoonup> node) \<Rightarrow> bool" where
  "sameIndex P bm tm =
     (\<forall>k. (bm k = None \<and> tm k = None)
          \<or> (\<exists>rows. truthy (declaredName rows) \<and> list_all (agreeingRow P) rows
                \<and> bm k = Some (blockEncoding rows) \<and> tm k = Some (tableEncoding rows)))"

text \<open>The style rows of a block, in document order: for each row whose label starts with
  \<open>style-\<close>, the custom property it names and the trimmed text of its content. They are
  merged from top to bottom into a table in which a name keeps the place of its first row
  and the value of its last row.\<close>

definition styleRow :: "node \<Rightarrow> (ustring \<times> ustring) option" where
  "styleRow row =
     (case parseBlockRow row of
        None \<Rightarrow> None
      | Some parsed \<Rightarrow>
          (case slotName parsed of
             None \<Rightarrow> None
           | Some s \<Rightarrow>
               if startsWith (asc ''style-'') s
               then Some (asc ''--'' @ drop 6 s, trim (textContent (content parsed)))
               else None))"

definition styleRows :: "node \<Rightarrow> (ustring \<times> ustring) list" where
  "styleRows blockDiv = List.map_filter styleRow (divChildren blockDiv)"

definition mergeStyle :: "(ustring \<times> ustring) list \<Rightarrow> (ustring \<times> ustring) list
    \<Rightarrow> (ustring \<times> ustring) list" where
  "mergeStyle styleVars pairs = foldl (\<lambda>sv p. setKey (fst p) (snd p) sv) styleVars pairs"

text \<open>The distinct members of a list in the order of their first occurrence.\<close>

definition firstSeen :: "'a list \<Rightarrow> 'a list" where
  "firstSeen ks = rev (remdups (rev ks))"

section \<open>Example documents\<close>

text \<open>A document without components.\<close>

definition plainBody :: node where
  "plainBody = Elem (asc ''body'') []
     [Elem (asc ''header'') [] [],
      Elem (asc ''main'') []
        [Elem (asc ''p'') [] [Text (asc ''hello'')],
         Elem (asc ''div'') [(asc ''class'', asc ''note'')] [Text (asc ''x'')]]]"

text \<open>Blocks with text rows: a media component, a card that refers to it, a block
  without a name, and a card that refers to itself.\<close>

definition mediaBlock :: node where
  "mediaBlock = blockOf [(asc ''element-name'', asc ''ee-media''), (asc ''src'', asc ''a.png'')]"

definition cardBlock :: node where
  "cardBlock = blockOf [(asc ''element-name'', asc ''paywall-card''),
                        (asc ''media'', arrow # asc '' ee-media-1'')]"

definition namelessBlock :: node where
  "namelessBlock = blockOf [(asc ''title'', asc ''Hello'')]"

definition selfRefBlock :: node where
  "selfRefBlock = blockOf [(asc ''element-name'', asc ''x-card''),
                           (asc ''children'', arrow # asc '' x-card-1'')]"

text \<open>The rows of the media component and of the card.\<close>

definition mediaRows :: "(ustring \<times> ustring) list" where
  "mediaRows = [(asc ''element-name'', asc ''ee-media''), (asc ''src'', asc ''a.png'')]"

definition cardRows :: "(ustring \<times> ustring) list" where
  "cardRows = [(asc ''element-name'', asc ''paywall-card''), (asc ''media'', arrow # asc '' ee-media-1'')]"

text \<open>A card with three style rows, two of them for the same variable, and a card with a
  plain row labelled \<open>style\<close>.\<close>

definition styledBlock :: node where
  "styledBlock = blockOf [(asc ''element-name'', asc ''x-card''),
                          (asc ''style-color'', asc ''red''),
                          (asc ''style-bg'', asc ''#fff''),
                          (asc ''style-color'', asc ''blue'')]"

definition plainStyleBlock :: node where
  "plainStyleBlock = blockOf [(asc ''element-name'', asc ''x-card''),
                              (asc ''style'', asc ''color: red'')]"

text \<open>A card with a style row whose value is a reference token, and a labelled row with
  two reference tokens.\<close>

definition styleRefBlock :: node where
  "styleRefBlock = blockOf [(asc ''element-name'', asc ''x-card''),
                            (asc ''style-x'', arrow # asc '' zz-9'')]"

definition twoRefsRow :: node where
  "twoRefsRow = blockRow (asc ''media'', arrow # asc '' ee-media-1, '' @ arrow # asc '' zz-9'')"

text \<open>Rows of a single cell: a paragraph of plain text, and a paragraph with markup
  inside.\<close>

definition plainParagraphRow :: node where
  "plainParagraphRow = Elem (asc ''div'') []
     [Elem (asc ''div'') [] [Elem (asc ''p'') [] [Text (asc ''Hello'')]]]"

definition richParagraphRow :: node where
  "richParagraphRow = Elem (asc ''div'') []
     [Elem (asc ''div'') []
        [Elem (asc ''p'') [] [Text (asc ''Hello ''), Elem (asc ''b'') [] [Text (asc ''x'')]]]]"

text \<open>Whole documents with their markup: the media block and the card that refers to it;
  the media block beside a table.\<close>

definition plainMarkup :: ustring where
  "plainMarkup =
     asc ''<body><header></header><main><p>hello</p><div class=note>x</div></main></body>''"

definition cardBody :: node where
  "cardBody = Elem (asc ''body'') []
     [Elem (asc ''header'') [] [], Elem (asc ''main'') [] [mediaBlock, cardBlock]]"

definition cardMarkup :: ustring where
  "cardMarkup =
     asc ''<body><header></header><main><div class=experience-element><div><div>element-name</div><div>ee-media</div></div><div><div>src</div><div>a.png</div></div></div><div class=experience-element><div><div>element-name</div><div>paywall-card</div></div><div><div>media</div><div>''
     @ arrow # asc '' ee-media-1</div></div></div></main></body>''"

text \<open>A block without a name followed by the media block.\<close>

definition namelessBody :: node where
  "namelessBody = Elem (asc ''body'') []
     [Elem (asc ''header'') [] [], Elem (asc ''main'') [] [namelessBlock, mediaBlock]]"

definition namelessMarkup :: ustring where
  "namelessMarkup =
     asc ''<body><header></header><main><div class=experience-element><div><div>title</div><div>Hello</div></div></div><div class=experience-element><div><div>element-name</div><div>ee-media</div></div><div><div>src</div><div>a.png</div></div></div></main></body>''"

definition titleRows :: "(ustring \<times> ustring) list" where
  "titleRows = [(asc ''element-name'', asc ''x-card''), (asc ''title'', asc ''Hi'')]"

definition mixedBody :: node where
  "mixedBody = Elem (asc ''body'') []
     [Elem (asc ''header'') [] [], Elem (asc ''main'') [] [mediaBlock, tableOf titleRows]]"

definition mixedMarkup :: ustring where
  "mixedMarkup =
     asc ''<body><header></header><main><div class=experience-element><div><div>element-name</div><div>ee-media</div></div><div><div>src</div><div>a.png</div></div></div><table><tbody><tr><td colspan=2>experience-element</td></tr><tr><td>element-name</td><td>x-card</td></tr><tr><td>title</td><td>Hi</td></tr></tbody></table></main></body>''"

section \<open>Example components in the two encodings\<close>

text \<open>
  A second host for the examples with markup in a value: as the content of a \<open>span\<close>, it
  parses the markup of a few fragments back into the nodes that they were serialized
  from, and is the first host otherwise.
\<close>

definition knownFragments :: "node list list" where
  "knownFragments =
     [[Text (asc ''Hello ''), Elem (asc ''em'') [] [Text (asc ''there'')]],
      [Elem (asc ''p'') [] [Text (asc ''Hello'')]],
      [Elem (asc ''p'') [] [Text (asc ''Hello ''), Elem (asc ''b'') [] [Text (asc ''x'')]]],
      [mediaBlock]]"

definition markupHost :: platform where
  "markupHost = (host (Text []))
     \<lparr>parseFragment := (\<lambda>s. case find (\<lambda>ns. concat (map serialize ns) = s) knownFragments of
                                Some ns \<Rightarrow> ns
                              | None \<Rightarrow> if s = [] then [] else [Text s])\<rparr>"

text \<open>The media component and a card with a reference to it, a value with inline
  markup, a value with a slotted element and a single cell with a paragraph.\<close>

definition mediaComponent :: "lrow list" where
  "mediaComponent = [Labelled [Text (asc ''element-name'')] [Text (asc ''ee-media'')],
                     Labelled [Text (asc ''src'')] [Text (asc ''a.png'')]]"

definition cardComponent :: "lrow list" where
  "cardComponent =
     [Labelled [Text (asc ''element-name'')] [Text (asc ''paywall-card'')],
      Labelled [Text (asc ''media'')] [Text (arrow # asc '' ee-media-1'')],
      Labelled [Text (asc ''title'')] [Text (asc ''Hello ''), Elem (asc ''em'') [] [Text (asc ''there'')]],
      Labelled [Text (asc ''badge'')] [Elem (asc ''span'') [(asc ''slot'', asc ''badge'')] [Text (asc ''New'')]],
      Unlabelled [Elem (asc ''p'') [] [Text (asc ''Body ''), Elem (asc ''b'') [] [Text (asc ''text'')]]]]"

text \<open>Components with one row beside the row of the name: a label set in bold; a value
  that is a plain paragraph; a paragraph with markup inside; a nested block; a table; a
  single cell with a reference token; a single cell that reads as the header of a table;
  a single cell with a paragraph around a slotted element. And a component without a
  name.\<close>

definition nameRow :: lrow where
  "nameRow = Labelled [Text (asc ''element-name'')] [Text (asc ''x-card'')]"

definition boldRows :: "lrow list" where
  "boldRows = [Labelled [Text (asc ''element-name'')] [Text (asc ''paywall-card'')],
               Labelled [Elem (asc ''strong'') [] [Text (asc ''plan-name'')]]
                        [Text (asc ''Firefly Standard'')]]"

definition paragraphRows :: "lrow list" where
  "paragraphRows = [nameRow, Labelled [Text (asc ''title'')] [Elem (asc ''p'') [] [Text (asc ''Hello'')]]]"

definition richRows :: "lrow list" where
  "richRows = [nameRow,
               Labelled [Text (asc ''body'')]
                 [Elem (asc ''p'') [] [Text (asc ''Hello ''), Elem (asc ''b'') [] [Text (asc ''x'')]]]]"

definition nestedRows :: "lrow list" where
  "nestedRows = [nameRow, Labelled [Text (asc ''media'')] [mediaBlock]]"

definition tableInCellRows :: "lrow list" where
  "tableInCellRows =
     [nameRow,
      Labelled [Text (asc ''data'')]
        [Elem (asc ''table'') [] [Elem (asc ''tbody'') []
           [Elem (asc ''tr'') [] [Elem (asc ''td'') [] [Text (asc ''x'')]]]]]]"

definition referenceRows :: "lrow list" where
  "referenceRows = [nameRow, Unlabelled [Text (arrow # asc '' ee-media-1'')]]"

definition markerRows :: "lrow list" where
  "markerRows = [nameRow, Unlabelled [Text (asc ''experience-element'')]]"

definition slottedParagraphRows :: "lrow list" where
  "slottedParagraphRows =
     [nameRow,
      Unlabelled [Elem (asc ''p'') [] [Elem (asc ''span'') [(asc ''slot'', asc ''icon'')] [Text (asc ''x'')]]]]"

definition namelessRows :: "lrow list" where
  "namelessRows = [Labelled [Text (asc ''title'')] [Text (asc ''Hello'')]]"

section \<open>Evaluating strings\<close>

lemmas string_eval = asc_def arrow_def isSpace_def isLetter_def isDigit_def isIdChar_def
  asciiLower_def trim_def

lemma asc_eq_iff [simp]: "asc a = asc b \<longleftrightarrow> a = b"
proof -
  have "inj (of_char :: char \<Rightarrow> nat)" by (rule injI) simp
  then show ?thesis by (simp add: asc_def inj_map_eq_map)
qed

lemma asc_empty_iff [simp]: "asc a = [] \<longleftrightarrow> a = []" "[] = asc a \<longleftrightarrow> a = []"
  by (auto simp: asc_def)

section \<open>Identifiers\<close>

text \<open>A counter prints as decimal digits, so an identifier splits at its last hyphen into
  the name and the counter.\<close>

lemma show_nat_digits: "d \<in> set (show_nat n) \<Longrightarrow> 48 \<le> d \<and> d \<le> 57"
proof (induction n arbitrary: d rule: show_nat.induct)
  case (1 n)
  show ?case
  proof (cases "n < 10")
    case True
    with 1(2) show ?thesis by (subst (asm) show_nat.simps) simp
  next
    case False
    have m: "n mod 10 < 10" by simp
    from 1(2) False have "d \<in> set (show_nat (n div 10)) \<or> d = 48 + n mod 10"
      by (subst (asm) show_nat.simps) auto
    then show ?thesis
    proof
      assume "d \<in> set (show_nat (n div 10))"
      with 1(1)[OF False] show ?thesis by blast
    next
      assume "d = 48 + n mod 10"
      with m show ?thesis by linarith
    qed
  qed
qed

lemma show_nat_val: "foldl (\<lambda>a d. 10 * a + (d - 48)) 0 (show_nat n) = n"
proof (induction n rule: show_nat.induct)
  case (1 n)
  show ?case
  proof (cases "n < 10")
    case True
    then show ?thesis by (subst show_nat.simps) simp
  next
    case False
    with 1 show ?thesis by (subst show_nat.simps) simp
  qed
qed

lemma show_nat_inj: "show_nat a = show_nat b \<Longrightarrow> a = b"
  by (metis show_nat_val)

lemma takeWhile_upto: "a \<notin> set ds \<Longrightarrow> takeWhile (\<lambda>c. c \<noteq> a) (ds @ a # r) = ds"
  by (induction ds) auto

lemma split_at_last_dash:
  assumes "xs @ 45 # ds = ys @ 45 # es" "(45::nat) \<notin> set ds" "45 \<notin> set es"
  shows "xs = ys \<and> ds = es"
proof -
  have "takeWhile (\<lambda>c. c \<noteq> 45) (rev (xs @ 45 # ds)) = rev ds"
    using assms(2) takeWhile_upto[of 45 "rev ds" "rev xs"] by simp
  moreover have "takeWhile (\<lambda>c. c \<noteq> 45) (rev (ys @ 45 # es)) = rev es"
    using assms(3) takeWhile_upto[of 45 "rev es" "rev ys"] by simp
  ultimately have "ds = es" using assms(1) by simp
  with assms(1) show ?thesis by simp
qed

lemma makeId_inj: "makeId n c = makeId n' c' \<Longrightarrow> n = n' \<and> c = c'"
proof -
  assume h: "makeId n c = makeId n' c'"
  have d: "(45::nat) \<notin> set (show_nat c)" "(45::nat) \<notin> set (show_nat c')"
    using show_nat_digits[of 45 c] show_nat_digits[of 45 c'] by fastforce+
  from h have "n @ 45 # show_nat c = n' @ 45 # show_nat c'"
    by (simp add: makeId_def asc_def)
  from split_at_last_dash[OF this d] show ?thesis using show_nat_inj by blast
qed

lemma assignIds_length: "length (assignIds P g c bs) = length bs"
  by (induction bs arbitrary: c) (auto simp: Let_def split: option.splits)

lemma assignIds_unnamed:
  "\<not> truthy (g b) \<Longrightarrow> assignIds P g c (b # bs) = None # assignIds P g c bs"
  by (cases "g b") (auto simp: truthy_def)

lemma assignIds_named:
  "g b = Some e \<Longrightarrow> e \<noteq> [] \<Longrightarrow>
   assignIds P g c (b # bs) =
     Some (makeId (toLowerCase P e) (c (toLowerCase P e) + 1))
     # assignIds P g (c(toLowerCase P e := c (toLowerCase P e) + 1)) bs"
  by (simp add: Let_def)

lemma occurrences_unnamed:
  "\<not> truthy (g b) \<Longrightarrow> occurrences P g n (b # bs) = occurrences P g n bs"
  by (cases "g b") (auto simp: truthy_def occurrences_def)

lemma occurrences_named:
  "g b = Some e \<Longrightarrow> e \<noteq> [] \<Longrightarrow>
   occurrences P g n (b # bs) = (if toLowerCase P e = n then 1 else 0) + occurrences P g n bs"
  by (simp add: occurrences_def)

lemma occurrences_Nil: "occurrences P g n [] = 0"
  by (simp add: occurrences_def)

lemma assignIds_nth:
  "i < length bs \<Longrightarrow>
   assignIds P g c bs ! i =
     (case g (bs ! i) of
        None \<Rightarrow> None
      | Some e \<Rightarrow> if e = [] then None
                  else Some (makeId (toLowerCase P e)
                         (c (toLowerCase P e) + occurrences P g (toLowerCase P e) (take (Suc i) bs))))"
proof (induction bs arbitrary: c i)
  case Nil
  then show ?case by simp
next
  case (Cons b bs)
  show ?case
  proof (cases "truthy (g b)")
    case False
    note nb = assignIds_unnamed[of g b, OF False] occurrences_unnamed[of g b, OF False]
    show ?thesis
    proof (cases i)
      case 0
      with False show ?thesis
        by (cases "g b") (auto simp: truthy_def)
    next
      case (Suc k)
      with Cons.prems have k: "k < length bs" by simp
      show ?thesis using Cons.IH[OF k, of c] Suc by (simp only: nb take_Suc_Cons nth_Cons_Suc)
    qed
  next
    case True
    then obtain e where e: "g b = Some e" "e \<noteq> []" by (cases "g b") (auto simp: truthy_def)
    note nb = assignIds_named[of g b, OF e] occurrences_named[of g b, OF e]
    show ?thesis
    proof (cases i)
      case 0
      then show ?thesis using e by (simp add: nb occurrences_Nil del: assignIds.simps)
    next
      case (Suc k)
      with Cons.prems have k: "k < length bs" by simp
      show ?thesis
        using Cons.IH[OF k, of "c(toLowerCase P e := c (toLowerCase P e) + 1)"] Suc
        by (simp only: nb take_Suc_Cons nth_Cons_Suc) (auto split: option.splits)
    qed
  qed
qed

lemma occurrences_append:
  "occurrences P g n (xs @ ys) = occurrences P g n xs + occurrences P g n ys"
  by (simp add: occurrences_def)

lemma occurrences_take_le:
  "i \<le> j \<Longrightarrow> occurrences P g n (take i bs) \<le> occurrences P g n (take j bs)"
proof -
  assume "i \<le> j"
  then have "take j bs = take i bs @ take (j - i) (drop i bs)"
    by (metis le_add_diff_inverse take_add)
  then show ?thesis by (simp add: occurrences_append)
qed

lemma occurrences_take_Suc:
  "j < length bs \<Longrightarrow> g (bs ! j) = Some e \<Longrightarrow> e \<noteq> [] \<Longrightarrow>
   occurrences P g (toLowerCase P e) (take (Suc j) bs)
     = Suc (occurrences P g (toLowerCase P e) (take j bs))"
  by (simp add: take_Suc_conv_app_nth occurrences_append) (simp add: occurrences_def)

lemma occurrences_strict:
  assumes "i < j" "j < length bs" "g (bs ! j) = Some e" "e \<noteq> []"
  shows "occurrences P g (toLowerCase P e) (take (Suc i) bs)
           < occurrences P g (toLowerCase P e) (take (Suc j) bs)"
proof -
  from assms(1) have "Suc i \<le> j" by simp
  from occurrences_take_le[OF this]
  have "occurrences P g (toLowerCase P e) (take (Suc i) bs)
          \<le> occurrences P g (toLowerCase P e) (take j bs)" .
  with occurrences_take_Suc[where g=g and bs=bs and j=j and e=e and P=P] assms(2,3,4)
  show ?thesis by simp
qed

lemma assignIds_Some:
  assumes "i < length bs" "assignIds P g c bs ! i = Some a"
  obtains e where "g (bs ! i) = Some e" "e \<noteq> []"
    "a = makeId (toLowerCase P e)
           (c (toLowerCase P e) + occurrences P g (toLowerCase P e) (take (Suc i) bs))"
  using assms assignIds_nth[OF assms(1), of P g c]
  by (auto split: option.splits if_splits)

lemma assignIds_distinct:
  assumes "i < j" "j < length bs"
    and "assignIds P g c bs ! i = Some a" "assignIds P g c bs ! j = Some b"
  shows "a \<noteq> b"
proof
  assume eq: "a = b"
  from assms(1,2) have i: "i < length bs" by simp
  from assignIds_Some[OF i assms(3)] obtain e where
    e: "g (bs ! i) = Some e" "e \<noteq> []"
      "a = makeId (toLowerCase P e)
             (c (toLowerCase P e) + occurrences P g (toLowerCase P e) (take (Suc i) bs))"
    by blast
  from assignIds_Some[OF assms(2) assms(4)] obtain e' where
    e': "g (bs ! j) = Some e'" "e' \<noteq> []"
      "b = makeId (toLowerCase P e')
             (c (toLowerCase P e') + occurrences P g (toLowerCase P e') (take (Suc j) bs))"
    by blast
  from eq e(3) e'(3) makeId_inj
  have n: "toLowerCase P e = toLowerCase P e'"
    and k: "c (toLowerCase P e) + occurrences P g (toLowerCase P e) (take (Suc i) bs)
          = c (toLowerCase P e') + occurrences P g (toLowerCase P e') (take (Suc j) bs)"
    by blast+
  from occurrences_strict[where g=g and bs=bs and i=i and j=j and e=e' and P=P] assms(1,2) e'(1,2) n k
  show False by simp
qed

text \<open>The index maps each identifier to the component it was assigned to.\<close>

lemma buildMap_unnamed:
  "\<not> truthy (g b) \<Longrightarrow> buildMap P g c m (b # bs) = buildMap P g c m bs"
  by (cases "g b") (auto simp: truthy_def)

lemma buildMap_named:
  "g b = Some e \<Longrightarrow> e \<noteq> [] \<Longrightarrow>
   buildMap P g c m (b # bs) =
     buildMap P g (c(toLowerCase P e := c (toLowerCase P e) + 1))
       (m(makeId (toLowerCase P e) (c (toLowerCase P e) + 1) \<mapsto> b)) bs"
  by (simp add: Let_def)

lemma buildMap_untouched:
  "(\<And>j. j < length bs \<Longrightarrow> assignIds P g c bs ! j \<noteq> Some k) \<Longrightarrow>
   buildMap P g c m bs k = m k"
proof (induction bs arbitrary: c m)
  case Nil
  then show ?case by simp
next
  case (Cons b bs)
  show ?case
  proof (cases "truthy (g b)")
    case False
    have "\<And>j. j < length bs \<Longrightarrow> assignIds P g c bs ! j \<noteq> Some k"
    proof -
      fix j assume "j < length bs"
      then have "Suc j < length (b # bs)" by simp
      from Cons.prems[OF this] show "assignIds P g c bs ! j \<noteq> Some k"
        by (simp add: assignIds_unnamed[of g b, OF False] del: assignIds.simps)
    qed
    from Cons.IH[OF this] show ?thesis
      by (simp add: buildMap_unnamed[of g b, OF False] del: buildMap.simps)
  next
    case True
    then obtain e where e: "g b = Some e" "e \<noteq> []" by (cases "g b") (auto simp: truthy_def)
    let ?n = "toLowerCase P e"
    let ?c = "c(?n := c ?n + 1)"
    have hd: "makeId ?n (c ?n + 1) \<noteq> k"
      using Cons.prems[of 0] by (simp add: assignIds_named[of g b, OF e] del: assignIds.simps)
    have "\<And>j. j < length bs \<Longrightarrow> assignIds P g ?c bs ! j \<noteq> Some k"
    proof -
      fix j assume "j < length bs"
      then have "Suc j < length (b # bs)" by simp
      from Cons.prems[OF this] show "assignIds P g ?c bs ! j \<noteq> Some k"
        by (simp add: assignIds_named[of g b, OF e] del: assignIds.simps)
    qed
    from Cons.IH[OF this]
    have "buildMap P g ?c (m(makeId ?n (c ?n + 1) \<mapsto> b)) bs k
            = (m(makeId ?n (c ?n + 1) \<mapsto> b)) k" .
    with hd have "buildMap P g ?c (m(makeId ?n (c ?n + 1) \<mapsto> b)) bs k = m k" by simp
    then show ?thesis
      by (simp only: buildMap_named[of g b, OF e])
  qed
qed

lemma buildMap_lookup:
  "i < length bs \<Longrightarrow> assignIds P g c bs ! i = Some k \<Longrightarrow>
   buildMap P g c m bs k = Some (bs ! i)"
proof (induction bs arbitrary: c m i)
  case Nil
  then show ?case by simp
next
  case (Cons b bs)
  show ?case
  proof (cases "truthy (g b)")
    case False
    from Cons.prems(2) obtain i' where i': "i = Suc i'"
      by (cases i) (simp_all add: assignIds_unnamed[of g b, OF False] del: assignIds.simps)
    with Cons.prems have "i' < length bs" "assignIds P g c bs ! i' = Some k"
      by (simp_all add: assignIds_unnamed[of g b, OF False] del: assignIds.simps)
    from Cons.IH[OF this] i' show ?thesis
      by (simp add: buildMap_unnamed[of g b, OF False] del: buildMap.simps)
  next
    case True
    then obtain e where e: "g b = Some e" "e \<noteq> []" by (cases "g b") (auto simp: truthy_def)
    let ?n = "toLowerCase P e"
    let ?c = "c(?n := c ?n + 1)"
    show ?thesis
    proof (cases i)
      case 0
      with Cons.prems(2) have k: "k = makeId ?n (c ?n + 1)"
        by (simp add: assignIds_named[of g b, OF e] del: assignIds.simps)
      have "\<And>j. j < length bs \<Longrightarrow> assignIds P g ?c bs ! j \<noteq> Some k"
      proof
        fix j assume j: "j < length bs" and eq: "assignIds P g ?c bs ! j = Some k"
        have "assignIds P g c (b # bs) ! Suc j = Some k"
          using eq by (simp add: assignIds_named[of g b, OF e] del: assignIds.simps)
        moreover have "assignIds P g c (b # bs) ! 0 = Some k"
          using Cons.prems(2) 0 by simp
        moreover have "0 < Suc j" "Suc j < length (b # bs)" using j by simp_all
        ultimately show False using assignIds_distinct by blast
      qed
      from buildMap_untouched[OF this] k 0 show ?thesis
        by (simp add: buildMap_named[of g b, OF e] del: buildMap.simps)
    next
      case (Suc i')
      with Cons.prems have "i' < length bs" "assignIds P g ?c bs ! i' = Some k"
        by (simp_all add: assignIds_named[of g b, OF e] del: assignIds.simps)
      from Cons.IH[OF this]
      have "buildMap P g ?c (m(makeId ?n (c ?n + 1) \<mapsto> b)) bs k = Some (bs ! i')" .
      with Suc show ?thesis
        by (simp only: buildMap_named[of g b, OF e] nth_Cons_Suc)
    qed
  qed
qed

lemma buildMap_range:
  "buildMap P g c m bs k = Some b \<Longrightarrow> m k = Some b \<or> (b \<in> set bs \<and> truthy (g b))"
proof (induction bs arbitrary: c m)
  case Nil
  then show ?case by simp
next
  case (Cons x bs)
  show ?case
  proof (cases "truthy (g x)")
    case False
    with Cons.prems have "buildMap P g c m bs k = Some b"
      by (simp add: buildMap_unnamed[of g x, OF False] del: buildMap.simps)
    from Cons.IH[OF this] show ?thesis by auto
  next
    case True
    then obtain e where e: "g x = Some e" "e \<noteq> []" by (cases "g x") (auto simp: truthy_def)
    from Cons.prems have
      "buildMap P g (c(toLowerCase P e := c (toLowerCase P e) + 1))
         (m(makeId (toLowerCase P e) (c (toLowerCase P e) + 1) \<mapsto> x)) bs k = Some b"
      by (simp add: buildMap_named[of g x, OF e] del: buildMap.simps)
    from Cons.IH[OF this] True show ?thesis by (auto split: if_splits)
  qed
qed

section \<open>Components with text rows\<close>

lemma concat_textContent_textNodes [simp]: "concat (map textContent (textNodes s)) = s"
  by (simp add: textNodes_def)

lemma concat_desc_textNodes [simp]:
  "concat (map (\<lambda>c. if isElem c then f c else []) (textNodes s)) = []"
  by (simp add: textNodes_def)

lemma filter_isElem_textNodes [simp]: "filter isElem (textNodes s) = []"
  by (simp add: textNodes_def)

lemma textContent_textNodes [simp]: "textContent (Elem t as (textNodes s)) = s"
  by (simp add: textNodes_def)

lemma tag_neqs [simp]:
  "asc ''tr'' \<noteq> asc ''td''" "asc ''td'' \<noteq> asc ''tr''"
  "asc ''tbody'' \<noteq> asc ''tr''" "asc ''tbody'' \<noteq> asc ''td''"
  "asc ''table'' \<noteq> asc ''tr''" "asc ''table'' \<noteq> asc ''td''"
  "asc ''div'' \<noteq> asc ''tr''"  "asc ''div'' \<noteq> asc ''td''"
  by (simp_all add: asc_def)

lemma children_textNodes [simp]: "children (Elem t as (textNodes s)) = []"
  by (simp add: children_def textNodes_def)

lemma desc_textNodes [simp]: "desc a (Elem t as (textNodes s)) = []"
  by (simp add: textNodes_def)

lemma divChildren_blockOf [simp]: "divChildren (blockOf rows) = map blockRow rows"
  by (simp add: divChildren_def children_def blockOf_def blockRow_def)

lemma divChildren_blockRow [simp]:
  "divChildren (blockRow r) = [Elem (asc ''div'') [] (textNodes (fst r)), Elem (asc ''div'') [] (textNodes (snd r))]"
  by (simp add: divChildren_def children_def blockRow_def)

lemma className_blockOf [simp]: "className (blockOf rows) = asc ''experience-element''"
  by (simp add: className_def getAttribute_def blockOf_def)

lemma split_ws_marker [simp]: "split_ws (asc ''experience-element'') = [asc ''experience-element'']"
  by (simp add: asc_def isSpace_def)

lemma firstElementName_cells:
  "firstElementName (map (\<lambda>r. [Elem ta aa (textNodes (fst r)), Elem tb ab (textNodes (snd r))]) rows)
     = firstName rows"
  by (induction rows) (simp_all add: firstName_def)

lemma getElementName_blockOf: "getElementName (blockOf rows) = firstName rows"
proof -
  have "map divChildren (map blockRow rows)
        = map (\<lambda>r. [Elem (asc ''div'') [] (textNodes (fst r)), Elem (asc ''div'') [] (textNodes (snd r))]) rows"
    by simp
  then have f: "firstElementName (map divChildren (divChildren (blockOf rows))) = firstName rows"
    by (simp only: divChildren_blockOf firstElementName_cells)
  show ?thesis
    by (cases "firstName rows") (simp_all add: getElementName_def f del: divChildren_blockOf map_map)
qed

lemma desc_tableRow [simp]:
  "desc a (tableRow r) = [(a, Elem (asc ''td'') [] (textNodes (fst r))), (a, Elem (asc ''td'') [] (textNodes (snd r)))]"
  by (simp add: tableRow_def)

lemma desc_headerRow [simp]:
  "desc a headerRow = [(a, Elem (asc ''td'') [(asc ''colspan'', asc ''2'')] [Text (asc ''experience-element'')])]"
  by (simp add: headerRow_def)

lemma tagOf_rows [simp]: "tagOf (tableRow r) = asc ''tr''" "tagOf headerRow = asc ''tr''"
  "isElem (tableRow r)" "isElem headerRow"
  by (simp_all add: tableRow_def headerRow_def)

lemma trs_rows:
  "filter (\<lambda>d. tagOf d = asc ''tr'')
     (map snd (concat (map (\<lambda>c. if isElem c then (a, c) # desc (a \<or> tagOf c = asc ''tr'') c else []) (map tableRow rows))))
   = map tableRow rows"
  by (induction rows) simp_all

lemma queryAll_tr_tableOf: "queryAll (asc ''tr'') (tableOf rows) = headerRow # map tableRow rows"
  using trs_rows[of False rows]
  by (simp add: queryAll_def descendants_def tableOf_def)

lemma queryAll_td_tableRow [simp]:
  "queryAll (asc ''td'') (tableRow r) = [Elem (asc ''td'') [] (textNodes (fst r)), Elem (asc ''td'') [] (textNodes (snd r))]"
  by (simp add: queryAll_def descendants_def)

lemma queryAll_td_headerRow [simp]:
  "queryAll (asc ''td'') headerRow = [Elem (asc ''td'') [(asc ''colspan'', asc ''2'')] [Text (asc ''experience-element'')]]"
  by (simp add: queryAll_def descendants_def)

lemma getElementNameFromTable_tableOf: "getElementNameFromTable (tableOf rows) = firstName rows"
proof -
  have "map (queryAll (asc ''td'')) (map tableRow rows)
        = map (\<lambda>r. [Elem (asc ''td'') [] (textNodes (fst r)), Elem (asc ''td'') [] (textNodes (snd r))]) rows"
    by simp
  then show ?thesis
    by (simp only: getElementNameFromTable_def queryAll_tr_tableOf list.map firstElementName.simps
          queryAll_td_headerRow firstElementName_cells list.case)
qed

section \<open>The rows of the two encodings\<close>

lemma parseBlockRow_blockRow:
  "parseBlockRow (blockRow r) =
     Some \<lparr>slotName = Some (trim (fst r)), content = Elem (asc ''div'') [] (textNodes (snd r)), isSlot = False\<rparr>"
  by (simp add: parseBlockRow_def querySelector_def descendants_def)

lemma no_lt_no_block: "60 \<notin> set s \<Longrightarrow> \<not> hasBlockElements s"
  by (induction s) auto

lemma set_trim: "set (trim s) \<subseteq> set s"
proof -
  have "set (dropWhile isSpace (rev (dropWhile isSpace s))) \<subseteq> set (rev (dropWhile isSpace s))"
    by (rule set_dropWhileD[THEN subsetI])
  also have "\<dots> \<subseteq> set s" using set_dropWhileD[of _ isSpace s] by auto
  finally show ?thesis by (simp add: trim_def)
qed

lemma cell_facts [simp]:
  "\<not> hasSlotted (Elem t as (textNodes s))"
  "\<not> isSimplePWrapper (Elem t as (textNodes s))"
  "findNestedBlock (Elem t as (textNodes s)) = None"
  "childNodes (Elem t as (textNodes s)) = textNodes s"
  by (simp_all add: hasSlotted_def descendants_def isSimplePWrapper_def findNestedBlock_def)

lemma convertContent_cell:
  assumes "escapes P"
    and "\<not> (parseReferences (trim s) \<noteq> [] \<and> isReferenceOnly (trim s))"
  shows "convertContent P rec m (Elem t as (textNodes s)) slot
           = Inr [slotIfNamed slot (spanWrapper P (trim (innerHTML P (textNodes s))))]"
proof -
  from assms(1) have "60 \<notin> set (trim (innerHTML P (textNodes s)))"
    using set_trim[of "innerHTML P (textNodes s)"] by (auto simp: escapes_def)
  then have b: "\<not> hasBlockElements (trim (innerHTML P (textNodes s)))" by (rule no_lt_no_block)
  from assms(2)
  have f: "(parseReferences (trim s) \<noteq> [] \<and> isReferenceOnly (trim s)) = False" by simp
  show ?thesis by (simp add: convertContent_def Let_def b f)
qed

lemma convertRow_blockRow:
  assumes "escapes P"
  shows "convertRow P rec m (blockRow r) st = convertTextRow P (resolveRefs rec m) r st"
proof (cases "parseReferences (trim (snd r)) \<noteq> [] \<and> isReferenceOnly (trim (snd r))")
  case True
  then show ?thesis
    by (simp add: convertRow_def convertTextRow_def parseBlockRow_blockRow Let_def)
next
  case False
  note cc = convertContent_cell[OF assms False]
  from False
  have f: "(parseReferences (trim (snd r)) \<noteq> [] \<and> isReferenceOnly (trim (snd r))) = False" by simp
  show ?thesis
    by (simp add: convertRow_def convertTextRow_def parseBlockRow_blockRow Let_def cc slotIfNamed_def f)
qed

lemma convertRow_blockRow_fun:
  "escapes P \<Longrightarrow> convertRow P rec m (blockRow r) = convertTextRow P (resolveRefs rec m) r"
  by (rule ext) (rule convertRow_blockRow)

lemma convertTableRow_tableRow:
  "convertTableRow P rec m (tableRow r) st = convertTextRow P (resolveTableRefs rec m) r st"
  by (simp add: convertTableRow_def convertTextRow_def Let_def)

lemma convertTableRow_tableRow_fun:
  "convertTableRow P rec m (tableRow r) = convertTextRow P (resolveTableRefs rec m) r"
  by (rule ext) (rule convertTableRow_tableRow)

lemma trim_marker: "trim (asc ''experience-element'') = asc ''experience-element''"
  by (simp add: string_eval)

lemma convertTableRow_headerRow: "convertTableRow P rec m headerRow st = Inr st"
  by (simp add: convertTableRow_def getAttribute_def trim_marker)

lemma convertRows_map: "convertRows step (map f rows) st = convertRows (\<lambda>r. step (f r)) rows st"
  by (induction rows arbitrary: st) (auto split: sum.splits)

section \<open>The two pipelines on components with text rows\<close>

lemma convertRows_cong:
  "(\<And>r st. r \<in> set rows \<Longrightarrow> step r st = step' r st) \<Longrightarrow> convertRows step rows st = convertRows step' rows st"
  by (induction rows arbitrary: st) (auto split: sum.splits)

lemma classes_blockOf:
  "filter (\<lambda>c. c \<noteq> []) (split_ws (className (blockOf rows))) = [asc ''experience-element'']"
proof -
  have "asc ''experience-element'' \<noteq> []" by (simp add: asc_def)
  then show ?thesis by simp
qed

lemma convertBlock_blockOf:
  assumes "escapes P"
  shows "convertBlock (Suc f) P bm (blockOf rows) =
     (case convertComponent P (resolveRefs (convertBlock f P bm) bm) rows of
        Inl e \<Rightarrow> Inl e
      | Inr None \<Rightarrow> Inr (blockOf rows)
      | Inr (Some el) \<Rightarrow> Inr el)"
proof -
  have rows: "convertRows (convertRow P (convertBlock f P bm) bm) (divChildren (blockOf rows)) st
            = convertRows (convertTextRow P (resolveRefs (convertBlock f P bm) bm)) rows st" for st
    by (simp add: convertRows_map convertRow_blockRow_fun[OF assms])
  have marker: "find isCustomElementClass [asc ''experience-element''] = Some (asc ''experience-element'')"
    by (simp add: isCustomElementClass_def)
  show ?thesis
    by (simp only: convertBlock.simps Let_def classes_blockOf marker option.case rows
          getElementName_blockOf convertComponent_def)
       (auto simp: createElement_def split: option.splits sum.splits)
qed

lemma convertTable_tableOf:
  "convertTable (Suc f) P tm (tableOf rows) =
     convertComponent P (resolveTableRefs (convertTable f P tm) tm) rows"
proof -
  have rows: "convertRows (convertTableRow P (convertTable f P tm) tm) (queryAll (asc ''tr'') (tableOf rows)) st
            = convertRows (convertTextRow P (resolveTableRefs (convertTable f P tm) tm)) rows st" for st
    by (simp add: queryAll_tr_tableOf convertTableRow_headerRow convertRows_map convertTableRow_tableRow_fun)
  show ?thesis
    by (simp only: convertTable.simps Let_def rows getElementNameFromTable_tableOf convertComponent_def)
qed
section \<open>Style variables\<close>

lemma convertRow_style:
  assumes "convertRow P rec m row (el, sv) = Inr (el', sv')"
  shows "sv' = (case styleRow row of Some p \<Rightarrow> setKey (fst p) (snd p) sv | None \<Rightarrow> sv)"
proof (cases "parseBlockRow row")
  case None
  with assms show ?thesis by (simp add: convertRow_def styleRow_def)
next
  case (Some parsed)
  show ?thesis
  proof (cases "slotName parsed")
    case None
    with Some assms show ?thesis
      by (auto simp: convertRow_def styleRow_def Let_def split: if_splits sum.splits)
  next
    case (Some s)
    note s = this
    show ?thesis
    proof (cases "s = asc ''element-name''")
      case True
      then have "\<not> startsWith (asc ''style-'') s" by (simp add: startsWith_def string_eval)
      with True s \<open>parseBlockRow row = Some parsed\<close> assms show ?thesis
        by (simp add: convertRow_def styleRow_def Let_def)
    next
      case False
      with s \<open>parseBlockRow row = Some parsed\<close> assms show ?thesis
        by (auto simp: convertRow_def styleRow_def Let_def setAttribute_def split: if_splits sum.splits)
    qed
  qed
qed

lemma convertRow_isElem:
  assumes "convertRow P rec m row (el, sv) = Inr (el', sv')" "isElem el"
  shows "isElem el'"
proof -
  obtain t as cs where el: "el = Elem t as cs" using assms(2) by (cases el) auto
  from assms(1) show ?thesis
    unfolding el
    by (auto simp: convertRow_def Let_def setAttribute_def split: option.splits if_splits sum.splits)
qed

lemma convertRows_style:
  "convertRows (convertRow P rec m) rows (el, sv) = Inr (el', sv') \<Longrightarrow> isElem el \<Longrightarrow>
   sv' = mergeStyle sv (List.map_filter styleRow rows) \<and> isElem el'"
proof (induction rows arbitrary: el sv)
  case Nil
  then show ?case by (simp add: mergeStyle_def List.map_filter_simps)
next
  case (Cons row rows)
  from Cons.prems(1) obtain el1 sv1 where
    step: "convertRow P rec m row (el, sv) = Inr (el1, sv1)"
    and rest: "convertRows (convertRow P rec m) rows (el1, sv1) = Inr (el', sv')"
    by (auto split: sum.splits)
  from convertRow_isElem[OF step Cons.prems(2)] have e1: "isElem el1" .
  from Cons.IH[OF rest e1] convertRow_style[OF step] show ?case
    by (cases "styleRow row") (simp_all add: mergeStyle_def List.map_filter_simps)
qed

lemma map_of_setKey: "map_of (setKey k v sv) = (map_of sv)(k \<mapsto> v)"
  by (induction sv) (auto simp: fun_eq_iff)

lemma keys_setKey:
  "map fst (setKey k v sv) = (if k \<in> fst ` set sv then map fst sv else map fst sv @ [k])"
  by (induction sv) force+

lemma remdups_drop: "k \<in> set B \<Longrightarrow> remdups (A @ k # B) = remdups (A @ B)"
  by (induction A) auto

lemma mergeStyle_keys:
  "distinct (map fst sv) \<Longrightarrow>
   map fst (mergeStyle sv ps) = firstSeen (map fst sv @ map fst ps)"
proof (induction ps arbitrary: sv)
  case Nil
  then have "rev (remdups (rev (map fst sv))) = map fst sv"
    by (metis distinct_remdups_id distinct_rev rev_rev_ident)
  then show ?case by (simp add: mergeStyle_def firstSeen_def del: rev_map)
next
  case (Cons p ps)
  let ?sv = "setKey (fst p) (snd p) sv"
  have d: "distinct (map fst ?sv)" using Cons.prems by (auto simp: keys_setKey)
  have "firstSeen (map fst ?sv @ map fst ps) = firstSeen (map fst sv @ map fst (p # ps))"
  proof (cases "fst p \<in> fst ` set sv")
    case True
    then have "fst p \<in> set (rev (map fst sv))" by simp
    from remdups_drop[OF this, of "rev (map fst ps)"] True show ?thesis
      by (simp add: firstSeen_def keys_setKey)
  next
    case False
    then show ?thesis by (simp add: firstSeen_def keys_setKey)
  qed
  with Cons.IH[OF d] show ?case by (simp add: mergeStyle_def)
qed

lemma mergeStyle_map_of:
  "map_of (mergeStyle sv ps) = map_of (rev ps @ sv)"
proof (induction ps arbitrary: sv)
  case Nil
  show ?case by (simp add: mergeStyle_def)
next
  case (Cons p ps)
  have "map_of (mergeStyle (setKey (fst p) (snd p) sv) ps) = map_of (rev ps @ setKey (fst p) (snd p) sv)"
    by (rule Cons.IH)
  then show ?case
    by (simp add: mergeStyle_def map_of_setKey map_add_def fun_eq_iff split: option.splits)
qed

lemma getAttribute_setAttr: "isElem el \<Longrightarrow> getAttribute (setAttr k v el) k = Some v"
  by (cases el) (simp_all add: getAttribute_def map_of_setKey)

lemma setVariants_isElem: "setVariants P cs el = Inr el' \<Longrightarrow> isElem el \<Longrightarrow> isElem el'"
proof (induction cs arbitrary: el)
  case Nil
  then show ?case by simp
next
  case (Cons c cs)
  from Cons.prems obtain t as ks where "el = Elem t as ks" by (cases el) auto
  with Cons show ?case
    by (auto simp: setAttribute_def split: sum.splits if_splits)
qed

lemma setKey_nonempty: "setKey k v sv \<noteq> []"
  by (cases sv) (auto split: if_splits)

lemma mergeStyle_nonempty: "sv \<noteq> [] \<Longrightarrow> mergeStyle sv ps \<noteq> []"
  by (induction ps arbitrary: sv) (simp_all add: mergeStyle_def setKey_nonempty)

lemma mergeStyle_empty_iff: "mergeStyle [] ps = [] \<longleftrightarrow> ps = []"
proof (cases ps)
  case Nil
  then show ?thesis by (simp add: mergeStyle_def)
next
  case (Cons p ps')
  have "mergeStyle [] (p # ps') = mergeStyle (setKey (fst p) (snd p) []) ps'"
    by (simp add: mergeStyle_def)
  with mergeStyle_nonempty[of "setKey (fst p) (snd p) []" ps'] Cons show ?thesis by simp
qed

text \<open>The attributes of the element under construction: a row or a class token adds at
  most the attribute it names, in lower case.\<close>

lemma getAttribute_setAttr_other:
  "getAttribute (setAttr a v el) k \<noteq> None \<Longrightarrow> k = a \<or> getAttribute el k \<noteq> None"
  by (cases el) (auto simp: getAttribute_def map_of_setKey split: if_splits)

lemma getAttribute_appendAll [simp]: "getAttribute (appendAll el ns) k = getAttribute el k"
  by (cases el) (simp_all add: getAttribute_def)

lemma setAttribute_sets:
  "setAttribute P a v el = Inr el' \<Longrightarrow> getAttribute el' k \<noteq> None \<Longrightarrow>
   k = asciiLower a \<or> getAttribute el k \<noteq> None"
  using getAttribute_setAttr_other[of "asciiLower a" v el k]
  by (auto simp: setAttribute_def split: if_splits)

lemma convertRow_keeps_attributes:
  assumes "convertRow P rec m row (el, sv) = Inr (el', sv')"
    and "getAttribute el' k \<noteq> None"
  shows "getAttribute el k \<noteq> None
       \<or> (\<exists>parsed s. parseBlockRow row = Some parsed \<and> slotName parsed = Some s
             \<and> asciiLower (if s = asc ''attr-type'' then asc ''type'' else s) = k)"
proof (cases "parseBlockRow row")
  case None
  with assms show ?thesis by (simp add: convertRow_def)
next
  case (Some parsed)
  show ?thesis
  proof (cases "slotName parsed")
    case None
    with Some assms show ?thesis
      by (auto simp: convertRow_def Let_def split: if_splits sum.splits)
  next
    case s: (Some s)
    from assms(1) consider (same) "\<And>k. getAttribute el' k = getAttribute el k"
      | (attr) "setAttribute P (if s = asc ''attr-type'' then asc ''type'' else s)
                  (trim (textContent (content parsed))) el = Inr el'"
      by (auto simp: convertRow_def Some s Let_def split: if_splits sum.splits)
    then show ?thesis
    proof cases
      case same
      with assms(2) show ?thesis by simp
    next
      case attr
      from setAttribute_sets[OF attr assms(2)] Some s show ?thesis by blast
    qed
  qed
qed

lemma convertRows_keep_attributes:
  "convertRows (convertRow P rec m) rows (el, sv) = Inr (el', sv') \<Longrightarrow>
   getAttribute el' k \<noteq> None \<Longrightarrow>
   getAttribute el k \<noteq> None
   \<or> (\<exists>row \<in> set rows. \<exists>parsed s. parseBlockRow row = Some parsed \<and> slotName parsed = Some s
             \<and> asciiLower (if s = asc ''attr-type'' then asc ''type'' else s) = k)"
proof (induction rows arbitrary: el sv)
  case Nil
  then show ?case by simp
next
  case (Cons row rows)
  from Cons.prems(1) obtain el1 sv1 where
    step: "convertRow P rec m row (el, sv) = Inr (el1, sv1)"
    and rest: "convertRows (convertRow P rec m) rows (el1, sv1) = Inr (el', sv')"
    by (auto split: sum.splits)
  from Cons.IH[OF rest Cons.prems(2)] convertRow_keeps_attributes[OF step, of k] show ?case
    by (blast intro: list.set_intros)
qed

lemma setVariants_keep_attributes:
  "setVariants P cs el = Inr el' \<Longrightarrow> getAttribute el' k \<noteq> None \<Longrightarrow>
   getAttribute el k \<noteq> None \<or> (\<exists>c \<in> set cs. asciiLower c = k)"
proof (induction cs arbitrary: el)
  case Nil
  then show ?case by simp
next
  case (Cons c cs)
  from Cons.prems(1) obtain el1 where
    step: "setAttribute P c [] el = Inr el1" and rest: "setVariants P cs el1 = Inr el'"
    by (auto split: sum.splits)
  from Cons.IH[OF rest Cons.prems(2)] setAttribute_sets[OF step, of k] show ?case
    by (blast intro: list.set_intros)
qed

lemma lower_type_not_style: "asciiLower (asc ''type'') \<noteq> asc ''style''"
  by (simp add: string_eval)

section \<open>Resolving the references of a row\<close>

lemma resolveRefs_all:
  "(\<forall>k \<in> set refs. \<forall>b. m k = Some b \<longrightarrow> rec b = Inr (conv b)) \<Longrightarrow>
   resolveRefs rec m annot refs = Inr (map (\<lambda>b. annot (conv b)) (List.map_filter m refs))"
  by (induction refs) (auto simp: List.map_filter_simps split: option.splits)

lemma map_filter_none: "(\<forall>k \<in> set refs. m k = None) \<Longrightarrow> List.map_filter m refs = []"
  by (induction refs) (auto simp: List.map_filter_simps)

lemma resolveRefs_first_failure:
  assumes "\<forall>k' \<in> set pre. \<forall>b'. m k' = Some b' \<longrightarrow> (\<exists>c. rec b' = Inr c)"
    and "m k = Some b" "rec b = Inl e"
  shows "resolveRefs rec m annot (pre @ k # post) = Inl e"
  using assms by (induction pre) (auto split: option.splits sum.splits)
section \<open>Walking the tree\<close>

lemma desc_flag_irrelevant: "map snd (desc a n) = map snd (desc b n)"
proof (induction n arbitrary: a b)
  case (Text s)
  show ?case by simp
next
  case (Elem t as cs)
  have "\<And>c. c \<in> set cs \<Longrightarrow>
          map snd (if isElem c then (a, c) # desc (a \<or> tagOf c = asc ''tr'') c else [])
        = map snd (if isElem c then (b, c) # desc (b \<or> tagOf c = asc ''tr'') c else [])"
    using Elem.IH by auto
  then show ?case by (simp add: map_concat cong: map_cong)
qed

lemma descendants_Elem:
  "descendants (Elem t as cs) = concat (map (\<lambda>c. if isElem c then c # descendants c else []) cs)"
proof -
  have "\<And>c. map snd (if isElem c then (False, c) # desc (False \<or> tagOf c = asc ''tr'') c else [])
           = (if isElem c then c # descendants c else [])"
    using desc_flag_irrelevant[of _ _ False] by (auto simp: descendants_def)
  then show ?thesis by (simp add: descendants_def map_concat comp_def del: desc_flag_irrelevant cong: if_cong)
qed

lemma isBlockDiv_Text [simp]: "\<not> isBlockDiv (Text s)"
  by (simp add: isBlockDiv_def asc_def)

lemma walk_none: "\<not> isBlockDiv n \<Longrightarrow> (\<And>d. d \<in> set (descendants n) \<Longrightarrow> \<not> isBlockDiv d) \<Longrightarrow> walk n = []"
proof (induction n)
  case (Text s)
  show ?case by simp
next
  case (Elem t as cs)
  have "\<And>c. c \<in> set (filter isElem cs) \<Longrightarrow> walk c = []"
  proof -
    fix c assume c: "c \<in> set (filter isElem cs)"
    then have cs: "c \<in> set cs" "isElem c" by auto
    then have sub: "set (c # descendants c) \<subseteq> set (descendants (Elem t as cs))"
      by (auto simp: descendants_Elem)
    then have "\<not> isBlockDiv c" using Elem.prems(2) by auto
    moreover have "\<And>d. d \<in> set (descendants c) \<Longrightarrow> \<not> isBlockDiv d"
      using sub Elem.prems(2) by auto
    ultimately show "walk c = []" using Elem.IH[OF cs(1)] by blast
  qed
  then have "concat (map walk (filter isElem cs)) = []" by (simp del: set_filter)
  with Elem.prems(1) show ?case by simp
qed

lemma walk_blocks: "b \<in> set (walk n) \<Longrightarrow> isBlockDiv b"
proof (induction n)
  case (Text s)
  then show ?case by simp
next
  case (Elem t as cs)
  then show ?case by (auto split: if_splits)
qed

section \<open>The two pipelines on the two encodings\<close>

lemma descendants_cell: "descendants (Elem t as cs) = descendants (Elem t' as' cs)"
  by (simp add: descendants_Elem)

lemma cell_invariance:
  "hasSlotted (Elem t as cs) = hasSlotted (Elem (asc ''div'') [] cs)"
  "isSimplePWrapper (Elem t as cs) = isSimplePWrapper (Elem (asc ''div'') [] cs)"
  "findNestedBlock (Elem t as cs) = findNestedBlock (Elem (asc ''div'') [] cs)"
  "unwrapSingleP (Elem t as cs) = unwrapSingleP (Elem (asc ''div'') [] cs)"
  by (simp_all add: hasSlotted_def descendants_cell[of t as cs "asc ''div''" "[]"]
        isSimplePWrapper_def findNestedBlock_def unwrapSingleP_def children_def
        split: list.splits)

lemma plainCell_no_cells:
  assumes "plainCell ns"
  shows "filter (\<lambda>d. tagOf d = asc ''td'') (descendants (Elem t as ns)) = []"
    and "filter (\<lambda>d. tagOf d = asc ''tr'') (descendants (Elem t as ns)) = []"
  using assms
  by (auto simp: plainCell_def list_all_iff filter_empty_conv descendants_cell[of t as ns "asc ''div''" "[]"])

lemma descendants_two:
  "descendants (Elem t as [Elem ta aa ca, Elem tb ab cb])
     = Elem ta aa ca # descendants (Elem ta aa ca) @ Elem tb ab cb # descendants (Elem tb ab cb)"
  by (simp add: descendants_Elem)

lemma descendants_one:
  "descendants (Elem t as [Elem ta aa ca]) = Elem ta aa ca # descendants (Elem ta aa ca)"
  by (simp add: descendants_Elem)

lemma agreeingRow_plain: "agreeingRow P r \<Longrightarrow> plainRow r"
  by (cases r) (simp_all add: Let_def)

lemma queryAll_td_cells:
  "plainCell l \<Longrightarrow> plainCell c \<Longrightarrow>
   queryAll (asc ''td'') (Elem (asc ''tr'') [] [Elem (asc ''td'') [] l, Elem (asc ''td'') [] c])
     = [Elem (asc ''td'') [] l, Elem (asc ''td'') [] c]"
  "plainCell c \<Longrightarrow>
   queryAll (asc ''td'') (Elem (asc ''tr'') [] [Elem (asc ''td'') [(asc ''colspan'', asc ''2'')] c])
     = [Elem (asc ''td'') [(asc ''colspan'', asc ''2'')] c]"
  by (simp_all add: queryAll_def descendants_two descendants_one plainCell_no_cells)

lemma trs_tableRowOf:
  "plainRow r \<Longrightarrow> filter (\<lambda>d. tagOf d = asc ''tr'') (descendants (tableRowOf r)) = []"
  by (cases r) (simp_all add: descendants_two descendants_one plainCell_no_cells)

lemma isElem_tableRowOf [simp]: "isElem (tableRowOf r)" "tagOf (tableRowOf r) = asc ''tr''"
  by (cases r; simp)+

lemma descendants_rows:
  "concat (map (\<lambda>c. if isElem c then c # descendants c else []) (map tableRowOf rows))
     = concat (map (\<lambda>r. tableRowOf r # descendants (tableRowOf r)) rows)"
  by (induction rows) simp_all

lemma trs_rows_general:
  "list_all plainRow rows \<Longrightarrow>
   filter (\<lambda>d. tagOf d = asc ''tr'') (concat (map (\<lambda>r. tableRowOf r # descendants (tableRowOf r)) rows))
     = map tableRowOf rows"
proof (induction rows)
  case Nil
  show ?case by simp
next
  case (Cons r rows)
  from Cons show ?case by (simp add: trs_tableRowOf)
qed

lemma queryAll_tr_tableEncoding:
  assumes "list_all plainRow rows"
  shows "queryAll (asc ''tr'') (tableEncoding rows) = headerRow # map tableRowOf rows"
proof -
  have b: "descendants (Elem (asc ''tbody'') [] (headerRow # map tableRowOf rows))
      = headerRow # descendants headerRow
        @ concat (map (\<lambda>r. tableRowOf r # descendants (tableRowOf r)) rows)"
    by (simp only: descendants_Elem[of "asc ''tbody''"] list.map concat.simps tagOf_rows if_True
          descendants_rows append_Cons)
  have d: "descendants (tableEncoding rows)
      = Elem (asc ''tbody'') [] (headerRow # map tableRowOf rows)
        # headerRow # descendants headerRow
        @ concat (map (\<lambda>r. tableRowOf r # descendants (tableRowOf r)) rows)"
    unfolding tableEncoding_def
    by (subst descendants_Elem) (simp add: b)
  have h: "filter (\<lambda>d. tagOf d = asc ''tr'') (descendants headerRow) = []"
    by (simp add: descendants_def)
  show ?thesis
    by (simp add: queryAll_def d h trs_rows_general[OF assms])
qed


lemma divChildren_blockEncoding [simp]: "divChildren (blockEncoding rows) = map blockRowOf rows"
proof -
  have "\<And>r. isElem (blockRowOf r) \<and> tagOf (blockRowOf r) = asc ''div''" by (case_tac r) simp_all
  then show ?thesis by (simp add: divChildren_def children_def blockEncoding_def)
qed

lemma divChildren_cells [simp]:
  "divChildren (Elem (asc ''div'') [] [Elem (asc ''div'') [] l, Elem (asc ''div'') [] c])
     = [Elem (asc ''div'') [] l, Elem (asc ''div'') [] c]"
  "divChildren (Elem (asc ''div'') [] [Elem (asc ''div'') [] c]) = [Elem (asc ''div'') [] c]"
  by (simp_all add: divChildren_def children_def)

lemma firstElementName_block:
  "firstElementName (map divChildren (map blockRowOf rows)) = declaredName rows"
proof (induction rows)
  case Nil
  show ?case by simp
next
  case (Cons r rows)
  then show ?case by (cases r) simp_all
qed

lemma firstElementName_table:
  "list_all plainRow rows \<Longrightarrow>
   firstElementName (map (queryAll (asc ''td'')) (map tableRowOf rows)) = declaredName rows"
proof (induction rows)
  case Nil
  show ?case by simp
next
  case (Cons r rows)
  then show ?case by (cases r) (simp_all add: queryAll_td_cells)
qed

lemma className_blockEncoding [simp]: "className (blockEncoding rows) = asc ''experience-element''"
  by (simp add: className_def getAttribute_def blockEncoding_def)

lemma getElementName_blockEncoding: "getElementName (blockEncoding rows) = declaredName rows"
  by (cases "declaredName rows")
     (simp_all add: getElementName_def firstElementName_block del: map_map)

lemma getElementNameFromTable_tableEncoding:
  "list_all plainRow rows \<Longrightarrow> getElementNameFromTable (tableEncoding rows) = declaredName rows"
  by (simp add: getElementNameFromTable_def queryAll_tr_tableEncoding firstElementName_table
        del: map_map)

lemma parseBlockRow_cells:
  "parseBlockRow (Elem (asc ''div'') [] [Elem (asc ''div'') [] c])
     = Some \<lparr>slotName = None, content = Elem (asc ''div'') [] c, isSlot = False\<rparr>"
  "querySelector (asc ''strong'') (Elem (asc ''div'') [] l) = None \<Longrightarrow>
   parseBlockRow (Elem (asc ''div'') [] [Elem (asc ''div'') [] l, Elem (asc ''div'') [] c])
     = Some \<lparr>slotName = Some (trim (concat (map textContent l))),
             content = Elem (asc ''div'') [] c, isSlot = False\<rparr>"
  by (simp_all add: parseBlockRow_def)

lemma row_agree:
  assumes "agreeingRow P r"
    and res: "\<And>annot refs. resolveTableRefs recT tm annot refs = resolveRefs recB bm annot refs"
  shows "convertTableRow P recT tm (tableRowOf r) st = convertRow P recB bm (blockRowOf r) st"
proof (cases r)
  case (Unlabelled c)
  with assms(1) have a: "plainCell c" "trim (concat (map textContent c)) \<noteq> asc ''experience-element''"
    "(parseReferences (trim (concat (map textContent c))) \<noteq> []
       \<and> isReferenceOnly (trim (concat (map textContent c)))) = False"
    "hasSlotted (Elem (asc ''div'') [] c) \<Longrightarrow> unwrapSingleP (Elem (asc ''div'') [] c) = c"
    by (auto simp: Let_def)
  note q = queryAll_td_cells(2)[OF a(1)]
  have u: "unwrapSingleP (Elem (asc ''td'') [(asc ''colspan'', asc ''2'')] c)
         = unwrapSingleP (Elem (asc ''div'') [] c)"
    by (rule cell_invariance)
  show ?thesis
    unfolding Unlabelled
    by (cases "hasSlotted (Elem (asc ''div'') [] c)")
       (simp_all add: convertTableRow_def convertRow_def q parseBlockRow_cells Let_def a u
          getAttribute_def)
next
  case (Labelled l c)
  define key where "key = trim (concat (map textContent l))"
  define val where "val = trim (concat (map textContent c))"
  define html where "html = trim (innerHTML P c)"
  define cell where "cell = Elem (asc ''div'') [] c"
  from assms(1) have pl: "plainCell l" "plainCell c"
    and ns: "querySelector (asc ''strong'') (Elem (asc ''div'') [] l) = None"
    and kinds: "key = asc ''element-name'' \<or> startsWith (asc ''style-'') key
            \<or> (parseReferences val \<noteq> [] \<and> isReferenceOnly val)
            \<or> (if hasSlotted cell then html \<noteq> val
                else html = val
                     \<or> (\<not> isSimplePWrapper cell \<and> findNestedBlock cell = None
                         \<and> \<not> hasBlockElements html))"
    unfolding Labelled key_def val_def html_def cell_def by (simp_all add: Let_def)
  note q = queryAll_td_cells(1)[OF pl]
  have inv: "hasSlotted (Elem (asc ''td'') [] c) = hasSlotted cell"
    unfolding cell_def by (rule cell_invariance)
  note p = parseBlockRow_cells(2)[OF ns, of c]
  have tbl: "convertTableRow P recT tm (tableRowOf (Labelled l c)) st
      = (if key = asc ''element-name'' then Inr st
         else if startsWith (asc ''style-'') key then
           Inr (fst st, setKey (asc ''--'' @ drop 6 key) val (snd st))
         else if parseReferences val \<noteq> [] \<and> isReferenceOnly val then
           (case resolveRefs recB bm (slotUnlessChildren (Some key)) (parseReferences val) of
              Inl e \<Rightarrow> Inl e
            | Inr nodes \<Rightarrow> Inr (appendAll (fst st) nodes, snd st))
         else if html \<noteq> val then
           (if hasSlotted cell then Inr (appendAll (fst st) c, snd st)
            else Inr (appendAll (fst st) [slotIfNamed (Some key) (spanWrapper P html)], snd st))
         else if key \<noteq> [] then
           (case setAttribute P (if key = asc ''attr-type'' then asc ''type'' else key) val (fst st) of
              Inl e \<Rightarrow> Inl e
            | Inr element' \<Rightarrow> Inr (element', snd st))
         else Inr st)"
    by (simp add: convertTableRow_def q Let_def res inv key_def val_def html_def
          del: resolveRefs.simps resolveTableRefs.simps)
  have blk: "convertRow P recB bm (blockRowOf (Labelled l c)) st
      = (if key = asc ''element-name'' then Inr st
         else if startsWith (asc ''style-'') key then
           Inr (fst st, setKey (asc ''--'' @ drop 6 key) val (snd st))
         else if parseReferences val \<noteq> [] \<and> isReferenceOnly val then
           (case resolveRefs recB bm (slotUnlessChildren (Some key)) (parseReferences val) of
              Inl e \<Rightarrow> Inl e
            | Inr nodes \<Rightarrow> Inr (appendAll (fst st) nodes, snd st))
         else if hasSlotted cell then Inr (appendAll (fst st) c, snd st)
         else if html \<noteq> val \<and> \<not> isSimplePWrapper cell then
           (case convertContent P recB bm cell (Some key) of
              Inl e \<Rightarrow> Inl e
            | Inr nodes \<Rightarrow> Inr (appendAll (fst st) nodes, snd st))
         else if key \<noteq> [] then
           (case setAttribute P (if key = asc ''attr-type'' then asc ''type'' else key) val (fst st) of
              Inl e \<Rightarrow> Inl e
            | Inr element' \<Rightarrow> Inr (element', snd st))
         else Inr st)"
    by (simp add: convertRow_def p Let_def key_def val_def html_def cell_def
          del: resolveRefs.simps)
  have cc: "convertContent P recB bm cell (Some key)
      = Inr [slotIfNamed (Some key) (spanWrapper P html)]"
    if "\<not> (parseReferences val \<noteq> [] \<and> isReferenceOnly val)"
      "findNestedBlock cell = None" "\<not> hasBlockElements html"
  proof -
    from that(1) have f: "(parseReferences val \<noteq> [] \<and> isReferenceOnly val) = False" by simp
    show ?thesis
      using that(2,3)
      by (simp add: convertContent_def Let_def cell_def html_def f[unfolded val_def]
            del: resolveRefs.simps)
  qed
  show ?thesis
    unfolding Labelled tbl blk
    using kinds cc by (auto split: if_splits)
qed


lemma classes_blockEncoding:
  "filter (\<lambda>c. c \<noteq> []) (split_ws (className (blockEncoding rows))) = [asc ''experience-element'']"
proof -
  have "asc ''experience-element'' \<noteq> []" by (simp add: asc_def)
  then show ?thesis by simp
qed

lemma rows_agree:
  assumes "list_all (agreeingRow P) rows"
    and res: "\<And>annot refs. resolveTableRefs recT tm annot refs = resolveRefs recB bm annot refs"
  shows "convertRows (convertTableRow P recT tm) (map tableRowOf rows) st
       = convertRows (convertRow P recB bm) (map blockRowOf rows) st"
  using assms(1)
proof (induction rows arbitrary: st)
  case Nil
  show ?case by simp
next
  case (Cons r rows)
  from Cons.prems have r: "agreeingRow P r" and rest: "list_all (agreeingRow P) rows" by simp_all
  from row_agree[OF r res] Cons.IH[OF rest] show ?case
    by (simp split: sum.splits)
qed

lemma list_all_plain: "list_all (agreeingRow P) rows \<Longrightarrow> list_all plainRow rows"
  by (induction rows) (auto dest: agreeingRow_plain)

lemma resolve_agree:
  assumes idx: "sameIndex P bm tm"
    and rec: "\<And>rows. truthy (declaredName rows) \<Longrightarrow> list_all (agreeingRow P) rows \<Longrightarrow>
                recT (tableEncoding rows) = map_sum id Some (recB (blockEncoding rows))"
  shows "resolveTableRefs recT tm annot refs = resolveRefs recB bm annot refs"
proof (induction refs)
  case Nil
  show ?case by simp
next
  case (Cons k refs)
  from idx have "(bm k = None \<and> tm k = None)
      \<or> (\<exists>rows. truthy (declaredName rows) \<and> list_all (agreeingRow P) rows
              \<and> bm k = Some (blockEncoding rows) \<and> tm k = Some (tableEncoding rows))"
    unfolding sameIndex_def by (rule spec)
  then consider "bm k = None" "tm k = None"
    | rows where "truthy (declaredName rows)" "list_all (agreeingRow P) rows"
        "bm k = Some (blockEncoding rows)" "tm k = Some (tableEncoding rows)"
    by auto
  then show ?case
  proof cases
    case 1
    with Cons show ?thesis by simp
  next
    case 2
    from rec[OF 2(1,2)] 2(3,4) Cons show ?thesis
      by (cases "recB (blockEncoding rows)") simp_all
  qed
qed

lemma component_agree:
  assumes "sameIndex P bm tm"
  shows "truthy (declaredName rows) \<Longrightarrow> list_all (agreeingRow P) rows \<Longrightarrow>
         convertTable f P tm (tableEncoding rows)
           = map_sum id Some (convertBlock f P bm (blockEncoding rows))"
proof (induction f arbitrary: rows)
  case 0
  show ?case by simp
next
  case (Suc f)
  have res: "resolveTableRefs (convertTable f P tm) tm annot refs
          = resolveRefs (convertBlock f P bm) bm annot refs" for annot refs
    by (rule resolve_agree[OF assms]) (rule Suc.IH)
  from Suc.prems(1) obtain e where e: "declaredName rows = Some e" "e \<noteq> []"
    by (cases "declaredName rows") (auto simp: truthy_def)
  note plain = list_all_plain[OF Suc.prems(2)]
  have rowsT: "convertRows (convertTableRow P (convertTable f P tm) tm)
                 (queryAll (asc ''tr'') (tableEncoding rows)) st
             = convertRows (convertRow P (convertBlock f P bm) bm)
                 (divChildren (blockEncoding rows)) st" for st
    using rows_agree[OF Suc.prems(2), of "convertTable f P tm" tm "convertBlock f P bm" bm st] res
    by (simp add: queryAll_tr_tableEncoding[OF plain] convertTableRow_headerRow)
  have marker: "find isCustomElementClass [asc ''experience-element''] = Some (asc ''experience-element'')"
    by (simp add: isCustomElementClass_def)
  have nameT: "getElementNameFromTable (tableEncoding rows) = Some e"
    using getElementNameFromTable_tableEncoding[OF plain] e by simp
  have nameB: "getElementName (blockEncoding rows) = Some e"
    using getElementName_blockEncoding[of rows] e by simp
  show ?case
    by (simp only: convertBlock.simps convertTable.simps Let_def classes_blockEncoding marker
          option.case nameT nameB rowsT)
       (auto simp: createElement_def e split: option.splits sum.splits)
qed

lemma sameIndex_update:
  "sameIndex P m m' \<Longrightarrow> truthy (declaredName rows) \<Longrightarrow> list_all (agreeingRow P) rows \<Longrightarrow>
   sameIndex P (m(k \<mapsto> blockEncoding rows)) (m'(k \<mapsto> tableEncoding rows))"
  unfolding sameIndex_def by (metis fun_upd_apply)

lemma buildMap_sameIndex:
  "sameIndex P m m' \<Longrightarrow> list_all (list_all (agreeingRow P)) comps \<Longrightarrow>
   sameIndex P (buildMap P getElementName c m (map blockEncoding comps))
               (buildMap P getElementNameFromTable c m' (map tableEncoding comps))"
proof (induction comps arbitrary: c m m')
  case Nil
  then show ?case by simp
next
  case (Cons rows comps)
  from Cons.prems(2) have ag: "list_all (agreeingRow P) rows"
    and rest: "list_all (list_all (agreeingRow P)) comps" by simp_all
  note plain = list_all_plain[OF ag]
  show ?case
  proof (cases "truthy (declaredName rows)")
    case False
    then have "\<not> truthy (getElementName (blockEncoding rows))"
      "\<not> truthy (getElementNameFromTable (tableEncoding rows))"
      by (simp_all add: getElementName_blockEncoding getElementNameFromTable_tableEncoding[OF plain])
    then show ?thesis
      using Cons.IH[OF Cons.prems(1) rest]
      by (simp add: buildMap_unnamed[of getElementName] buildMap_unnamed[of getElementNameFromTable]
            del: buildMap.simps)
  next
    case True
    then obtain e where e: "declaredName rows = Some e" "e \<noteq> []"
      by (cases "declaredName rows") (auto simp: truthy_def)
    then have g: "getElementName (blockEncoding rows) = Some e"
      "getElementNameFromTable (tableEncoding rows) = Some e"
      by (simp_all add: getElementName_blockEncoding getElementNameFromTable_tableEncoding[OF plain])
    let ?k = "makeId (toLowerCase P e) (c (toLowerCase P e) + 1)"
    from sameIndex_update[OF Cons.prems(1) True ag]
    have "sameIndex P (m(?k \<mapsto> blockEncoding rows)) (m'(?k \<mapsto> tableEncoding rows))" .
    from Cons.IH[OF this rest]
    show ?thesis
      by (simp only: list.map buildMap_named[of getElementName, OF g(1) e(2)]
            buildMap_named[of getElementNameFromTable, OF g(2) e(2)])
  qed
qed

lemma sameIndex_empty: "sameIndex P Map.empty Map.empty"
  by (simp add: sameIndex_def)

text \<open>The components with text rows are among them: their encodings are the encodings
  above, and their rows are rows as above when the serializer escapes the text of a text
  node.\<close>

lemma text_rows_encoded:
  "blockOf rows = blockEncoding (map (\<lambda>r. Labelled (textNodes (fst r)) (textNodes (snd r))) rows)"
  "tableOf rows = tableEncoding (map (\<lambda>r. Labelled (textNodes (fst r)) (textNodes (snd r))) rows)"
  by (simp_all add: blockOf_def blockEncoding_def blockRow_def tableOf_def tableEncoding_def
        tableRow_def comp_def)

lemma text_row_agrees:
  assumes "escapes P"
  shows "agreeingRow P (Labelled (textNodes l) (textNodes v))"
proof -
  from assms have "60 \<notin> set (trim (innerHTML P (textNodes v)))"
    using set_trim[of "innerHTML P (textNodes v)"] by (auto simp: escapes_def)
  then have b: "\<not> hasBlockElements (trim (innerHTML P (textNodes v)))" by (rule no_lt_no_block)
  have p: "plainCell (textNodes l)" "plainCell (textNodes v)"
    by (simp_all add: plainCell_def descendants_def)
  have q: "querySelector (asc ''strong'') (Elem (asc ''div'') [] (textNodes l)) = None"
    by (simp add: querySelector_def descendants_def)
  show ?thesis
    by (simp add: Let_def p q b)
qed

section \<open>Root selection\<close>

lemma assignIds_Some_named:
  "(c, Some a) \<in> set (zip bs (assignIds P g k bs)) \<Longrightarrow> truthy (g c) \<and> c \<in> set bs"
proof -
  assume "(c, Some a) \<in> set (zip bs (assignIds P g k bs))"
  then obtain n where n: "n < length bs" "bs ! n = c" "assignIds P g k bs ! n = Some a"
    by (auto simp: in_set_zip)
  from assignIds_Some[OF n(1) n(3)] n(2) obtain e where "g c = Some e" "e \<noteq> []" by auto
  with n show ?thesis by (auto simp: truthy_def)
qed

lemma assignIds_named_Some:
  "(c, x) \<in> set (zip bs (assignIds P g k bs)) \<Longrightarrow> truthy (g c) \<Longrightarrow> x \<noteq> None"
proof -
  assume "(c, x) \<in> set (zip bs (assignIds P g k bs))" and t: "truthy (g c)"
  then obtain n where n: "n < length bs" "bs ! n = c" "assignIds P g k bs ! n = x"
    by (auto simp: in_set_zip)
  from t obtain e where "g c = Some e" "e \<noteq> []" by (cases "g c") (auto simp: truthy_def)
  with assignIds_nth[OF n(1), of P g k] n show ?thesis by auto
qed

lemma unreferenced_named:
  "c \<in> set (unreferenced P g bs) \<Longrightarrow> truthy (g c) \<and> c \<in> set bs"
  using assignIds_Some_named[of c _ bs P g "\<lambda>_. 0"]
  by (auto simp: unreferenced_def split: option.splits)

lemma unreferenced_all:
  assumes "\<forall>c \<in> set bs. truthy (g c)" "referencedIds bs = []"
  shows "unreferenced P g bs = bs"
proof -
  have "\<And>p. p \<in> set (zip bs (assignIds P g (\<lambda>_. 0) bs)) \<Longrightarrow>
          (case p of (block, blockId) \<Rightarrow>
             case blockId of Some i \<Rightarrow> i \<notin> set (referencedIds bs) | None \<Rightarrow> False)"
  proof -
    fix p assume p: "p \<in> set (zip bs (assignIds P g (\<lambda>_. 0) bs))"
    obtain c x where cx: "p = (c, x)" by (cases p)
    with p have "c \<in> set bs" by (auto dest: set_zip_leftD)
    with assms(1) have "truthy (g c)" by blast
    with assignIds_named_Some p cx have "x \<noteq> None" by blast
    with cx assms(2) show "case p of (block, blockId) \<Rightarrow>
             case blockId of Some i \<Rightarrow> i \<notin> set (referencedIds bs) | None \<Rightarrow> False"
      by (auto split: option.splits)
  qed
  then have "filter (\<lambda>(block, blockId). case blockId of Some i \<Rightarrow> i \<notin> set (referencedIds bs) | None \<Rightarrow> False)
               (zip bs (assignIds P g (\<lambda>_. 0) bs)) = zip bs (assignIds P g (\<lambda>_. 0) bs)"
    by (intro filter_True) blast
  then show ?thesis
    by (simp add: unreferenced_def assignIds_length)
qed

lemma subseq_unreferenced: "subseq (unreferenced P g bs) bs"
proof -
  have "subseq (map fst (filter (\<lambda>(block, blockId). case blockId of Some i \<Rightarrow> i \<notin> set (referencedIds bs) | None \<Rightarrow> False)
               (zip bs (assignIds P g (\<lambda>_. 0) bs))))
          (map fst (zip bs (assignIds P g (\<lambda>_. 0) bs)))"
    by (intro subseq_map subseq_filter_left)
  then show ?thesis by (simp add: unreferenced_def assignIds_length)
qed

lemma findRoot_single: "findRoot P g [c] = Some c"
  by (simp add: findRoot_def)

lemma findRoot_many:
  assumes "2 \<le> length bs"
  shows "findRoot P g bs =
           Some (if unreferenced P g bs \<noteq> [] then last (unreferenced P g bs) else last bs)"
proof -
  from assms obtain a b rest where bs: "bs = a # b # rest"
    by (cases bs; cases "tl bs") auto
  have one: "length (unreferenced P g bs) = 1 \<Longrightarrow> hd (unreferenced P g bs) = last (unreferenced P g bs)"
    by (cases "unreferenced P g bs") auto
  have "findRoot P g (a # b # rest)
          = (let u = unreferenced P g (a # b # rest)
             in if length u = 1 then Some (hd u)
                else if length u > 1 then Some (last u) else Some (last (a # b # rest)))"
    by (simp add: findRoot_def)
  then show ?thesis
    unfolding bs Let_def using one[unfolded bs]
    by (cases "unreferenced P g (a # b # rest)"; cases "tl (unreferenced P g (a # b # rest))") auto
qed

lemma convertBlock_nameless: "\<not> truthy (getElementName b) \<Longrightarrow> convertBlock (Suc fuel) P m b = Inr b"
  by (cases "getElementName b") (auto simp: truthy_def Let_def split: option.splits)

lemma findRoot_nameless:
  assumes "\<not> truthy (g b)" "findRoot P g bs = Some b"
  shows "unreferenced P g bs = [] \<and> bs \<noteq> [] \<and> b = last bs"
proof -
  have notin: "b \<notin> set (unreferenced P g bs)"
    using assms(1) unreferenced_named by blast
  show ?thesis
  proof (cases "2 \<le> length bs")
    case True
    note many = findRoot_many[OF True, of P g]
    show ?thesis
    proof (cases "unreferenced P g bs = []")
      case True
      with many assms(2) \<open>2 \<le> length bs\<close> show ?thesis by auto
    next
      case False
      with many assms(2) have "b = last (unreferenced P g bs)" by simp
      with False notin show ?thesis using last_in_set by metis
    qed
  next
    case False
    then consider "bs = []" | c where "bs = [c]"
      by (cases bs; cases "tl bs") auto
    then show ?thesis
    proof cases
      case 1
      with assms(2) show ?thesis by (simp add: findRoot_def)
    next
      case 2
      with assms(2) have c: "c = b" by (simp add: findRoot_single)
      have "unreferenced P g [b] = []"
      proof (rule ccontr)
        assume "unreferenced P g [b] \<noteq> []"
        then obtain x where "x \<in> set (unreferenced P g [b])"
          by (cases "unreferenced P g [b]") auto
        with unreferenced_named[of x P g "[b]"] assms(1) show False by auto
      qed
      with 2 c show ?thesis by simp
    qed
  qed
qed

section \<open>Tables and blocks of a document\<close>

lemma findTables_tag: "t \<in> set (findTables a r) \<Longrightarrow> tagOf t = asc ''table''"
  by (auto simp: findTables_def)

lemma findBlocks_tag: "b \<in> set (findBlocks r) \<Longrightarrow> tagOf b = asc ''div''"
  using walk_blocks[of b r] by (simp add: findBlocks_def isBlockDiv_def)

lemma findRoot_mem: "findRoot P g bs = Some t \<Longrightarrow> t \<in> set bs"
proof (cases "2 \<le> length bs")
  case True
  assume r: "findRoot P g bs = Some t"
  from True have ne: "bs \<noteq> []" by auto
  show ?thesis
  proof (cases "unreferenced P g bs = []")
    case True
    with findRoot_many[OF \<open>2 \<le> length bs\<close>, of P g] r ne show ?thesis by auto
  next
    case False
    with findRoot_many[OF \<open>2 \<le> length bs\<close>, of P g] r
    have "t = last (unreferenced P g bs)" by simp
    with False have "t \<in> set (unreferenced P g bs)" by simp
    with unreferenced_named show ?thesis by blast
  qed
next
  case False
  assume r: "findRoot P g bs = Some t"
  from False consider "bs = []" | c where "bs = [c]"
    by (cases bs; cases "tl bs") auto
  then show ?thesis using r by cases (auto simp: findRoot_def)
qed

lemma findRoot_some: "bs \<noteq> [] \<Longrightarrow> \<exists>t. findRoot P g bs = Some t"
  by (cases bs; cases "tl bs") (auto simp: findRoot_def Let_def)

section \<open>The example blocks, evaluated\<close>

lemma textContent_blockOf: "textContent (blockOf rows) = concat (map (\<lambda>r. fst r @ snd r) rows)"
  by (simp add: blockOf_def blockRow_def comp_def)

lemma example_names:
  "getElementName mediaBlock = Some (asc ''ee-media'')"
  "getElementName cardBlock = Some (asc ''paywall-card'')"
  "getElementName namelessBlock = None"
  "getElementName selfRefBlock = Some (asc ''x-card'')"
  by (simp_all add: mediaBlock_def cardBlock_def namelessBlock_def selfRefBlock_def
        getElementName_blockOf firstName_def string_eval)

lemma example_refs:
  "parseReferences (textContent mediaBlock) = []"
  "parseReferences (textContent cardBlock) = [asc ''ee-media-1'']"
  "parseReferences (textContent namelessBlock) = []"
  "parseReferences (textContent selfRefBlock) = [asc ''x-card-1'']"
  by (simp_all add: mediaBlock_def cardBlock_def namelessBlock_def selfRefBlock_def
        textContent_blockOf parseReferences_def matchRef_def string_eval)

lemma example_ids:
  "makeId (asc ''ee-media'') (Suc 0) = asc ''ee-media-1''"
  "makeId (asc ''paywall-card'') (Suc 0) = asc ''paywall-card-1''"
  "makeId (asc ''x-card'') (Suc 0) = asc ''x-card-1''"
  by (simp_all add: makeId_def show_nat.simps asc_def)

lemma example_lower:
  "toLowerCase (host b) (asc ''ee-media'') = asc ''ee-media''"
  "toLowerCase (host b) (asc ''paywall-card'') = asc ''paywall-card''"
  "toLowerCase (host b) (asc ''x-card'') = asc ''x-card''"
  by (simp_all add: host_def asciiLower_def asc_def)

lemma example_nonempty:
  "asc ''ee-media'' \<noteq> []" "asc ''paywall-card'' \<noteq> []" "asc ''x-card'' \<noteq> []"
  "asc ''paywall-card-1'' \<noteq> asc ''ee-media-1''" "asc ''ee-media-1'' \<noteq> asc ''paywall-card-1''"
  "asc ''paywall-card'' \<noteq> asc ''ee-media''" "asc ''ee-media'' \<noteq> asc ''paywall-card''"
  by (simp_all add: asc_def)

lemma example_blocks_differ:
  "mediaBlock \<noteq> cardBlock" "namelessBlock \<noteq> mediaBlock" "selfRefBlock \<noteq> namelessBlock"
  by (simp_all add: mediaBlock_def cardBlock_def namelessBlock_def selfRefBlock_def blockOf_def
        blockRow_def asc_def textNodes_def)

lemma unreferenced_media_card:
  "unreferenced (host b) getElementName [mediaBlock, cardBlock] = [cardBlock]"
  by (simp add: unreferenced_def referencedIds_def example_names example_refs example_lower
        example_ids example_nonempty Let_def)

lemma unreferenced_media_nameless:
  "unreferenced (host b) getElementName [mediaBlock, namelessBlock] = [mediaBlock]"
  by (simp add: unreferenced_def referencedIds_def example_names example_refs example_lower
        example_ids example_nonempty Let_def)

lemma unreferenced_selfRef_nameless:
  "unreferenced (host b) getElementName [selfRefBlock, namelessBlock] = []"
  by (simp add: unreferenced_def referencedIds_def example_names example_refs example_lower
        example_ids example_nonempty Let_def)

lemma unreferenced_nameless_media:
  "unreferenced (host b) getElementName [namelessBlock, mediaBlock] = [mediaBlock]"
  by (simp add: unreferenced_def referencedIds_def example_names example_refs example_lower
        example_ids example_nonempty Let_def)
section \<open>The example host, evaluated\<close>

lemma host_fields:
  "parseTag (host b) t = (if customName t then Some (t, [], []) else None)"
  "parseFragment (host b) s = (if s = [] then [] else [Text s])"
  "innerHTML (host b) ns = concat (map serialize ns)"
  "outerHTML (host b) = serialize"
  "validAttrName (host b) k = (k \<noteq> [] \<and> list_all (\<lambda>c. \<not> isSpace c \<and> c \<notin> {0, 47, 61, 62}) k)"
  "toLowerCase (host b) = asciiLower"
  "parseDocument (host b) html = b"
  by (simp_all add: host_def)

lemma escapeText_no_lt: "60 \<notin> set (escapeText s)"
  by (induction s) (auto simp: escapeText_def asc_def)

lemma escapes_host: "escapes (host b)"
  by (simp add: escapes_def host_fields textNodes_def escapeText_no_lt)

lemma media_converted:
  "convertBlock (Suc f) (host b) bm mediaBlock
     = Inr (Elem (asc ''ee-media'') [(asc ''src'', asc ''a.png'')] [])"
  unfolding mediaBlock_def
  apply (simp only: convertBlock_blockOf[OF escapes_host])
  apply (simp add: convertComponent_def firstName_def convertTextRow_def Let_def host_fields
      customName_def startsWith_def parseReferences_def matchRef_def isReferenceOnly_def
      textNodes_def escapeText_def setAttribute_def applyStyle_def string_eval)
  done

lemmas row_eval = convertComponent_def firstName_def convertTextRow_def Let_def host_fields
      customName_def startsWith_def parseReferences_def matchRef_def isReferenceOnly_def
      textNodes_def escapeText_def setAttribute_def applyStyle_def slotUnlessChildren_def
      slotIfNamed_def spanWrapper_def styleStr_def string_eval

lemma index_media_card:
  "buildBlockMap (host b) [mediaBlock, cardBlock] (asc ''ee-media-1'') = Some mediaBlock"
  by (simp add: buildBlockMap_def example_names example_lower example_ids example_nonempty Let_def)

lemma card_converted_in:
  assumes "bm (asc ''ee-media-1'') = Some mediaBlock"
  shows "convertBlock (Suc (Suc f)) (host b) bm cardBlock
     = Inr (Elem (asc ''paywall-card'') []
              [Elem (asc ''ee-media'') [(asc ''src'', asc ''a.png''), (asc ''slot'', asc ''media'')] []])"
proof -
  have refs: "parseReferences (trim (arrow # asc '' ee-media-1'')) = [asc ''ee-media-1'']"
    "isReferenceOnly (trim (arrow # asc '' ee-media-1''))"
    by (simp_all add: parseReferences_def matchRef_def isReferenceOnly_def string_eval)
  have res: "resolveRefs (convertBlock (Suc f) (host b) bm) bm annot [asc ''ee-media-1'']
        = Inr [annot (Elem (asc ''ee-media'') [(asc ''src'', asc ''a.png'')] [])]" for annot
    by (simp add: assms media_converted del: convertBlock.simps)
  have lab: "trim (asc ''element-name'') = asc ''element-name''" "trim (asc ''media'') = asc ''media''"
    "trim (asc ''paywall-card'') = asc ''paywall-card''"
    "asc ''media'' \<noteq> asc ''element-name''" "\<not> startsWith (asc ''style-'') (asc ''media'')"
    "asc ''paywall-card'' \<noteq> []" "asc ''media'' \<noteq> []" "asc ''media'' \<noteq> asc ''children''"
    "customName (asc ''paywall-card'')" "asciiLower (asc ''paywall-card'') = asc ''paywall-card''"
    by (simp_all add: string_eval startsWith_def customName_def)
  show ?thesis
    unfolding cardBlock_def
    apply (simp only: convertBlock_blockOf[OF escapes_host])
    apply (simp add: convertComponent_def firstName_def convertTextRow_def Let_def host_fields
        refs res lab applyStyle_def slotUnlessChildren_def del: convertBlock.simps resolveRefs.simps)
    done
qed

lemma card_converted:
  "convertBlock (Suc (Suc f)) (host b) (buildBlockMap (host b) [mediaBlock, cardBlock]) cardBlock
     = Inr (Elem (asc ''paywall-card'') []
              [Elem (asc ''ee-media'') [(asc ''src'', asc ''a.png''), (asc ''slot'', asc ''media'')] []])"
  by (rule card_converted_in) (rule index_media_card)

lemma example_rows: "mediaBlock = blockOf mediaRows" "cardBlock = blockOf cardRows"
  by (simp_all add: mediaBlock_def cardBlock_def mediaRows_def cardRows_def)

lemmas dom_eval = divChildren_def children_def className_def getAttribute_def queryAll_def
  querySelector_def descendants_def hasSlotted_def isSimplePWrapper_def unwrapSingleP_def
  findNestedBlock_def isBlockDiv_def isCustomElementClass_def VANILLA_TAGS_def
  parseBlockRow_def getElementName_def getElementNameFromTable_def
lemma styleRow_blockRow:
  "styleRow (blockRow r) =
     (if startsWith (asc ''style-'') (trim (fst r))
      then Some (asc ''--'' @ drop 6 (trim (fst r)), trim (snd r)) else None)"
  by (simp add: styleRow_def parseBlockRow_blockRow)

lemma styleRows_blockOf: "styleRows (blockOf rows) = List.map_filter (\<lambda>r. styleRow (blockRow r)) rows"
  by (induction rows) (simp_all add: styleRows_def List.map_filter_simps split: option.splits)

lemma styledBlock_rows:
  "styleRows styledBlock = [(asc ''--color'', asc ''red''), (asc ''--bg'', asc ''#fff''), (asc ''--color'', asc ''blue'')]"
  by (simp add: styledBlock_def styleRows_blockOf List.map_filter_def styleRow_blockRow
        startsWith_def string_eval del: asc_eq_iff asc_empty_iff)

lemma styledBlock_converted:
  "convertBlock (Suc f) (host b) bm styledBlock
     = Inr (Elem (asc ''x-card'') [(asc ''style'', asc ''--color: blue; --bg: #fff'')] [])"
  unfolding styledBlock_def
  apply (simp only: convertBlock_blockOf[OF escapes_host])
  apply (simp add: row_eval del: asc_eq_iff asc_empty_iff)
  done

lemma plainStyleBlock_converted:
  "convertBlock (Suc f) (host b) bm plainStyleBlock
     = Inr (Elem (asc ''x-card'') [(asc ''style'', asc ''color: red'')] [])"
  unfolding plainStyleBlock_def
  apply (simp only: convertBlock_blockOf[OF escapes_host])
  apply (simp add: row_eval del: asc_eq_iff asc_empty_iff)
  done

lemma plainStyleBlock_rows: "styleRows plainStyleBlock = []"
  by (simp add: plainStyleBlock_def styleRows_blockOf List.map_filter_def styleRow_blockRow
        startsWith_def string_eval del: asc_eq_iff asc_empty_iff)

lemma index_media_card_all:
  "buildBlockMap (host b) [mediaBlock, cardBlock] k
     = (if k = asc ''paywall-card-1'' then Some cardBlock
        else if k = asc ''ee-media-1'' then Some mediaBlock else None)"
  by (simp add: buildBlockMap_def example_names example_lower example_ids example_nonempty Let_def)

lemma twoRefsRow_parsed:
  "parseBlockRow twoRefsRow
     = Some \<lparr>slotName = Some (asc ''media''),
             content = Elem (asc ''div'') [] [Text (arrow # asc '' ee-media-1, '' @ arrow # asc '' zz-9'')],
             isSlot = False\<rparr>"
  by (simp add: twoRefsRow_def parseBlockRow_blockRow textNodes_def string_eval
        del: asc_eq_iff asc_empty_iff)

lemma twoRefs_text:
  "parseReferences (trim (arrow # asc '' ee-media-1, '' @ arrow # asc '' zz-9''))
     = [asc ''ee-media-1'', asc ''zz-9'']"
  "isReferenceOnly (trim (arrow # asc '' ee-media-1, '' @ arrow # asc '' zz-9''))"
  by (simp_all add: parseReferences_def matchRef_def isReferenceOnly_def string_eval
        del: asc_eq_iff asc_empty_iff)

lemma styleRefBlock_converted:
  "convertBlock (Suc f) (host b) bm styleRefBlock
     = Inr (Elem (asc ''x-card'') [(asc ''style'', asc ''--x: '' @ arrow # asc '' zz-9'')] [])"
  unfolding styleRefBlock_def
  apply (simp only: convertBlock_blockOf[OF escapes_host])
  apply (simp add: row_eval del: asc_eq_iff asc_empty_iff)
  done

lemma paragraph_rows_parsed:
  "parseBlockRow plainParagraphRow
     = Some \<lparr>slotName = None,
             content = Elem (asc ''div'') [] [Elem (asc ''p'') [] [Text (asc ''Hello'')]],
             isSlot = False\<rparr>"
  "parseBlockRow richParagraphRow
     = Some \<lparr>slotName = None,
             content = Elem (asc ''div'') []
               [Elem (asc ''p'') [] [Text (asc ''Hello ''), Elem (asc ''b'') [] [Text (asc ''x'')]]],
             isSlot = False\<rparr>"
  by (simp_all add: plainParagraphRow_def richParagraphRow_def parseBlockRow_def divChildren_def
        children_def)

text \<open>A block that refers to itself is converted at no depth.\<close>

lemma index_selfRef: "buildBlockMap (host b) [selfRefBlock] (asc ''x-card-1'') = Some selfRefBlock"
  by (simp add: buildBlockMap_def example_names example_lower example_ids example_nonempty Let_def)

lemma selfRef_never_converts:
  assumes "bm (asc ''x-card-1'') = Some selfRefBlock"
  shows "convertBlock f (host b) bm selfRefBlock = Inl RangeError"
proof (induction f)
  case 0
  show ?case by simp
next
  case (Suc f)
  have refs: "parseReferences (trim (arrow # asc '' x-card-1'')) = [asc ''x-card-1'']"
    "isReferenceOnly (trim (arrow # asc '' x-card-1''))"
    by (simp_all add: parseReferences_def matchRef_def isReferenceOnly_def string_eval)
  have res: "resolveRefs (convertBlock f (host b) bm) bm annot [asc ''x-card-1''] = Inl RangeError" for annot
    by (simp add: assms Suc del: convertBlock.simps)
  have lab: "trim (asc ''element-name'') = asc ''element-name''" "trim (asc ''children'') = asc ''children''"
    "trim (asc ''x-card'') = asc ''x-card''"
    "asc ''children'' \<noteq> asc ''element-name''" "\<not> startsWith (asc ''style-'') (asc ''children'')"
    "asc ''x-card'' \<noteq> []"
    "customName (asc ''x-card'')" "asciiLower (asc ''x-card'') = asc ''x-card''"
    by (simp_all add: string_eval startsWith_def customName_def)
  show ?case
    unfolding selfRefBlock_def
    apply (simp only: convertBlock_blockOf[OF escapes_host])
    apply (simp add: convertComponent_def firstName_def convertTextRow_def Let_def host_fields
        refs res lab del: convertBlock.simps resolveRefs.simps)
    done
qed
section \<open>The example documents, evaluated\<close>

lemma desc_blockOf:
  "desc a (blockOf rows)
     = concat (map (\<lambda>r. [(a, blockRow r),
                           (a, Elem (asc ''div'') [] (textNodes (fst r))),
                           (a, Elem (asc ''div'') [] (textNodes (snd r)))]) rows)"
  by (simp add: blockOf_def blockRow_def comp_def cong: map_cong)

lemma desc_blockOf_div: "p \<in> set (desc a (blockOf rows)) \<Longrightarrow> tagOf (snd p) = asc ''div''"
  by (auto simp: desc_blockOf blockRow_def)

lemma no_tables_in_block:
  "filter (\<lambda>(inTr, t). tagOf t = asc ''table'' \<and> Q inTr t) (desc a (blockOf rows)) = []"
proof -
  have "\<And>p. p \<in> set (desc a (blockOf rows)) \<Longrightarrow> \<not> (case p of (inTr, t) \<Rightarrow> tagOf t = asc ''table'' \<and> Q inTr t)"
    using desc_blockOf_div[of _ a rows] by (auto simp del: asc_eq_iff) (simp)
  then show ?thesis by (simp add: filter_empty_conv)
qed

lemma blockOf_facts [simp]:
  "isElem (blockOf rows)" "tagOf (blockOf rows) = asc ''div''" "isBlockDiv (blockOf rows)"
  "walk (blockOf rows) = [blockOf rows]"
proof -
  show e: "isElem (blockOf rows)" and t: "tagOf (blockOf rows) = asc ''div''"
    by (simp_all add: blockOf_def)
  show b: "isBlockDiv (blockOf rows)"
    by (simp add: isBlockDiv_def t isCustomElementClass_def)
  then show "walk (blockOf rows) = [blockOf rows]"
    by (simp add: blockOf_def)
qed

lemma example_blocks_are_blocks:
  "mediaBlock = blockOf mediaRows" "cardBlock = blockOf cardRows"
  by (simp_all add: example_rows)

lemma cardBody_root:
  "rootOf (parseDocument (host cardBody) html) = (False, Elem (asc ''main'') [] [mediaBlock, cardBlock])"
  by (simp add: host_fields rootOf_def cardBody_def)

lemma cardBody_tables: "findTables False (Elem (asc ''main'') [] [mediaBlock, cardBlock]) = []"
  by (simp add: findTables_def example_rows no_tables_in_block)

lemma cardBody_blocks: "findBlocks (Elem (asc ''main'') [] [mediaBlock, cardBlock]) = [mediaBlock, cardBlock]"
  by (simp add: findBlocks_def example_rows isBlockDiv_def)

lemma cardBody_rootBlock: "findRootBlock (host b) [mediaBlock, cardBlock] = Some cardBlock"
  by (simp add: findRootBlock_def findRoot_def unreferenced_media_card)

lemma mixedBody_root:
  "rootOf (parseDocument (host mixedBody) html)
     = (False, Elem (asc ''main'') [] [mediaBlock, tableOf titleRows])"
  by (simp add: host_fields rootOf_def mixedBody_def)

lemma titleTable_desc:
  "desc a (tableOf titleRows)
     = [(a, Elem (asc ''tbody'') [] (headerRow # map tableRow titleRows)),
        (a, headerRow),
        (True, Elem (asc ''td'') [(asc ''colspan'', asc ''2'')] [Text (asc ''experience-element'')]),
        (a, tableRow (asc ''element-name'', asc ''x-card'')),
        (True, Elem (asc ''td'') [] [Text (asc ''element-name'')]),
        (True, Elem (asc ''td'') [] [Text (asc ''x-card'')]),
        (a, tableRow (asc ''title'', asc ''Hi'')),
        (True, Elem (asc ''td'') [] [Text (asc ''title'')]),
        (True, Elem (asc ''td'') [] [Text (asc ''Hi'')])]"
  by (simp add: tableOf_def titleRows_def textNodes_def)

lemma titleTable_facts:
  "isElem (tableOf rows)" "tagOf (tableOf rows) = asc ''table''"
  by (simp_all add: tableOf_def)

lemma mixedBody_tables:
  "findTables False (Elem (asc ''main'') [] [mediaBlock, tableOf titleRows]) = [tableOf titleRows]"
  by (simp add: findTables_def example_rows no_tables_in_block titleTable_facts titleTable_desc
        firstTrTd_def trim_marker tableRow_def headerRow_def)

lemma mixedBody_blocks:
  "findBlocks (Elem (asc ''main'') [] [mediaBlock, tableOf titleRows]) = [mediaBlock]"
  by (simp add: findBlocks_def example_rows isBlockDiv_def titleTable_facts)
     (simp add: tableOf_def isBlockDiv_def headerRow_def tableRow_def)

lemma titleTable_converted:
  "convertTable (Suc f) (host b) tm (tableOf titleRows)
     = Inr (Some (Elem (asc ''x-card'') [(asc ''title'', asc ''Hi'')] []))"
  apply (simp only: convertTable_tableOf titleRows_def)
  apply (simp add: row_eval del: asc_eq_iff asc_empty_iff)
  done

lemma card_serialized:
  "outerHTML (host b)
     (Elem (asc ''paywall-card'') []
        [Elem (asc ''ee-media'') [(asc ''src'', asc ''a.png''), (asc ''slot'', asc ''media'')] []])
   = asc ''<paywall-card><ee-media src='' @ 34 # asc ''a.png'' @ 34 # asc '' slot='' @ 34 # asc ''media''
     @ 34 # asc ''></ee-media></paywall-card>''"
  by (simp add: host_fields voidTags_def escapeAttr_def asc_def del: asc_eq_iff asc_empty_iff)

lemma namelessBody_root:
  "rootOf (parseDocument (host namelessBody) html)
     = (False, Elem (asc ''main'') [] [namelessBlock, mediaBlock])"
  by (simp add: host_fields rootOf_def namelessBody_def)

lemma namelessBody_tables: "findTables False (Elem (asc ''main'') [] [namelessBlock, mediaBlock]) = []"
  by (simp add: findTables_def mediaBlock_def namelessBlock_def no_tables_in_block)

lemma namelessBody_blocks:
  "findBlocks (Elem (asc ''main'') [] [namelessBlock, mediaBlock]) = [namelessBlock, mediaBlock]"
  by (simp add: findBlocks_def mediaBlock_def namelessBlock_def isBlockDiv_def)

lemma namelessBody_rootBlock: "findRootBlock (host b) [namelessBlock, mediaBlock] = Some mediaBlock"
  by (simp add: findRootBlock_def findRoot_def unreferenced_nameless_media)

lemma media_serialized:
  "outerHTML (host b) (Elem (asc ''ee-media'') [(asc ''src'', asc ''a.png'')] [])
   = asc ''<ee-media src='' @ 34 # asc ''a.png'' @ 34 # asc ''></ee-media>''"
  by (simp add: host_fields voidTags_def escapeAttr_def asc_def del: asc_eq_iff asc_empty_iff)
section \<open>The example components, evaluated\<close>

lemma markupHost_fields:
  "parseTag markupHost t = (if customName t then Some (t, [], []) else None)"
  "parseFragment markupHost s
     = (case find (\<lambda>ns. concat (map serialize ns) = s) knownFragments of
          Some ns \<Rightarrow> ns
        | None \<Rightarrow> if s = [] then [] else [Text s])"
  "innerHTML markupHost ns = concat (map serialize ns)"
  "validAttrName markupHost k = (k \<noteq> [] \<and> list_all (\<lambda>c. \<not> isSpace c \<and> c \<notin> {0, 47, 61, 62}) k)"
  "toLowerCase markupHost = asciiLower"
  by (simp_all add: markupHost_def host_def)

lemmas markup_eval = convertRow_def convertTableRow_def convertContent_def Let_def
  markupHost_fields customName_def startsWith_def parseReferences_def matchRef_def
  isReferenceOnly_def escapeText_def escapeAttr_def voidTags_def setAttribute_def applyStyle_def
  slotUnlessChildren_def slotIfNamed_def spanWrapper_def styleStr_def knownFragments_def
  blockEncoding_def tableEncoding_def headerRow_def nameRow_def mediaBlock_def blockOf_def
  blockRow_def textNodes_def string_eval

lemma paragraph_block:
  "convertBlock (Suc f) markupHost bm (blockEncoding paragraphRows)
     = Inr (Elem (asc ''x-card'') [(asc ''title'', asc ''Hello'')] [])"
  unfolding paragraphRows_def
  by (simp add: dom_eval markup_eval del: asc_eq_iff asc_empty_iff)

lemma paragraph_table:
  "convertTable (Suc f) markupHost tm (tableEncoding paragraphRows)
     = Inr (Some (Elem (asc ''x-card'') []
         [Elem (asc ''span'') [(asc ''slot'', asc ''title'')] [Elem (asc ''p'') [] [Text (asc ''Hello'')]]]))"
  unfolding paragraphRows_def
  by (simp add: dom_eval markup_eval del: asc_eq_iff asc_empty_iff)


lemma rich_block:
  "convertBlock (Suc f) markupHost bm (blockEncoding richRows)
     = Inr (Elem (asc ''x-card'') []
         [Elem (asc ''p'') [(asc ''slot'', asc ''body'')]
            [Text (asc ''Hello ''), Elem (asc ''b'') [] [Text (asc ''x'')]]])"
  unfolding richRows_def
  by (simp add: dom_eval markup_eval blockTagAhead_def del: asc_eq_iff asc_empty_iff)

lemma rich_table:
  "convertTable (Suc f) markupHost tm (tableEncoding richRows)
     = Inr (Some (Elem (asc ''x-card'') []
         [Elem (asc ''span'') [(asc ''slot'', asc ''body'')]
            [Elem (asc ''p'') [] [Text (asc ''Hello ''), Elem (asc ''b'') [] [Text (asc ''x'')]]]]))"
  unfolding richRows_def
  by (simp add: dom_eval markup_eval del: asc_eq_iff asc_empty_iff)

lemma tableInCell_block:
  "convertBlock (Suc f) markupHost bm (blockEncoding tableInCellRows)
     = Inr (Elem (asc ''x-card'') []
         [Elem (asc ''table'') [(asc ''slot'', asc ''data'')]
            [Elem (asc ''tbody'') [] [Elem (asc ''tr'') [] [Elem (asc ''td'') [] [Text (asc ''x'')]]]]])"
  unfolding tableInCellRows_def
  by (simp add: dom_eval markup_eval blockTagAhead_def del: asc_eq_iff asc_empty_iff)

lemma tableInCell_table:
  "convertTable (Suc f) markupHost tm (tableEncoding tableInCellRows)
     = Inr (Some (Elem (asc ''x-card'') [] []))"
  unfolding tableInCellRows_def
  by (simp add: dom_eval markup_eval del: asc_eq_iff asc_empty_iff)

lemma marker_block:
  "convertBlock (Suc f) markupHost bm (blockEncoding markerRows)
     = Inr (Elem (asc ''x-card'') [] [Text (asc ''experience-element'')])"
  unfolding markerRows_def
  by (simp add: dom_eval markup_eval del: asc_eq_iff asc_empty_iff)

lemma marker_table:
  "convertTable (Suc f) markupHost tm (tableEncoding markerRows)
     = Inr (Some (Elem (asc ''x-card'') [] []))"
  unfolding markerRows_def
  by (simp add: dom_eval markup_eval del: asc_eq_iff asc_empty_iff)

lemma slottedParagraph_block:
  "convertBlock (Suc f) markupHost bm (blockEncoding slottedParagraphRows)
     = Inr (Elem (asc ''x-card'') []
         [Elem (asc ''p'') [] [Elem (asc ''span'') [(asc ''slot'', asc ''icon'')] [Text (asc ''x'')]]])"
  unfolding slottedParagraphRows_def
  by (simp add: dom_eval markup_eval del: asc_eq_iff asc_empty_iff)

lemma slottedParagraph_table:
  "convertTable (Suc f) markupHost tm (tableEncoding slottedParagraphRows)
     = Inr (Some (Elem (asc ''x-card'') []
         [Elem (asc ''span'') [(asc ''slot'', asc ''icon'')] [Text (asc ''x'')]]))"
  unfolding slottedParagraphRows_def
  by (simp add: dom_eval markup_eval del: asc_eq_iff asc_empty_iff)

lemma nameless_block:
  "convertBlock (Suc f) markupHost bm (blockEncoding namelessRows) = Inr (blockEncoding namelessRows)"
  unfolding namelessRows_def
  by (simp add: dom_eval markup_eval del: asc_eq_iff asc_empty_iff)

lemma nameless_table:
  "convertTable (Suc f) markupHost tm (tableEncoding namelessRows) = Inr None"
  unfolding namelessRows_def
  by (simp add: dom_eval markup_eval del: asc_eq_iff asc_empty_iff)

lemma bold_block:
  "convertBlock (Suc f) markupHost bm (blockEncoding boldRows)
     = Inr (Elem (asc ''paywall-card'') []
         [Elem (asc ''span'') [(asc ''slot'', asc ''plan-name'')] [Text (asc ''Firefly Standard'')]])"
  unfolding boldRows_def
  by (simp add: dom_eval markup_eval del: asc_eq_iff asc_empty_iff)

lemma bold_table:
  "convertTable (Suc f) markupHost tm (tableEncoding boldRows)
     = Inr (Some (Elem (asc ''paywall-card'') [(asc ''plan-name'', asc ''Firefly Standard'')] []))"
  unfolding boldRows_def
  by (simp add: dom_eval markup_eval del: asc_eq_iff asc_empty_iff)

lemmas index_eval = buildBlockMap_def buildTableMap_def makeId_def show_nat.simps

lemma nested_block:
  "convertBlock (Suc (Suc f)) markupHost bm (blockEncoding nestedRows)
     = Inr (Elem (asc ''x-card'') []
         [Elem (asc ''ee-media'') [(asc ''src'', asc ''a.png''), (asc ''slot'', asc ''media'')] []])"
  unfolding nestedRows_def
  by (simp add: dom_eval markup_eval del: asc_eq_iff asc_empty_iff)

lemma nested_table:
  "convertTable (Suc f) markupHost tm (tableEncoding nestedRows)
     = Inr (Some (Elem (asc ''x-card'') []
         [Elem (asc ''span'') [(asc ''slot'', asc ''media'')] [mediaBlock]]))"
  unfolding nestedRows_def
  by (simp add: dom_eval markup_eval del: asc_eq_iff asc_empty_iff)

lemma reference_block:
  "convertBlock (Suc (Suc f)) markupHost
       (buildBlockMap markupHost (map blockEncoding [mediaComponent, referenceRows]))
       (blockEncoding referenceRows)
     = Inr (Elem (asc ''x-card'') [] [Elem (asc ''ee-media'') [(asc ''src'', asc ''a.png'')] []])"
  unfolding referenceRows_def mediaComponent_def
  by (simp add: dom_eval markup_eval index_eval del: asc_eq_iff asc_empty_iff)

lemma reference_table:
  "convertTable (Suc f) markupHost tm (tableEncoding referenceRows)
     = Inr (Some (Elem (asc ''x-card'') [] [Text (arrow # asc '' ee-media-1'')]))"
  unfolding referenceRows_def
  by (simp add: dom_eval markup_eval del: asc_eq_iff asc_empty_iff)

lemma card_block:
  "convertBlock (Suc (Suc f)) markupHost
       (buildBlockMap markupHost (map blockEncoding [mediaComponent, cardComponent]))
       (blockEncoding cardComponent)
     = Inr (Elem (asc ''paywall-card'') []
         [Elem (asc ''ee-media'') [(asc ''src'', asc ''a.png''), (asc ''slot'', asc ''media'')] [],
          Elem (asc ''span'') [(asc ''slot'', asc ''title'')]
            [Text (asc ''Hello ''), Elem (asc ''em'') [] [Text (asc ''there'')]],
          Elem (asc ''span'') [(asc ''slot'', asc ''badge'')] [Text (asc ''New'')],
          Text (asc ''Body ''), Elem (asc ''b'') [] [Text (asc ''text'')]])"
  unfolding cardComponent_def mediaComponent_def
  by (simp add: dom_eval markup_eval index_eval blockTagAhead_def del: asc_eq_iff asc_empty_iff)

lemma components_agree:
  "list_all (agreeingRow markupHost) mediaComponent"
  "list_all (agreeingRow markupHost) cardComponent"
  "truthy (declaredName cardComponent)"
  unfolding cardComponent_def mediaComponent_def
  by (simp_all add: plainCell_def truthy_def dom_eval markup_eval blockTagAhead_def
        del: asc_eq_iff asc_empty_iff)

section \<open>Identifier assignment\<close>

text \<open>
  Claim C7. Identifier assignment goes through the discovered components in document
  order with one running counter per lower-cased name, starting at 1. For two components
  at positions \<open>i < j\<close> that have a name, in the block pipeline (\<open>getElementName\<close>,
  \<open>buildBlockMap\<close>) as in the table pipeline (\<open>getElementNameFromTable\<close>, \<open>buildTableMap\<close>):
  each gets the identifier made of its lower-cased name and of the number of components
  of that name up to and including it; the two identifiers differ; the counter is at
  least 1; with the same lower-cased name the earlier component has the strictly smaller
  counter; and the index maps each identifier to its own component.
\<close>

theorem identifiers_unique_and_ordered:
  assumes pipeline: "(getName, index) = (getElementName, buildBlockMap P comps)
                   \<or> (getName, index) = (getElementNameFromTable, buildTableMap P comps)"
    and order: "i < j" "j < length comps"
    and names: "getName (comps ! i) = Some ei" "ei \<noteq> []" "getName (comps ! j) = Some ej" "ej \<noteq> []"
    and counts: "ci = occurrences P getName (toLowerCase P ei) (take (Suc i) comps)"
                "cj = occurrences P getName (toLowerCase P ej) (take (Suc j) comps)"
  shows "assignIds P getName (\<lambda>_. 0) comps ! i = Some (makeId (toLowerCase P ei) ci)
       \<and> assignIds P getName (\<lambda>_. 0) comps ! j = Some (makeId (toLowerCase P ej) cj)
       \<and> makeId (toLowerCase P ei) ci \<noteq> makeId (toLowerCase P ej) cj
       \<and> 1 \<le> ci
       \<and> (toLowerCase P ei = toLowerCase P ej \<longrightarrow> ci < cj)
       \<and> index (makeId (toLowerCase P ei) ci) = Some (comps ! i)
       \<and> index (makeId (toLowerCase P ej) cj) = Some (comps ! j)"
proof -
  from order have i: "i < length comps" by simp
  have idx: "index = buildMap P getName (\<lambda>_. 0) Map.empty comps"
    using pipeline by (auto simp: buildBlockMap_def buildTableMap_def)
  have a: "assignIds P getName (\<lambda>_. 0) comps ! i = Some (makeId (toLowerCase P ei) ci)"
    using assignIds_nth[OF i, of P getName "\<lambda>_. 0"] names counts by simp
  have b: "assignIds P getName (\<lambda>_. 0) comps ! j = Some (makeId (toLowerCase P ej) cj)"
    using assignIds_nth[OF order(2), of P getName "\<lambda>_. 0"] names counts by simp
  have c: "makeId (toLowerCase P ei) ci \<noteq> makeId (toLowerCase P ej) cj"
    using assignIds_distinct[OF order a b] .
  have "occurrences P getName (toLowerCase P ei) (take (Suc i) comps)
          = Suc (occurrences P getName (toLowerCase P ei) (take i comps))"
    using occurrences_take_Suc[where g=getName and bs=comps and j=i and e=ei and P=P] i names by simp
  then have d: "1 \<le> ci" using counts by simp
  have e: "toLowerCase P ei = toLowerCase P ej \<longrightarrow> ci < cj"
    using occurrences_strict[where g=getName and bs=comps and i=i and j=j and e=ej and P=P]
      order names counts by simp
  have f: "index (makeId (toLowerCase P ei) ci) = Some (comps ! i)"
    unfolding idx using buildMap_lookup[OF i a] .
  have g: "index (makeId (toLowerCase P ej) cj) = Some (comps ! j)"
    unfolding idx using buildMap_lookup[OF order(2) b] .
  from a b c d e f g show ?thesis by blast
qed

text \<open>Three blocks, the first and the last with the same name up to case: they get the
  counters 1 and 2.\<close>

theorem identifiers_witness:
  "assignIds (host (Text [])) getElementName (\<lambda>_. 0)
     [blockOf [(asc ''element-name'', asc ''Paywall-Card'')],
      blockOf [(asc ''element-name'', asc ''ee-media'')],
      blockOf [(asc ''element-name'', asc ''paywall-card'')]] ! 0 = Some (asc ''paywall-card-1'')
   \<and> assignIds (host (Text [])) getElementName (\<lambda>_. 0)
     [blockOf [(asc ''element-name'', asc ''Paywall-Card'')],
      blockOf [(asc ''element-name'', asc ''ee-media'')],
      blockOf [(asc ''element-name'', asc ''paywall-card'')]] ! 2 = Some (asc ''paywall-card-2'')
   \<and> buildBlockMap (host (Text []))
     [blockOf [(asc ''element-name'', asc ''Paywall-Card'')],
      blockOf [(asc ''element-name'', asc ''ee-media'')],
      blockOf [(asc ''element-name'', asc ''paywall-card'')]] (asc ''paywall-card-2'')
       = Some (blockOf [(asc ''element-name'', asc ''paywall-card'')])"
proof -
  let ?P = "host (Text [])"
  let ?comps = "[blockOf [(asc ''element-name'', asc ''Paywall-Card'')],
      blockOf [(asc ''element-name'', asc ''ee-media'')],
      blockOf [(asc ''element-name'', asc ''paywall-card'')]]"
  have t: "trim (asc ''element-name'') = asc ''element-name''"
    "trim (asc ''Paywall-Card'') = asc ''Paywall-Card''"
    "trim (asc ''paywall-card'') = asc ''paywall-card''"
    "trim (asc ''ee-media'') = asc ''ee-media''"
    by (simp_all add: trim_def asc_def isSpace_def)
  have l: "toLowerCase ?P (asc ''Paywall-Card'') = asc ''paywall-card''"
    "toLowerCase ?P (asc ''paywall-card'') = asc ''paywall-card''"
    "toLowerCase ?P (asc ''ee-media'') = asc ''ee-media''"
    by (simp_all add: host_def asciiLower_def asc_def)
  have n: "asc ''Paywall-Card'' \<noteq> []" "asc ''paywall-card'' \<noteq> []" "asc ''ee-media'' \<noteq> []"
    "asc ''ee-media'' \<noteq> asc ''paywall-card''"
    by (simp_all add: asc_def)
  have g: "getElementName (?comps ! 0) = Some (asc ''Paywall-Card'')"
    "getElementName (?comps ! 2) = Some (asc ''paywall-card'')"
    by (simp_all add: getElementName_blockOf firstName_def t)
  have c1: "1 = occurrences ?P getElementName (toLowerCase ?P (asc ''Paywall-Card'')) (take (Suc 0) ?comps)"
    by (simp add: occurrences_def getElementName_blockOf firstName_def t l n)
  have c2: "2 = occurrences ?P getElementName (toLowerCase ?P (asc ''paywall-card'')) (take (Suc 2) ?comps)"
    by (simp add: occurrences_def getElementName_blockOf firstName_def t l n)
  have m: "makeId (asc ''paywall-card'') 1 = asc ''paywall-card-1''"
    "makeId (asc ''paywall-card'') 2 = asc ''paywall-card-2''"
    by (simp_all add: makeId_def show_nat.simps asc_def)
  from identifiers_unique_and_ordered[of getElementName "buildBlockMap ?P ?comps" ?P ?comps 0 2
      "asc ''Paywall-Card''" "asc ''paywall-card''" 1 2, OF _ _ _ g(1) n(1) g(2) n(2) c1 c2]
  show ?thesis
    unfolding l m by simp
qed

section \<open>Passthrough\<close>

text \<open>
  Claim C8. When the root of the input (its \<open>main\<close> element, or the body) holds no
  experience-element table and no node that is a component block (a \<open>div\<close> with a class
  token that marks a component), the full conversion returns the input markup unchanged,
  whatever the depth allowed to the conversion: nothing is converted and nothing throws.
\<close>

theorem passthrough_without_components:
  assumes "r = rootOf (parseDocument P html)"
    and "findTables (fst r) (snd r) = []"
    and "\<forall>d \<in> set (snd r # descendants (snd r)). \<not> isBlockDiv d"
  shows "fromEDS P fuel html = Inr html"
proof -
  have "findBlocks (snd r) = []"
    unfolding findBlocks_def using assms(3) by (intro walk_none) auto
  with assms(1,2) show ?thesis by (simp add: fromEDS_def Let_def)
qed

text \<open>A document with a paragraph and an ordinary \<open>div\<close>.\<close>

theorem passthrough_witness:
  "findTables (fst (rootOf (parseDocument (host plainBody) plainMarkup)))
              (snd (rootOf (parseDocument (host plainBody) plainMarkup))) = []
   \<and> fromEDS (host plainBody) 0 plainMarkup = Inr plainMarkup"
proof -
  have r: "rootOf (parseDocument (host plainBody) plainMarkup)
         = (False, Elem (asc ''main'') []
        [Elem (asc ''p'') [] [Text (asc ''hello'')],
         Elem (asc ''div'') [(asc ''class'', asc ''note'')] [Text (asc ''x'')]])"
    by (simp add: host_def plainBody_def rootOf_def asc_def)
  have t: "findTables (fst (rootOf (parseDocument (host plainBody) plainMarkup)))
              (snd (rootOf (parseDocument (host plainBody) plainMarkup))) = []"
    unfolding r by (simp add: findTables_def asc_def)
  have b: "\<forall>d \<in> set (snd (rootOf (parseDocument (host plainBody) plainMarkup))
              # descendants (snd (rootOf (parseDocument (host plainBody) plainMarkup)))).
             \<not> isBlockDiv d"
    unfolding r
    by (simp add: descendants_def isBlockDiv_def className_def getAttribute_def
          isCustomElementClass_def VANILLA_TAGS_def asc_def isSpace_def)
  from passthrough_without_components[OF refl t b] t show ?thesis by simp
qed

section \<open>Root selection among the components\<close>

text \<open>
  Claim C2, amended. In both pipelines, with \<open>U\<close> the components that have an identifier
  which the text of no component refers to, in document order: a single component is the
  root; with two components or more the root is the last member of \<open>U\<close> (its only member
  when there is exactly one) when \<open>U\<close> is not empty, and the last component overall when
  \<open>U\<close> is empty. \<open>U\<close> holds only components with an element name, so with two components
  or more and no reference token the last component is the root when every component has
  an element name.
\<close>

theorem root_selection:
  assumes pipeline: "(getName, findR) = (getElementName, findRootBlock P)
                   \<or> (getName, findR) = (getElementNameFromTable, findRootTable P)"
    and U: "U = unreferenced P getName comps"
  shows "(length comps = 1 \<longrightarrow> findR comps = Some (hd comps))
       \<and> (2 \<le> length comps \<and> U \<noteq> [] \<longrightarrow> findR comps = Some (last U))
       \<and> (2 \<le> length comps \<and> U = [] \<longrightarrow> findR comps = Some (last comps))
       \<and> subseq U comps
       \<and> (\<forall>c \<in> set U. truthy (getName c))
       \<and> (2 \<le> length comps \<and> referencedIds comps = [] \<and> (\<forall>c \<in> set comps. truthy (getName c))
            \<longrightarrow> findR comps = Some (last comps))"
proof -
  have f: "findR = findRoot P getName"
    using pipeline by (auto simp: findRootBlock_def findRootTable_def)
  have a: "length comps = 1 \<longrightarrow> findR comps = Some (hd comps)"
    unfolding f by (cases comps) (auto simp: findRoot_single)
  have b: "2 \<le> length comps \<and> U \<noteq> [] \<longrightarrow> findR comps = Some (last U)"
    unfolding f U using findRoot_many[of comps P getName] by simp
  have c: "2 \<le> length comps \<and> U = [] \<longrightarrow> findR comps = Some (last comps)"
    unfolding f U using findRoot_many[of comps P getName] by simp
  have d: "subseq U comps" unfolding U by (rule subseq_unreferenced)
  have e: "\<forall>c \<in> set U. truthy (getName c)" unfolding U using unreferenced_named by blast
  have g: "2 \<le> length comps \<and> referencedIds comps = [] \<and> (\<forall>c \<in> set comps. truthy (getName c))
            \<longrightarrow> findR comps = Some (last comps)"
  proof (intro impI, elim conjE)
    assume h: "2 \<le> length comps" "referencedIds comps = []" "\<forall>c \<in> set comps. truthy (getName c)"
    from unreferenced_all[OF h(3) h(2)] have "unreferenced P getName comps = comps" .
    with findRoot_many[OF h(1), of P getName] show "findR comps = Some (last comps)"
      unfolding f by simp
  qed
  from a b c d e g show ?thesis by blast
qed

text \<open>A card that refers to a media block before it: the card is the only unreferenced
  component and the root.\<close>

theorem root_selection_witness:
  "2 \<le> length [mediaBlock, cardBlock]
   \<and> unreferenced (host (Text [])) getElementName [mediaBlock, cardBlock] = [cardBlock]
   \<and> findRootBlock (host (Text [])) [mediaBlock, cardBlock] = Some cardBlock"
  using root_selection[of getElementName "findRootBlock (host (Text []))" "host (Text [])"
      "[cardBlock]" "[mediaBlock, cardBlock]"]
  by (simp add: unreferenced_media_card)

text \<open>
  The claim as stated fails: two components, no reference token, and the last one has no
  element name. It has no identifier, so it is not among the unreferenced components, and
  the root is the first component.
\<close>

theorem last_component_not_root:
  "length [mediaBlock, namelessBlock] = 2
   \<and> referencedIds [mediaBlock, namelessBlock] = []
   \<and> last [mediaBlock, namelessBlock] = namelessBlock
   \<and> findRootBlock (host (Text [])) [mediaBlock, namelessBlock] = Some mediaBlock
   \<and> namelessBlock \<noteq> mediaBlock"
  by (simp add: findRootBlock_def findRoot_def unreferenced_media_nameless referencedIds_def
        example_refs example_blocks_differ)

section \<open>Components without an element name\<close>

text \<open>
  In root selection a block without a resolvable element name is no value of the
  identifier index (no reference token resolves to it), is not among the unreferenced
  components, is the root only when no component with an identifier is unreferenced and
  it is the last component, and converts to a copy of itself.
\<close>

lemma nameless_in_root_selection:
  assumes "\<not> truthy (getElementName b)"
  shows "(\<forall>k. buildBlockMap P blocks k \<noteq> Some b)
       \<and> b \<notin> set (unreferenced P getElementName blocks)
       \<and> (findRootBlock P blocks = Some b \<longrightarrow>
            unreferenced P getElementName blocks = [] \<and> blocks \<noteq> [] \<and> b = last blocks)
       \<and> convertBlock (Suc fuel) P m b = Inr b"
proof -
  have a: "\<forall>k. buildBlockMap P blocks k \<noteq> Some b"
  proof
    fix k show "buildBlockMap P blocks k \<noteq> Some b"
      using buildMap_range[of P getElementName "\<lambda>_. 0" Map.empty blocks k b] assms
      by (auto simp: buildBlockMap_def)
  qed
  have b: "b \<notin> set (unreferenced P getElementName blocks)"
    using assms unreferenced_named by blast
  have c: "findRootBlock P blocks = Some b \<longrightarrow>
            unreferenced P getElementName blocks = [] \<and> blocks \<noteq> [] \<and> b = last blocks"
    unfolding findRootBlock_def
    using findRoot_nameless[where g=getElementName and b=b and P=P and bs=blocks] assms by blast
  from a b c convertBlock_nameless[OF assms] show ?thesis by blast
qed

text \<open>A card that refers to itself, then a block without a name: the block is the
  root by the fallback.\<close>

lemma nameless_root_by_fallback:
  "\<not> truthy (getElementName namelessBlock)
   \<and> findRootBlock (host (Text [])) [selfRefBlock, namelessBlock] = Some namelessBlock
   \<and> unreferenced (host (Text [])) getElementName [selfRefBlock, namelessBlock] = []
   \<and> buildBlockMap (host (Text [])) [selfRefBlock, namelessBlock] (asc ''x-card-1'') \<noteq> Some namelessBlock
   \<and> convertBlock (Suc 0) (host (Text [])) (buildBlockMap (host (Text [])) [selfRefBlock, namelessBlock])
        namelessBlock = Inr namelessBlock"
proof -
  have n: "\<not> truthy (getElementName namelessBlock)"
    by (simp add: example_names truthy_def)
  have r: "findRootBlock (host (Text [])) [selfRefBlock, namelessBlock] = Some namelessBlock"
    by (simp add: findRootBlock_def findRoot_def unreferenced_selfRef_nameless)
  from nameless_in_root_selection[OF n, of "host (Text [])" "[selfRefBlock, namelessBlock]" 0
      "buildBlockMap (host (Text [])) [selfRefBlock, namelessBlock]"] n r
  show ?thesis by simp
qed

text \<open>
  Claim C10. The claim is that a component without a resolvable element name becomes the
  conversion result only through the last-component fallback of root selection. The full
  conversion keeps to it (the lemma above). The element mode does no root selection: on
  the document of a block without a name followed by the media block, the media block is
  the only unreferenced component and the root, and the full conversion returns the
  markup of the media element; the element mode converts the first block found and
  returns the block without a name, which is not the last component, as a copy of
  itself.
\<close>

theorem toElement_returns_nameless_block:
  "\<not> truthy (getElementName namelessBlock)
   \<and> findBlocks (snd (rootOf (parseDocument (host namelessBody) namelessMarkup)))
     = [namelessBlock, mediaBlock]
   \<and> buildBlockMap (host namelessBody) [namelessBlock, mediaBlock] (asc ''ee-media-1'') = Some mediaBlock
   \<and> unreferenced (host namelessBody) getElementName [namelessBlock, mediaBlock] = [mediaBlock]
   \<and> findRootBlock (host namelessBody) [namelessBlock, mediaBlock] = Some mediaBlock
   \<and> last [namelessBlock, mediaBlock] \<noteq> namelessBlock
   \<and> fromEDS (host namelessBody) 1 namelessMarkup
     = Inr (asc ''<ee-media src='' @ 34 # asc ''a.png'' @ 34 # asc ''></ee-media>'')
   \<and> toElement (host namelessBody) 1 namelessMarkup = Inr (Some namelessBlock)"
proof -
  have one: "(1::nat) = Suc 0" by simp
  have n: "\<not> truthy (getElementName namelessBlock)"
    by (simp add: example_names truthy_def)
  have a: "findBlocks (snd (rootOf (parseDocument (host namelessBody) namelessMarkup)))
     = [namelessBlock, mediaBlock]"
    by (simp add: namelessBody_root namelessBody_blocks)
  have i: "buildBlockMap (host namelessBody) [namelessBlock, mediaBlock] (asc ''ee-media-1'')
     = Some mediaBlock"
    by (simp add: buildBlockMap_def example_names example_lower example_ids example_nonempty Let_def)
  have l: "last [namelessBlock, mediaBlock] \<noteq> namelessBlock"
    using example_blocks_differ(2) by simp
  have b: "fromEDS (host namelessBody) 1 namelessMarkup
     = Inr (asc ''<ee-media src='' @ 34 # asc ''a.png'' @ 34 # asc ''></ee-media>'')"
    unfolding one
    by (simp add: fromEDS_def namelessBody_root namelessBody_tables namelessBody_blocks
          namelessBody_rootBlock media_converted media_serialized Let_def del: convertBlock.simps)
  have c: "toElement (host namelessBody) 1 namelessMarkup = Inr (Some namelessBlock)"
    unfolding one
    by (simp add: toElement_def namelessBody_root namelessBody_tables namelessBody_blocks
          convertBlock_nameless[OF n] Let_def del: convertBlock.simps)
  from n a i l b c unreferenced_nameless_media[of namelessBody] namelessBody_rootBlock[of namelessBody]
  show ?thesis by blast
qed

section \<open>The two encodings\<close>




section \<open>The style attribute\<close>




section \<open>Reference-only rows\<close>

text \<open>
  Claim C3, amended. For every row of a block whose label is not \<open>element-name\<close> and does
  not start with \<open>style-\<close>, whose content text holds at least one reference token and
  nothing but tokens, commas and white space: when the conversion of every referenced
  block in the index succeeds, the row appends to the element, in the order of the tokens,
  the conversion of each token that is in the index, and nothing for a token that is not;
  when the conversion of one of them fails, the row fails with the error of the first
  token whose conversion fails and appends nothing; each appended child gets \<open>slot = L\<close>
  when the label \<open>L\<close> is present, not empty and not \<open>children\<close>, and is left as converted
  otherwise; the attributes of the element and the style variables stay as they were; and
  with no token in the index the row leaves the element unchanged.
\<close>

theorem reference_only_row:
  assumes row: "parseBlockRow row = Some parsed"
    and notName: "slotName parsed \<noteq> Some (asc ''element-name'')"
    and notStyle: "\<forall>s. slotName parsed = Some s \<longrightarrow> \<not> startsWith (asc ''style-'') s"
    and refs: "refs = parseReferences (trim (textContent (content parsed)))" "refs \<noteq> []"
    and only: "isReferenceOnly (trim (textContent (content parsed)))"
  shows "((\<forall>k \<in> set refs. \<forall>b. m k = Some b \<longrightarrow> rec b = Inr (conv b)) \<longrightarrow>
            convertRow P rec m row (Elem t as cs, styleVars)
              = Inr (Elem t as (cs @ map (\<lambda>b. slotUnlessChildren (slotName parsed) (conv b))
                                       (List.map_filter m refs)), styleVars))
       \<and> (\<forall>pre k post b e.
             refs = pre @ k # post
             \<and> (\<forall>k' \<in> set pre. \<forall>b'. m k' = Some b' \<longrightarrow> (\<exists>c. rec b' = Inr c))
             \<and> m k = Some b \<and> rec b = Inl e
             \<longrightarrow> convertRow P rec m row (Elem t as cs, styleVars) = Inl e)
       \<and> (\<forall>c L. slotName parsed = Some L \<and> L \<noteq> [] \<and> L \<noteq> asc ''children''
             \<longrightarrow> slotUnlessChildren (slotName parsed) c = setAttr (asc ''slot'') L c)
       \<and> (\<forall>c. slotName parsed = None \<or> slotName parsed = Some [] \<or> slotName parsed = Some (asc ''children'')
             \<longrightarrow> slotUnlessChildren (slotName parsed) c = c)
       \<and> ((\<forall>k \<in> set refs. m k = None)
             \<longrightarrow> convertRow P rec m row (Elem t as cs, styleVars) = Inr (Elem t as cs, styleVars))"
proof -
  have st: "(case slotName parsed of Some s \<Rightarrow> startsWith (asc ''style-'') s | None \<Rightarrow> False) = False"
    using notStyle by (cases "slotName parsed") auto
  have step: "convertRow P rec m row (Elem t as cs, styleVars)
      = (case resolveRefs rec m (slotUnlessChildren (slotName parsed)) refs of
           Inl e \<Rightarrow> Inl e
         | Inr nodes \<Rightarrow> Inr (Elem t as (cs @ nodes), styleVars))"
    using notName
    by (simp add: convertRow_def row Let_def st refs(1)[symmetric] refs(2) only
          del: resolveRefs.simps split: sum.splits)
  have a: "(\<forall>k \<in> set refs. \<forall>b. m k = Some b \<longrightarrow> rec b = Inr (conv b)) \<longrightarrow>
            convertRow P rec m row (Elem t as cs, styleVars)
              = Inr (Elem t as (cs @ map (\<lambda>b. slotUnlessChildren (slotName parsed) (conv b))
                                       (List.map_filter m refs)), styleVars)"
  proof
    assume rec: "\<forall>k \<in> set refs. \<forall>b. m k = Some b \<longrightarrow> rec b = Inr (conv b)"
    from resolveRefs_all[OF rec, of "slotUnlessChildren (slotName parsed)"]
    show "convertRow P rec m row (Elem t as cs, styleVars)
              = Inr (Elem t as (cs @ map (\<lambda>b. slotUnlessChildren (slotName parsed) (conv b))
                                       (List.map_filter m refs)), styleVars)"
      by (simp add: step)
  qed
  have f: "\<forall>pre k post b e.
             refs = pre @ k # post
             \<and> (\<forall>k' \<in> set pre. \<forall>b'. m k' = Some b' \<longrightarrow> (\<exists>c. rec b' = Inr c))
             \<and> m k = Some b \<and> rec b = Inl e
             \<longrightarrow> convertRow P rec m row (Elem t as cs, styleVars) = Inl e"
  proof (intro allI impI, elim conjE)
    fix pre k post b e
    assume h: "refs = pre @ k # post"
      "\<forall>k' \<in> set pre. \<forall>b'. m k' = Some b' \<longrightarrow> (\<exists>c. rec b' = Inr c)"
      "m k = Some b" "rec b = Inl e"
    from resolveRefs_first_failure[OF h(2,3,4), of "slotUnlessChildren (slotName parsed)" post]
    show "convertRow P rec m row (Elem t as cs, styleVars) = Inl e"
      by (simp add: step h(1))
  qed
  have b: "\<forall>c L. slotName parsed = Some L \<and> L \<noteq> [] \<and> L \<noteq> asc ''children''
             \<longrightarrow> slotUnlessChildren (slotName parsed) c = setAttr (asc ''slot'') L c"
    by (auto simp: slotUnlessChildren_def)
  have c: "\<forall>c. slotName parsed = None \<or> slotName parsed = Some [] \<or> slotName parsed = Some (asc ''children'')
             \<longrightarrow> slotUnlessChildren (slotName parsed) c = c"
    by (auto simp: slotUnlessChildren_def)
  have d: "(\<forall>k \<in> set refs. m k = None)
             \<longrightarrow> convertRow P rec m row (Elem t as cs, styleVars) = Inr (Elem t as cs, styleVars)"
  proof
    assume n: "\<forall>k \<in> set refs. m k = None"
    then have "\<forall>k \<in> set refs. \<forall>b. m k = Some b \<longrightarrow> rec b = Inr (id b)" by simp
    from resolveRefs_all[OF this, of "slotUnlessChildren (slotName parsed)"] map_filter_none[OF n]
    show "convertRow P rec m row (Elem t as cs, styleVars) = Inr (Elem t as cs, styleVars)"
      by (simp add: step)
  qed
  from a f b c d show ?thesis by blast
qed

text \<open>The row \<open>media\<close> with one token in the index and one that is not; and the row of the
  card that refers to itself, whose conversion fails.\<close>

theorem reference_only_row_witness:
  "parseReferences (trim (textContent
      (Elem (asc ''div'') [] [Text (arrow # asc '' ee-media-1, '' @ arrow # asc '' zz-9'')])))
     = [asc ''ee-media-1'', asc ''zz-9'']
   \<and> buildBlockMap (host (Text [])) [mediaBlock, cardBlock] (asc ''zz-9'') = None
   \<and> convertRow (host (Text []))
        (convertBlock (Suc 0) (host (Text [])) (buildBlockMap (host (Text [])) [mediaBlock, cardBlock]))
        (buildBlockMap (host (Text [])) [mediaBlock, cardBlock]) twoRefsRow
        (Elem (asc ''x-card'') [] [], [])
     = Inr (Elem (asc ''x-card'') []
              [Elem (asc ''ee-media'') [(asc ''src'', asc ''a.png''), (asc ''slot'', asc ''media'')] []], [])
   \<and> convertRow (host (Text []))
        (convertBlock (Suc 0) (host (Text [])) (buildBlockMap (host (Text [])) [selfRefBlock]))
        (buildBlockMap (host (Text [])) [selfRefBlock])
        (blockRow (asc ''children'', arrow # asc '' x-card-1''))
        (Elem (asc ''x-card'') [] [], [])
     = Inl RangeError"
proof -
  let ?m = "buildBlockMap (host (Text [])) [mediaBlock, cardBlock]"
  let ?c = "Elem (asc ''div'') [] [Text (arrow # asc '' ee-media-1, '' @ arrow # asc '' zz-9'')]"
  let ?parsed = "\<lparr>slotName = Some (asc ''media''), content = ?c, isSlot = False\<rparr>"
  have r: "[asc ''ee-media-1'', asc ''zz-9''] = parseReferences (trim (textContent (content ?parsed)))"
    by (simp add: twoRefs_text)
  have o: "isReferenceOnly (trim (textContent (content ?parsed)))"
    by (simp add: twoRefs_text)
  have n: "slotName ?parsed \<noteq> Some (asc ''element-name'')"
    "\<forall>s. slotName ?parsed = Some s \<longrightarrow> \<not> startsWith (asc ''style-'') s"
    by (simp_all add: startsWith_def asc_def del: asc_eq_iff asc_empty_iff)
  have rec: "\<forall>k \<in> set [asc ''ee-media-1'', asc ''zz-9'']. \<forall>b. ?m k = Some b \<longrightarrow>
          convertBlock (Suc 0) (host (Text [])) ?m b
            = Inr ((\<lambda>_. Elem (asc ''ee-media'') [(asc ''src'', asc ''a.png'')] []) b)"
    by (simp add: index_media_card_all media_converted del: convertBlock.simps)
  have mf: "List.map_filter ?m [asc ''ee-media-1'', asc ''zz-9''] = [mediaBlock]"
    by (simp add: List.map_filter_simps index_media_card_all)
  note inst = reference_only_row[OF twoRefsRow_parsed n r _ o,
      of ?m "convertBlock (Suc 0) (host (Text [])) ?m"
         "\<lambda>_. Elem (asc ''ee-media'') [(asc ''src'', asc ''a.png'')] []"
         "host (Text [])" "asc ''x-card''" "[]" "[]" "[]", unfolded mf]
  from inst rec have a: "convertRow (host (Text [])) (convertBlock (Suc 0) (host (Text [])) ?m) ?m twoRefsRow
        (Elem (asc ''x-card'') [] [], [])
     = Inr (Elem (asc ''x-card'') []
              [Elem (asc ''ee-media'') [(asc ''src'', asc ''a.png''), (asc ''slot'', asc ''media'')] []], [])"
    by (simp add: mf slotUnlessChildren_def del: convertBlock.simps)
  have b: "parseReferences (trim (textContent ?c)) = [asc ''ee-media-1'', asc ''zz-9'']"
    by (simp add: twoRefs_text)
  have c: "?m (asc ''zz-9'') = None"
    by (simp add: index_media_card_all)
  let ?s = "buildBlockMap (host (Text [])) [selfRefBlock]"
  let ?d = "Elem (asc ''div'') [] [Text (arrow # asc '' x-card-1'')]"
  let ?own = "\<lparr>slotName = Some (asc ''children''), content = ?d, isSlot = False\<rparr>"
  have p': "parseBlockRow (blockRow (asc ''children'', arrow # asc '' x-card-1'')) = Some ?own"
    by (simp add: parseBlockRow_blockRow textNodes_def string_eval del: asc_eq_iff asc_empty_iff)
  have own_text: "parseReferences (trim (arrow # asc '' x-card-1'')) = [asc ''x-card-1'']"
    "isReferenceOnly (trim (arrow # asc '' x-card-1''))"
    by (simp_all add: parseReferences_def matchRef_def isReferenceOnly_def string_eval
          del: asc_eq_iff asc_empty_iff)
  have r': "[asc ''x-card-1''] = parseReferences (trim (textContent (content ?own)))"
    by (simp add: own_text)
  have o': "isReferenceOnly (trim (textContent (content ?own)))"
    by (simp add: own_text)
  have n': "slotName ?own \<noteq> Some (asc ''element-name'')"
    "\<forall>s. slotName ?own = Some s \<longrightarrow> \<not> startsWith (asc ''style-'') s"
    by (simp_all add: startsWith_def asc_def del: asc_eq_iff asc_empty_iff)
  note fails = selfRef_never_converts[where bm="?s" and b="Text []" and f="Suc 0",
      OF index_selfRef]
  have ne: "[asc ''x-card-1''] \<noteq> []" by simp
  note own = reference_only_row[OF p' n' r' ne o',
      of ?s "convertBlock (Suc 0) (host (Text [])) ?s" id "host (Text [])" "asc ''x-card''" "[]" "[]" "[]"]
  note failing = own[THEN conjunct2, THEN conjunct1, rule_format,
      of "[]" "asc ''x-card-1''" "[]" selfRefBlock RangeError]
  have d: "convertRow (host (Text [])) (convertBlock (Suc 0) (host (Text [])) ?s) ?s
            (blockRow (asc ''children'', arrow # asc '' x-card-1'')) (Elem (asc ''x-card'') [] [], [])
          = Inl RangeError"
    by (rule failing) (simp add: index_selfRef fails del: convertBlock.simps)
  from a b c d show ?thesis by blast
qed

text \<open>
  The claim as stated fails in two ways. A row labelled \<open>style-x\<close> is a style row before it
  can be a reference row, so its reference-only text is not resolved and stands as literal
  text in the style attribute of the output. And a token that resolves is not always
  converted and appended: the token of a card that refers to itself resolves to the card,
  whose conversion nests without end and fails (at every depth, by the lemma
  \<open>selfRef_never_converts\<close>).
\<close>

theorem reference_rows_kept_or_failing:
  "parseReferences (trim (arrow # asc '' zz-9'')) = [asc ''zz-9'']
   \<and> isReferenceOnly (trim (arrow # asc '' zz-9''))
   \<and> convertBlock (Suc 0) (host (Text [])) Map.empty styleRefBlock
     = Inr (Elem (asc ''x-card'') [(asc ''style'', asc ''--x: '' @ arrow # asc '' zz-9'')] [])
   \<and> parseReferences (trim (arrow # asc '' x-card-1'')) = [asc ''x-card-1'']
   \<and> isReferenceOnly (trim (arrow # asc '' x-card-1''))
   \<and> buildBlockMap (host (Text [])) [selfRefBlock] (asc ''x-card-1'') = Some selfRefBlock
   \<and> convertBlock 3 (host (Text [])) (buildBlockMap (host (Text [])) [selfRefBlock]) selfRefBlock
     = Inl RangeError"
proof -
  have "parseReferences (trim (arrow # asc '' zz-9'')) = [asc ''zz-9'']"
    "isReferenceOnly (trim (arrow # asc '' zz-9''))"
    "parseReferences (trim (arrow # asc '' x-card-1'')) = [asc ''x-card-1'']"
    "isReferenceOnly (trim (arrow # asc '' x-card-1''))"
    by (simp_all add: parseReferences_def matchRef_def isReferenceOnly_def string_eval
          del: asc_eq_iff asc_empty_iff)
  with styleRefBlock_converted[of 0 "Text []" Map.empty] index_selfRef[of "Text []"]
    selfRef_never_converts[where bm="buildBlockMap (host (Text [])) [selfRefBlock]"
      and b="Text []" and f=3, OF index_selfRef]
  show ?thesis by blast
qed

section \<open>Rows of a single cell\<close>

text \<open>
  Claim C6, amended. For every row of a single cell (no label) whose text is not
  reference-only and whose content has no slotted descendant: the row sets no attribute
  and no slot annotation; it appends the child nodes of the content, except that when
  the content has exactly one element child and this child is a \<open>p\<close>, it appends the child
  nodes of that \<open>p\<close>, whatever the \<open>p\<close> holds.
\<close>

theorem single_cell_row:
  assumes row: "parseBlockRow row = Some parsed" "slotName parsed = None"
    and noRefs: "\<not> (parseReferences (trim (textContent (content parsed))) \<noteq> []
                    \<and> isReferenceOnly (trim (textContent (content parsed))))"
    and noSlot: "\<not> hasSlotted (content parsed)"
  shows "convertRow P rec m row (Elem t as cs, styleVars)
           = Inr (Elem t as (cs @ unwrapSingleP (content parsed)), styleVars)
       \<and> (\<forall>p. children (content parsed) = [p] \<and> tagOf p = asc ''p''
             \<longrightarrow> unwrapSingleP (content parsed) = childNodes p)
       \<and> ((\<nexists>p. children (content parsed) = [p] \<and> tagOf p = asc ''p'')
             \<longrightarrow> unwrapSingleP (content parsed) = childNodes (content parsed))"
proof -
  have ro: "(parseReferences (trim (textContent (content parsed))) \<noteq> []
             \<and> isReferenceOnly (trim (textContent (content parsed)))) = False"
    using noRefs by simp
  have a: "convertRow P rec m row (Elem t as cs, styleVars)
           = Inr (Elem t as (cs @ unwrapSingleP (content parsed)), styleVars)"
    by (simp add: convertRow_def row Let_def ro noSlot)
  have b: "\<forall>p. children (content parsed) = [p] \<and> tagOf p = asc ''p''
             \<longrightarrow> unwrapSingleP (content parsed) = childNodes p"
    by (auto simp: unwrapSingleP_def)
  have c: "(\<nexists>p. children (content parsed) = [p] \<and> tagOf p = asc ''p'')
             \<longrightarrow> unwrapSingleP (content parsed) = childNodes (content parsed)"
    by (auto simp: unwrapSingleP_def split: list.splits)
  from a b c show ?thesis by blast
qed

text \<open>A cell with one paragraph of plain text.\<close>

theorem single_cell_row_witness:
  "\<not> hasSlotted (Elem (asc ''div'') [] [Elem (asc ''p'') [] [Text (asc ''Hello'')]])
   \<and> convertRow (host (Text [])) (convertBlock 0 (host (Text [])) Map.empty) Map.empty
        plainParagraphRow (Elem (asc ''x-card'') [] [], [])
     = Inr (Elem (asc ''x-card'') [] [Text (asc ''Hello'')], [])"
proof -
  let ?c = "Elem (asc ''div'') [] [Elem (asc ''p'') [] [Text (asc ''Hello'')]]"
  let ?parsed = "\<lparr>slotName = None, content = ?c, isSlot = False\<rparr>"
  have s: "slotName ?parsed = None" by simp
  have r: "\<not> (parseReferences (trim (textContent (content ?parsed))) \<noteq> []
             \<and> isReferenceOnly (trim (textContent (content ?parsed))))"
    by (simp add: parseReferences_def string_eval del: asc_eq_iff asc_empty_iff)
  have h: "\<not> hasSlotted (content ?parsed)"
    by (simp add: hasSlotted_def descendants_def getAttribute_def)
  from single_cell_row[OF paragraph_rows_parsed(1) s r h, of "host (Text [])"
      "convertBlock 0 (host (Text [])) Map.empty" Map.empty "asc ''x-card''" "[]" "[]" "[]"] h
  show ?thesis
    by (simp add: children_def)
qed

text \<open>
  The claim as stated fails: a paragraph with markup inside is not a plain paragraph
  wrapper, and it is unwrapped all the same, where the claim has the paragraph itself
  appended.
\<close>

theorem rich_paragraph_unwrapped:
  "parseBlockRow richParagraphRow
     = Some \<lparr>slotName = None,
             content = Elem (asc ''div'') []
               [Elem (asc ''p'') [] [Text (asc ''Hello ''), Elem (asc ''b'') [] [Text (asc ''x'')]]],
             isSlot = False\<rparr>
   \<and> \<not> isSimplePWrapper (Elem (asc ''div'') []
               [Elem (asc ''p'') [] [Text (asc ''Hello ''), Elem (asc ''b'') [] [Text (asc ''x'')]]])
   \<and> convertRow (host (Text [])) (convertBlock 0 (host (Text [])) Map.empty) Map.empty
        richParagraphRow (Elem (asc ''x-card'') [] [], [])
     = Inr (Elem (asc ''x-card'') [] [Text (asc ''Hello ''), Elem (asc ''b'') [] [Text (asc ''x'')]], [])"
  by (simp add: paragraph_rows_parsed convertRow_def Let_def isSimplePWrapper_def children_def
        hasSlotted_def descendants_def getAttribute_def unwrapSingleP_def parseReferences_def
        string_eval del: asc_eq_iff asc_empty_iff)

section \<open>Tables before blocks\<close>

text \<open>
  Claim C9. When the root of the input holds at least one experience-element table, both
  entry points run the table pipeline only: the full conversion converts the table that
  root selection picks among the tables, the element mode converts the first table, the
  index that resolves the references holds tables of that list only, and no block of the
  document (a \<open>div\<close>) is among them: the blocks are not discovered, get no identifier,
  cannot be referred to and are no candidates for the root.
\<close>

theorem tables_take_precedence:
  assumes "r = rootOf (parseDocument P html)"
    and "tables = findTables (fst r) (snd r)"
    and "tables \<noteq> []"
  shows "(\<exists>t \<in> set tables. findRootTable P tables = Some t
            \<and> fromEDS P fuel html
                = (case convertTable fuel P (buildTableMap P tables) t of
                     Inl e \<Rightarrow> Inl e
                   | Inr None \<Rightarrow> Inr html
                   | Inr (Some converted) \<Rightarrow> Inr (outerHTML P converted)))
       \<and> toElement P fuel html = convertTable fuel P (buildTableMap P tables) (hd tables)
       \<and> (\<forall>k t. buildTableMap P tables k = Some t \<longrightarrow> t \<in> set tables)
       \<and> (\<forall>t \<in> set tables. tagOf t = asc ''table'')
       \<and> (\<forall>b \<in> set (findBlocks (snd r)). tagOf b = asc ''div'' \<and> b \<notin> set tables)"
proof -
  from findRoot_some[OF assms(3), of P getElementNameFromTable]
  obtain t where t: "findRootTable P tables = Some t" by (auto simp: findRootTable_def)
  then have tin: "t \<in> set tables" using findRoot_mem by (auto simp: findRootTable_def)
  have a: "fromEDS P fuel html
                = (case convertTable fuel P (buildTableMap P tables) t of
                     Inl e \<Rightarrow> Inl e
                   | Inr None \<Rightarrow> Inr html
                   | Inr (Some converted) \<Rightarrow> Inr (outerHTML P converted))"
    using assms t by (simp add: fromEDS_def Let_def)
  have b: "toElement P fuel html = convertTable fuel P (buildTableMap P tables) (hd tables)"
  proof -
    from assms(3) obtain t0 ts where ts: "tables = t0 # ts" by (cases tables) auto
    then have "findTables (fst (rootOf (parseDocument P html))) (snd (rootOf (parseDocument P html))) = t0 # ts"
      using assms(1,2) by simp
    then show ?thesis unfolding ts by (simp add: toElement_def Let_def)
  qed
  have c: "\<forall>k t. buildTableMap P tables k = Some t \<longrightarrow> t \<in> set tables"
    using buildMap_range[of P getElementNameFromTable "\<lambda>_. 0" Map.empty tables]
    by (auto simp: buildTableMap_def)
  have d: "\<forall>t \<in> set tables. tagOf t = asc ''table''"
    using assms(2) findTables_tag by blast
  have e: "\<forall>b \<in> set (findBlocks (snd r)). tagOf b = asc ''div'' \<and> b \<notin> set tables"
  proof
    fix b assume "b \<in> set (findBlocks (snd r))"
    then have "tagOf b = asc ''div''" by (rule findBlocks_tag)
    moreover have "asc ''div'' \<noteq> asc ''table''" by simp
    ultimately show "tagOf b = asc ''div'' \<and> b \<notin> set tables" using d by auto
  qed
  from tin t a b c d e show ?thesis by blast
qed

text \<open>A document with a block and a table: the table is converted, in both modes.\<close>

theorem tables_take_precedence_witness:
  "findTables (fst (rootOf (parseDocument (host mixedBody) mixedMarkup)))
              (snd (rootOf (parseDocument (host mixedBody) mixedMarkup))) = [tableOf titleRows]
   \<and> findBlocks (snd (rootOf (parseDocument (host mixedBody) mixedMarkup))) = [mediaBlock]
   \<and> fromEDS (host mixedBody) 1 mixedMarkup
     = Inr (outerHTML (host mixedBody) (Elem (asc ''x-card'') [(asc ''title'', asc ''Hi'')] []))
   \<and> toElement (host mixedBody) 1 mixedMarkup
     = Inr (Some (Elem (asc ''x-card'') [(asc ''title'', asc ''Hi'')] []))"
proof -
  let ?r = "rootOf (parseDocument (host mixedBody) mixedMarkup)"
  have t: "[tableOf titleRows] = findTables (fst ?r) (snd ?r)"
    by (simp add: mixedBody_root mixedBody_tables)
  have ne: "[tableOf titleRows] \<noteq> []" by simp
  have b: "findBlocks (snd ?r) = [mediaBlock]"
    by (simp add: mixedBody_root mixedBody_blocks)
  have one: "(1::nat) = Suc 0" by simp
  note c = titleTable_converted[of 0 mixedBody "buildTableMap (host mixedBody) [tableOf titleRows]"]
  from tables_take_precedence[OF refl t ne, of 1] t[symmetric] b
  show ?thesis
    unfolding one by (simp add: c del: convertTable.simps)
qed

section \<open>The entry component of the two modes\<close>

text \<open>
  Claim C4. The claim is that both modes convert the component chosen by root
  selection. On the document of a media block followed by the card that refers to it,
  root selection picks the card and the full conversion returns the markup of the card
  with the media element as its child; the element mode converts the first block found,
  the media block, and returns the media element alone.
\<close>

theorem toElement_converts_first_block:
  "findRootBlock (host cardBody) (findBlocks (snd (rootOf (parseDocument (host cardBody) cardMarkup))))
     = Some cardBlock
   \<and> fromEDS (host cardBody) 2 cardMarkup
     = Inr (outerHTML (host cardBody)
              (Elem (asc ''paywall-card'') []
                 [Elem (asc ''ee-media'') [(asc ''src'', asc ''a.png''), (asc ''slot'', asc ''media'')] []]))
   \<and> outerHTML (host cardBody)
              (Elem (asc ''paywall-card'') []
                 [Elem (asc ''ee-media'') [(asc ''src'', asc ''a.png''), (asc ''slot'', asc ''media'')] []])
     = asc ''<paywall-card><ee-media src='' @ 34 # asc ''a.png'' @ 34 # asc '' slot='' @ 34 # asc ''media''
       @ 34 # asc ''></ee-media></paywall-card>''
   \<and> toElement (host cardBody) 2 cardMarkup
     = Inr (Some (Elem (asc ''ee-media'') [(asc ''src'', asc ''a.png'')] []))"
proof -
  have two: "(2::nat) = Suc (Suc 0)" by simp
  have a: "findRootBlock (host cardBody) (findBlocks (snd (rootOf (parseDocument (host cardBody) cardMarkup))))
     = Some cardBlock"
    by (simp add: cardBody_root cardBody_blocks cardBody_rootBlock)
  have b: "fromEDS (host cardBody) 2 cardMarkup
     = Inr (outerHTML (host cardBody)
              (Elem (asc ''paywall-card'') []
                 [Elem (asc ''ee-media'') [(asc ''src'', asc ''a.png''), (asc ''slot'', asc ''media'')] []]))"
    unfolding two
    by (simp add: fromEDS_def cardBody_root cardBody_tables cardBody_blocks cardBody_rootBlock
          card_converted Let_def del: convertBlock.simps)
  have c: "toElement (host cardBody) 2 cardMarkup
     = Inr (Some (Elem (asc ''ee-media'') [(asc ''src'', asc ''a.png'')] []))"
    unfolding two
    by (simp add: toElement_def cardBody_root cardBody_tables cardBody_blocks
          media_converted Let_def del: convertBlock.simps)
  from a b c card_serialized[of cardBody] show ?thesis by blast
qed

end
